theory Spec2Isabelle
  imports Complex_Main "HOL-Library.AList"
begin

section \<open>JSON values and JavaScript objects\<close>

text \<open>
  The payload of a dataset record (\<open>variables\<close>) and a parsed schema are JSON values.
  An object is the list of its own enumerable properties, in the order of
  \<open>Object.entries\<close>. Of a number only \<open>typeof\<close>, whether it is zero and \<open>String(n)\<close>
  are ever observed.
\<close>

datatype json =
    JNull
  | JBool bool
  | JNumber rat
  | JString string
  | JArray "json list"
  | JObject "(string \<times> json) list"

type_synonym 'v jsrecord = "(string \<times> 'v) list"

text \<open>\<open>typeof value\<close>.\<close>

fun typeof :: "json \<Rightarrow> string" where
  "typeof JNull = ''object''"
| "typeof (JBool b) = ''boolean''"
| "typeof (JNumber n) = ''number''"
| "typeof (JString s) = ''string''"
| "typeof (JArray xs) = ''object''"
| "typeof (JObject entries) = ''object''"

text \<open>The values that \<open>!value\<close> does not negate to \<open>true\<close>.\<close>

fun truthy :: "json \<Rightarrow> bool" where
  "truthy JNull = False"
| "truthy (JBool b) = b"
| "truthy (JNumber n) = (n \<noteq> 0)"
| "truthy (JString s) = (s \<noteq> [])"
| "truthy (JArray xs) = True"
| "truthy (JObject entries) = True"

text \<open>Decimal rendering of a non-negative integer, as a template literal renders it.\<close>

definition digit_char :: "nat \<Rightarrow> char" where
  "digit_char d = ''0123456789'' ! d"

fun string_of_nat :: "nat \<Rightarrow> string" where
  "string_of_nat n =
     (if n < 10 then [digit_char n]
      else string_of_nat (n div 10) @ [digit_char (n mod 10)])"

declare string_of_nat.simps [simp del]

text \<open>\<open>Object.entries\<close> of an array: its elements under the keys \<open>"0"\<close>, \<open>"1"\<close>, ...\<close>

definition array_entries :: "json list \<Rightarrow> json jsrecord" where
  "array_entries xs = map (\<lambda>i. (string_of_nat i, xs ! i)) [0..<length xs]"

section \<open>Schema inference: flattening a payload\<close>

text \<open>
  \<open>fields[path] = type\<close> on an object literal, where the assigned value is a string.
  Every key names an own property afterwards, except \<open>__proto__\<close>: that key is the
  accessor inherited from \<open>Object.prototype\<close>, whose setter ignores a value that is
  neither an object nor \<open>null\<close>, so the assignment leaves the object as it was.
\<close>

definition set_string :: "string jsrecord \<Rightarrow> string \<Rightarrow> string \<Rightarrow> string jsrecord" where
  "set_string fields key v =
     (if key = ''__proto__'' then fields else AList.update key v fields)"

text \<open>\<open>Object.assign(target, source)\<close>: each own property of the source is assigned in turn.\<close>

definition object_assign :: "string jsrecord \<Rightarrow> string jsrecord \<Rightarrow> string jsrecord" where
  "object_assign target source = fold (\<lambda>(key, v) t. set_string t key v) source target"

text \<open>\<open>const path = prefix || "value"\<close>\<close>

definition path_of :: "string \<Rightarrow> string" where
  "path_of prefix = (if prefix \<noteq> [] then prefix else ''value'')"

text \<open>\<open>const nextPrefix = prefix ? `${prefix}.${key}` : key\<close>\<close>

definition nextPrefix :: "string \<Rightarrow> string \<Rightarrow> string" where
  "nextPrefix prefix key = (if prefix \<noteq> [] then prefix @ ''.'' @ key else key)"

text \<open>
  \<open>DataSetService.collectFields\<close>. The second function is the \<open>for\<close> loop over the
  entries of an object, with the \<open>fields\<close> built so far.
\<close>

fun collectFields :: "json \<Rightarrow> string \<Rightarrow> string jsrecord"
  and collectFields_loop :: "(string \<times> json) list \<Rightarrow> string \<Rightarrow> string jsrecord \<Rightarrow> string jsrecord"
where
  "collectFields JNull prefix = set_string [] (path_of prefix) ''null''"
| "collectFields (JArray xs) prefix = set_string [] (path_of prefix) ''array''"
| "collectFields (JObject entries) prefix =
     (if entries = [] \<and> prefix \<noteq> [] then set_string [] (path_of prefix) ''object''
      else collectFields_loop entries prefix [])"
| "collectFields (JBool b) prefix = set_string [] (path_of prefix) (typeof (JBool b))"
| "collectFields (JNumber n) prefix = set_string [] (path_of prefix) (typeof (JNumber n))"
| "collectFields (JString s) prefix = set_string [] (path_of prefix) (typeof (JString s))"
| "collectFields_loop [] prefix fields = fields"
| "collectFields_loop ((key, next) # entries) prefix fields =
     collectFields_loop entries prefix
       (object_assign fields (collectFields next (nextPrefix prefix key)))"

text \<open>
  The flattening as the specification words it, case by case: the list of
  \<open>(path, type)\<close> pairs of a value under a prefix. An empty object under the empty
  prefix, which the specification leaves open, contributes no pair.
\<close>

fun flatten_spec :: "json \<Rightarrow> string \<Rightarrow> (string \<times> string) list"
  and flatten_spec_entries :: "(string \<times> json) list \<Rightarrow> string \<Rightarrow> (string \<times> string) list"
where
  "flatten_spec JNull prefix = [(path_of prefix, ''null'')]"
| "flatten_spec (JArray xs) prefix = [(path_of prefix, ''array'')]"
| "flatten_spec (JObject entries) prefix =
     (if entries = [] then (if prefix \<noteq> [] then [(prefix, ''object'')] else [])
      else flatten_spec_entries entries prefix)"
| "flatten_spec (JBool b) prefix = [(path_of prefix, ''boolean'')]"
| "flatten_spec (JNumber n) prefix = [(path_of prefix, ''number'')]"
| "flatten_spec (JString s) prefix = [(path_of prefix, ''string'')]"
| "flatten_spec_entries [] prefix = []"
| "flatten_spec_entries ((key, next) # entries) prefix =
     flatten_spec next (if prefix = [] then key else prefix @ ''.'' @ key)
       @ flatten_spec_entries entries prefix"

section \<open>Schema inference: the type map\<close>

text \<open>
  \<open>schema.fields\<close> is a plain object whose property values are whatever the stored
  JSON held. A property read \<open>schema.fields[path]\<close> that finds no own property
  continues in the prototype chain, so the model keeps what the chain holds:
  \<^item> \<open>own\<close>: the own enumerable properties (what \<open>JSON.stringify\<close> and a spread see);
  \<^item> \<open>proto_type\<close>: \<open>None\<close> while the prototype is \<open>Object.prototype\<close>; \<open>Some t\<close> once
    an assignment \<open>fields["__proto__"] = { type: t }\<close> has made the object \<open>{ type: t }\<close>
    the prototype (that object's own prototype is \<open>Object.prototype\<close>).
\<close>

record fields_object =
  own :: "json jsrecord"
  proto_type :: "string option"

record DataSetSchema =
  schema_fields :: fields_object

definition empty_fields :: fields_object where
  "empty_fields = \<lparr>own = [], proto_type = None\<rparr>"

text \<open>The result of a property read: nothing, a JSON value, or a member of \<open>Object.prototype\<close>.\<close>

datatype property = Undefined | Value json | Builtin

text \<open>The property names of \<open>Object.prototype\<close>.\<close>

definition object_prototype_keys :: "string list" where
  "object_prototype_keys =
     [''constructor'', ''__defineGetter__'', ''__defineSetter__'', ''hasOwnProperty'',
      ''__lookupGetter__'', ''__lookupSetter__'', ''isPrototypeOf'',
      ''propertyIsEnumerable'', ''toString'', ''valueOf'', ''__proto__'',
      ''toLocaleString'']"

text \<open>The object literal \<open>{ type }\<close>.\<close>

definition type_object :: "string \<Rightarrow> json" where
  "type_object t = JObject [(''type'', JString t)]"

definition inherited :: "string \<Rightarrow> property" where
  "inherited key = (if key \<in> set object_prototype_keys then Builtin else Undefined)"

text \<open>\<open>schema.fields[key]\<close>\<close>

definition get_field :: "fields_object \<Rightarrow> string \<Rightarrow> property" where
  "get_field obj key =
     (case map_of (own obj) key of
        Some v \<Rightarrow> Value v
      | None \<Rightarrow>
          (case proto_type obj of
             None \<Rightarrow> inherited key
           | Some t \<Rightarrow>
               if key = ''__proto__'' then Value (type_object t)
               else if key = ''type'' then Value (JString t)
               else inherited key))"

text \<open>
  \<open>schema.fields[key] = { type: t }\<close>. The key \<open>__proto__\<close>, unless it is an own
  property, reaches the setter of \<open>Object.prototype\<close>, which replaces the prototype.
\<close>

definition set_field :: "fields_object \<Rightarrow> string \<Rightarrow> string \<Rightarrow> fields_object" where
  "set_field obj key t =
     (if key = ''__proto__'' \<and> map_of (own obj) key = None then obj\<lparr>proto_type := Some t\<rparr>
      else obj\<lparr>own := AList.update key (type_object t) (own obj)\<rparr>)"

text \<open>\<open>!existing\<close> is false for a member of \<open>Object.prototype\<close>: all of them are objects.\<close>

fun property_truthy :: "property \<Rightarrow> bool" where
  "property_truthy Undefined = False"
| "property_truthy (Value v) = truthy v"
| "property_truthy Builtin = True"

text \<open>
  \<open>existing.type\<close> for a truthy \<open>existing\<close>; \<open>None\<close> is \<open>undefined\<close>. Only an object with
  an own property \<open>type\<close> has one: no prototype of a string, number, boolean, array,
  function or plain object defines \<open>type\<close>.
\<close>

fun type_of_property :: "property \<Rightarrow> json option" where
  "type_of_property (Value (JObject entries)) = map_of entries ''type''"
| "type_of_property p = None"

text \<open>One round of the loop of \<open>DataSetService.mergeSchema\<close>, for the entry \<open>[path, type]\<close>.\<close>

definition mergeSchema_entry :: "DataSetSchema \<Rightarrow> string \<Rightarrow> string \<Rightarrow> DataSetSchema" where
  "mergeSchema_entry schema path type =
     (let existing = get_field (schema_fields schema) path in
      if \<not> property_truthy existing then
        schema\<lparr>schema_fields := set_field (schema_fields schema) path type\<rparr>
      else if type_of_property existing \<noteq> Some (JString type)
              \<and> type_of_property existing \<noteq> Some (JString ''mixed'') then
        schema\<lparr>schema_fields := set_field (schema_fields schema) path ''mixed''\<rparr>
      else schema)"

text \<open>\<open>DataSetService.mergeSchema\<close>; the schema is mutated in place, the model returns it.\<close>

definition mergeSchema :: "DataSetSchema \<Rightarrow> json \<Rightarrow> DataSetSchema" where
  "mergeSchema schema variables =
     fold (\<lambda>(path, type) s. mergeSchema_entry s path type) (collectFields variables []) schema"

section \<open>Schema inference: reading the stored schema\<close>

text \<open>
  The functions of the JavaScript runtime that the service calls and whose code is not
  part of the sources: \<open>JSON.parse\<close> (\<open>None\<close> where it throws), \<open>JSON.stringify\<close>,
  \<open>String\<close> applied to a number, and \<open>String.prototype.toLowerCase\<close>.
\<close>

record runtime =
  JSON_parse :: "string \<Rightarrow> json option"
  JSON_stringify :: "json \<Rightarrow> string"
  String_of_number :: "rat \<Rightarrow> string"
  toLowerCase :: "string \<Rightarrow> string"

text \<open>\<open>Object.entries\<close> of a value with \<open>typeof value === "object"\<close> that is not \<open>null\<close>.\<close>

fun object_entries :: "json \<Rightarrow> json jsrecord" where
  "object_entries (JObject entries) = entries"
| "object_entries (JArray xs) = array_entries xs"
| "object_entries v = []"

text \<open>\<open>getFieldType\<close>, the local function of \<open>parseSchema\<close>; \<open>None\<close> is \<open>null\<close>.\<close>

fun getFieldType :: "runtime \<Rightarrow> json \<Rightarrow> string option" where
  "getFieldType rt (JString s) = Some s"
| "getFieldType rt (JObject entries) =
     (case map_of entries ''type'' of
        None \<Rightarrow> None
      | Some (JString s) \<Rightarrow> Some s
      | Some (JNumber n) \<Rightarrow> Some (String_of_number rt n)
      | Some v \<Rightarrow> Some ''unknown'')"
| "getFieldType rt field = None"

text \<open>The loop of \<open>parseSchema\<close> over the entries of a schema in the flat format.\<close>

fun parseSchema_loop :: "runtime \<Rightarrow> json jsrecord \<Rightarrow> fields_object \<Rightarrow> fields_object" where
  "parseSchema_loop rt [] flds = flds"
| "parseSchema_loop rt ((key, field) # entries) flds =
     (case getFieldType rt field of
        None \<Rightarrow> parseSchema_loop rt entries flds
      | Some type \<Rightarrow>
          if type = [] then parseSchema_loop rt entries flds
          else parseSchema_loop rt entries (set_field flds key type))"

text \<open>\<open>(parsed as DataSetSchema).fields\<close>: arrays and plain objects inherit no such property.\<close>

fun property_fields :: "json \<Rightarrow> json option" where
  "property_fields (JObject entries) = map_of entries ''fields''"
| "property_fields v = None"

text \<open>The part of \<open>parseSchema\<close> that follows \<open>JSON.parse\<close>.\<close>

definition parseSchema_parsed :: "runtime \<Rightarrow> json \<Rightarrow> DataSetSchema" where
  "parseSchema_parsed rt parsed =
     (if \<not> truthy parsed \<or> typeof parsed \<noteq> ''object'' then \<lparr>schema_fields = empty_fields\<rparr>
      else
        case property_fields parsed of
          Some parsedFields \<Rightarrow>
            if truthy parsedFields \<and> typeof parsedFields = ''object'' then
              \<lparr>schema_fields = \<lparr>own = object_entries parsedFields, proto_type = None\<rparr>\<rparr>
            else \<lparr>schema_fields = parseSchema_loop rt (object_entries parsed) empty_fields\<rparr>
        | None \<Rightarrow> \<lparr>schema_fields = parseSchema_loop rt (object_entries parsed) empty_fields\<rparr>)"

text \<open>\<open>DataSetService.parseSchema\<close>: the \<open>catch\<close> turns a failing \<open>JSON.parse\<close> into no fields.\<close>

definition parseSchema :: "runtime \<Rightarrow> string \<Rightarrow> DataSetSchema" where
  "parseSchema rt v =
     (if v = [] then \<lparr>schema_fields = empty_fields\<rparr>
      else case JSON_parse rt v of
             None \<Rightarrow> \<lparr>schema_fields = empty_fields\<rparr>
           | Some parsed \<Rightarrow> parseSchema_parsed rt parsed)"

text \<open>The JSON value that \<open>JSON.stringify(schema)\<close> serialises: own properties only.\<close>

definition schema_json :: "DataSetSchema \<Rightarrow> json" where
  "schema_json schema = JObject [(''fields'', JObject (own (schema_fields schema)))]"

section \<open>Tenancy scope and identifiers\<close>

text \<open>
  \<open>ProjectId\<close> and \<open>EntityId\<close> carry the caller's tenancy scope; \<open>EntityId.toWhereClause\<close>
  is the conjunction \<open>tenantId = \<dots> AND projectId = \<dots> AND id = \<dots>\<close>, written out in each
  query below. Identifiers, versions and timestamps are integers.
\<close>

record ProjectId =
  pj_id :: int
  pj_tenantId :: int
  pj_userId :: string

record EntityId =
  e_id :: int
  e_projectId :: int
  e_tenantId :: int
  e_userId :: string

definition getProjectId :: "EntityId \<Rightarrow> ProjectId" where
  "getProjectId e = \<lparr>pj_id = e_projectId e, pj_tenantId = e_tenantId e, pj_userId = e_userId e\<rparr>"

record PromptVersionId =
  vi_version :: int
  vi_promptId :: int
  vi_projectId :: int
  vi_tenantId :: int
  vi_userId :: string

record TenantProjectContext =
  ctx_tenantId :: int
  ctx_projectId :: int

section \<open>The tables\<close>

text \<open>
  Modelled from the spec: the table declarations (\<open>worker/db/schema.ts\<close>) are not part of
  the sources. The columns are those of section 3 of the specification and those the
  sources read and write; a table is the list of its rows in insertion order; an
  insert gives the row a fresh primary key, one more than the largest in the table,
  and the current time for \<open>createdAt\<close> and \<open>updatedAt\<close>. The prompts table refuses a
  write that would leave two prompts of one tenant and project with the same name, or
  with the same slug: this is not in the specification; the repository's tests
  (\<open>create-prompt.test.ts\<close>) expect \<open>createPrompt\<close> to be rejected for a name, and for a
  slug, that a prompt of the same tenant and project holds, and to succeed for another
  tenant. No other uniqueness constraint is modelled.
\<close>

record Prompt =
  p_id :: int
  p_tenantId :: int
  p_projectId :: int
  p_name :: string
  p_slug :: string
  p_provider :: string
  p_model :: string
  p_body :: string
  p_latestVersion :: int
  p_isActive :: bool
  p_createdAt :: int
  p_updatedAt :: int

record NewPrompt =
  np_tenantId :: int
  np_projectId :: int
  np_name :: string
  np_slug :: string
  np_provider :: string
  np_model :: string
  np_body :: string
  np_latestVersion :: int
  np_isActive :: bool

record PromptVersion =
  pv_id :: int
  pv_promptId :: int
  pv_tenantId :: int
  pv_projectId :: int
  pv_version :: int
  pv_name :: string
  pv_provider :: string
  pv_model :: string
  pv_body :: string
  pv_slug :: string
  pv_createdAt :: int

record NewPromptVersion =
  npv_promptId :: int
  npv_tenantId :: int
  npv_projectId :: int
  npv_version :: int
  npv_name :: string
  npv_provider :: string
  npv_model :: string
  npv_body :: string
  npv_slug :: string

record PromptRouter =
  pr_id :: int
  pr_promptId :: int
  pr_tenantId :: int
  pr_projectId :: int
  pr_version :: int
  pr_updatedAt :: int

record NewPromptRouter =
  npr_promptId :: int
  npr_tenantId :: int
  npr_projectId :: int
  npr_version :: int

record DataSet =
  ds_id :: int
  ds_tenantId :: int
  ds_projectId :: int
  ds_name :: string
  ds_slug :: string
  ds_isDeleted :: bool
  ds_countOfRecords :: int
  ds_schema :: string
  ds_createdAt :: int
  ds_updatedAt :: int

record NewDataSet =
  nds_tenantId :: int
  nds_projectId :: int
  nds_name :: string
  nds_slug :: string
  nds_isDeleted :: bool
  nds_countOfRecords :: int
  nds_schema :: string

record DataSetRecord =
  r_id :: int
  r_tenantId :: int
  r_projectId :: int
  r_dataSetId :: int
  r_variables :: string
  r_isDeleted :: bool
  r_createdAt :: int
  r_updatedAt :: int

record NewDataSetRecord =
  nr_tenantId :: int
  nr_projectId :: int
  nr_dataSetId :: int
  nr_variables :: string
  nr_isDeleted :: bool

record database =
  prompts :: "Prompt list"
  promptVersions :: "PromptVersion list"
  promptRouters :: "PromptRouter list"
  dataSets :: "DataSet list"
  dataSetRecords :: "DataSetRecord list"

definition empty_database :: database where
  "empty_database =
     \<lparr>prompts = [], promptVersions = [], promptRouters = [], dataSets = [],
      dataSetRecords = []\<rparr>"

definition next_id :: "int list \<Rightarrow> int" where
  "next_id ids = fold max ids 0 + 1"

text \<open>
  \<open>.limit(n).offset(k)\<close> as SQLite reads them: a negative offset is no offset, a
  negative limit is no limit.
\<close>

definition limit_offset :: "int \<Rightarrow> int \<Rightarrow> 'a list \<Rightarrow> 'a list" where
  "limit_offset lmt ofs rows =
     (if lmt < 0 then drop (nat ofs) rows else take (nat lmt) (drop (nat ofs) rows))"

text \<open>
  The messages of the errors that the services throw, and the error of a write that
  the prompts table refuses.
\<close>

datatype error =
    PromptNotFound
  | VersionNotFound
  | SourcePromptNotFound
  | SlugAlreadyInUse
  | FailedToRetrieveUpdatedPrompt
  | DatasetNotFound
  | FailedToCreateRecord
  | UniqueConstraintFailed

text \<open>
  An operation takes the database last and returns its result, or the error it throws,
  with the database it leaves behind.
\<close>

type_synonym 'a outcome = "(error + 'a) \<times> database"

section \<open>PromptRepository\<close>

text \<open>
  A query with \<open>.limit(1)\<close> and no \<open>ORDER BY\<close> returns the first row of the table that
  satisfies the predicate. \<open>ORDER BY \<dots> DESC\<close> is a stable sort on the negated key.
\<close>

definition findPrompts :: "ProjectId \<Rightarrow> bool \<Rightarrow> database \<Rightarrow> Prompt list" where
  "findPrompts projectId activeOnly db =
     sort_key (\<lambda>p. - p_updatedAt p)
       (filter (\<lambda>p. p_tenantId p = pj_tenantId projectId \<and> p_projectId p = pj_id projectId
                     \<and> (activeOnly \<longrightarrow> p_isActive p = True))
          (prompts db))"

definition findPromptById :: "EntityId \<Rightarrow> database \<Rightarrow> Prompt option" where
  "findPromptById promptId db =
     find (\<lambda>p. p_tenantId p = e_tenantId promptId \<and> p_projectId p = e_projectId promptId
               \<and> p_id p = e_id promptId)
       (prompts db)"

definition findPromptBySlug :: "ProjectId \<Rightarrow> string \<Rightarrow> database \<Rightarrow> Prompt option" where
  "findPromptBySlug projectId slug db =
     find (\<lambda>p. p_slug p = slug \<and> p_tenantId p = pj_tenantId projectId
               \<and> p_projectId p = pj_id projectId)
       (prompts db)"

text \<open>
  Modelled from the spec: the uniqueness constraints of the prompts table, declared in
  \<open>worker/db/schema.ts\<close>, which is not part of the sources (see the section on the
  tables). A name, or a slug, is in use among some rows when one of them, of the given
  tenant and project, holds it.
\<close>

definition name_in_use :: "int \<Rightarrow> int \<Rightarrow> string \<Rightarrow> Prompt list \<Rightarrow> bool" where
  "name_in_use tenantId projectId name rows \<longleftrightarrow>
     list_ex (\<lambda>p. p_tenantId p = tenantId \<and> p_projectId p = projectId \<and> p_name p = name) rows"

definition slug_in_use :: "int \<Rightarrow> int \<Rightarrow> string \<Rightarrow> Prompt list \<Rightarrow> bool" where
  "slug_in_use tenantId projectId slug rows \<longleftrightarrow>
     list_ex (\<lambda>p. p_tenantId p = tenantId \<and> p_projectId p = projectId \<and> p_slug p = slug) rows"

text \<open>The insert throws, and inserts nothing, when the table refuses the row.\<close>

definition repository_createPrompt :: "int \<Rightarrow> NewPrompt \<Rightarrow> database \<Rightarrow> Prompt outcome" where
  "repository_createPrompt now data db =
     (if name_in_use (np_tenantId data) (np_projectId data) (np_name data) (prompts db)
         \<or> slug_in_use (np_tenantId data) (np_projectId data) (np_slug data) (prompts db)
      then (Inl UniqueConstraintFailed, db)
      else
        (let prompt =
           \<lparr>p_id = next_id (map p_id (prompts db)),
            p_tenantId = np_tenantId data, p_projectId = np_projectId data,
            p_name = np_name data, p_slug = np_slug data, p_provider = np_provider data,
            p_model = np_model data, p_body = np_body data,
            p_latestVersion = np_latestVersion data, p_isActive = np_isActive data,
            p_createdAt = now, p_updatedAt = now\<rparr>
         in (Inr prompt, db\<lparr>prompts := prompts db @ [prompt]\<rparr>)))"

text \<open>The fields that \<open>PromptService.updatePrompt\<close> passes to the repository.\<close>

record PromptData =
  d_name :: string
  d_provider :: string
  d_model :: string
  d_body :: string
  d_latestVersion :: int

text \<open>
  The update sets the name of the rows it matches: it throws, and changes nothing, when
  it matches a row and a row it does not match holds that name in the tenant and
  project.
\<close>

definition repository_updatePrompt :: "int \<Rightarrow> EntityId \<Rightarrow> PromptData \<Rightarrow> database \<Rightarrow> unit outcome" where
  "repository_updatePrompt now promptId data db =
     (let matched = (\<lambda>p. p_tenantId p = e_tenantId promptId
                          \<and> p_projectId p = e_projectId promptId \<and> p_id p = e_id promptId);
          others = filter (\<lambda>p. \<not> matched p) (prompts db)
      in if list_ex matched (prompts db)
            \<and> name_in_use (e_tenantId promptId) (e_projectId promptId) (d_name data) others
         then (Inl UniqueConstraintFailed, db)
         else
           (Inr (),
            db\<lparr>prompts :=
                 map (\<lambda>p. if matched p
                           then p\<lparr>p_name := d_name data, p_provider := d_provider data,
                                  p_model := d_model data, p_body := d_body data,
                                  p_latestVersion := d_latestVersion data, p_updatedAt := now\<rparr>
                           else p)
                   (prompts db)\<rparr>))"

text \<open>\<open>deactivatePrompt\<close> sets neither the name nor the slug: the table refuses nothing.\<close>

definition repository_deactivatePrompt :: "int \<Rightarrow> EntityId \<Rightarrow> database \<Rightarrow> database" where
  "repository_deactivatePrompt now promptId db =
     db\<lparr>prompts :=
          map (\<lambda>p. if p_tenantId p = e_tenantId promptId \<and> p_projectId p = e_projectId promptId
                       \<and> p_id p = e_id promptId
                    then p\<lparr>p_isActive := False, p_updatedAt := now\<rparr>
                    else p)
            (prompts db)\<rparr>"

text \<open>\<open>renamePrompt\<close> sets the name and the slug.\<close>

definition repository_renamePrompt ::
  "int \<Rightarrow> EntityId \<Rightarrow> string \<Rightarrow> string \<Rightarrow> database \<Rightarrow> unit outcome" where
  "repository_renamePrompt now promptId name slug db =
     (let matched = (\<lambda>p. p_tenantId p = e_tenantId promptId
                          \<and> p_projectId p = e_projectId promptId \<and> p_id p = e_id promptId);
          others = filter (\<lambda>p. \<not> matched p) (prompts db)
      in if list_ex matched (prompts db)
            \<and> (name_in_use (e_tenantId promptId) (e_projectId promptId) name others
                 \<or> slug_in_use (e_tenantId promptId) (e_projectId promptId) slug others)
         then (Inl UniqueConstraintFailed, db)
         else
           (Inr (),
            db\<lparr>prompts :=
                 map (\<lambda>p. if matched p
                           then p\<lparr>p_name := name, p_slug := slug, p_updatedAt := now\<rparr>
                           else p)
                   (prompts db)\<rparr>))"

definition findPromptVersions :: "EntityId \<Rightarrow> database \<Rightarrow> PromptVersion list" where
  "findPromptVersions promptId db =
     sort_key (\<lambda>v. - pv_version v)
       (filter (\<lambda>v. pv_promptId v = e_id promptId \<and> pv_tenantId v = e_tenantId promptId
                     \<and> pv_projectId v = e_projectId promptId)
          (promptVersions db))"

text \<open>\<open>findPromptVersion(promptId, version)\<close>\<close>

definition findPromptVersion :: "EntityId \<Rightarrow> int \<Rightarrow> database \<Rightarrow> PromptVersion option" where
  "findPromptVersion promptId version db =
     find (\<lambda>v. pv_promptId v = e_id promptId \<and> pv_tenantId v = e_tenantId promptId
               \<and> pv_projectId v = e_projectId promptId \<and> pv_version v = version)
       (promptVersions db)"

text \<open>\<open>findPromptVersion(versionId)\<close>, through \<open>PromptVersionId.toWhereClause\<close>\<close>

definition findPromptVersion_versionId :: "PromptVersionId \<Rightarrow> database \<Rightarrow> PromptVersion option" where
  "findPromptVersion_versionId versionId db =
     find (\<lambda>v. pv_tenantId v = vi_tenantId versionId \<and> pv_projectId v = vi_projectId versionId
               \<and> pv_promptId v = vi_promptId versionId \<and> pv_version v = vi_version versionId)
       (promptVersions db)"

definition findPromptVersionById :: "ProjectId \<Rightarrow> int \<Rightarrow> database \<Rightarrow> PromptVersion option" where
  "findPromptVersionById projectId versionId db =
     find (\<lambda>v. pv_id v = versionId \<and> pv_tenantId v = pj_tenantId projectId
               \<and> pv_projectId v = pj_id projectId)
       (promptVersions db)"

definition createPromptVersion ::
  "int \<Rightarrow> NewPromptVersion \<Rightarrow> database \<Rightarrow> PromptVersion \<times> database" where
  "createPromptVersion now data db =
     (let version =
        \<lparr>pv_id = next_id (map pv_id (promptVersions db)),
         pv_promptId = npv_promptId data, pv_tenantId = npv_tenantId data,
         pv_projectId = npv_projectId data, pv_version = npv_version data,
         pv_name = npv_name data, pv_provider = npv_provider data,
         pv_model = npv_model data, pv_body = npv_body data, pv_slug = npv_slug data,
         pv_createdAt = now\<rparr>
      in (version, db\<lparr>promptVersions := promptVersions db @ [version]\<rparr>))"

definition findPromptRouter :: "EntityId \<Rightarrow> database \<Rightarrow> PromptRouter option" where
  "findPromptRouter promptId db =
     find (\<lambda>r. pr_promptId r = e_id promptId \<and> pr_tenantId r = e_tenantId promptId
               \<and> pr_projectId r = e_projectId promptId)
       (promptRouters db)"

definition createPromptRouter ::
  "int \<Rightarrow> NewPromptRouter \<Rightarrow> database \<Rightarrow> PromptRouter \<times> database" where
  "createPromptRouter now data db =
     (let router =
        \<lparr>pr_id = next_id (map pr_id (promptRouters db)),
         pr_promptId = npr_promptId data, pr_tenantId = npr_tenantId data,
         pr_projectId = npr_projectId data, pr_version = npr_version data,
         pr_updatedAt = now\<rparr>
      in (router, db\<lparr>promptRouters := promptRouters db @ [router]\<rparr>))"

definition updatePromptRouterVersion ::
  "int \<Rightarrow> EntityId \<Rightarrow> int \<Rightarrow> int \<Rightarrow> database \<Rightarrow> database" where
  "updatePromptRouterVersion now promptId routerId version db =
     db\<lparr>promptRouters :=
          map (\<lambda>r. if pr_id r = routerId \<and> pr_tenantId r = e_tenantId promptId
                       \<and> pr_projectId r = e_projectId promptId
                    then r\<lparr>pr_version := version, pr_updatedAt := now\<rparr>
                    else r)
            (promptRouters db)\<rparr>"

section \<open>PromptService\<close>

record CreatePromptInput =
  ci_name :: string
  ci_slug :: string
  ci_provider :: string
  ci_model :: string
  ci_body :: string

text \<open>An omitted (\<open>undefined\<close>) field of the partial input is \<open>None\<close>.\<close>

record UpdatePromptInput =
  ui_name :: "string option"
  ui_provider :: "string option"
  ui_model :: "string option"
  ui_body :: "string option"

text \<open>\<open>a ?? b\<close>\<close>

definition nullish :: "'a option \<Rightarrow> 'a \<Rightarrow> 'a" where
  "nullish a b = (case a of None \<Rightarrow> b | Some v \<Rightarrow> v)"

definition createPrompt :: "int \<Rightarrow> ProjectId \<Rightarrow> CreatePromptInput \<Rightarrow> database \<Rightarrow> Prompt outcome" where
  "createPrompt now projectId inp db =
     (let version = 1
      in case repository_createPrompt now
                \<lparr>np_tenantId = pj_tenantId projectId, np_projectId = pj_id projectId,
                 np_name = ci_name inp, np_slug = ci_slug inp, np_provider = ci_provider inp,
                 np_model = ci_model inp, np_body = ci_body inp,
                 np_latestVersion = version, np_isActive = True\<rparr> db of
           (Inl refused, db1) \<Rightarrow> (Inl refused, db1)
         | (Inr prompt, db1) \<Rightarrow>
             (let (v, db2) =
                    createPromptVersion now
                      \<lparr>npv_promptId = p_id prompt, npv_tenantId = pj_tenantId projectId,
                       npv_projectId = pj_id projectId, npv_version = version,
                       npv_name = ci_name inp, npv_provider = ci_provider inp,
                       npv_model = ci_model inp, npv_body = ci_body inp,
                       npv_slug = ci_slug inp\<rparr> db1;
                  (r, db3) =
                    createPromptRouter now
                      \<lparr>npr_promptId = p_id prompt, npr_tenantId = pj_tenantId projectId,
                       npr_projectId = pj_id projectId, npr_version = version\<rparr> db2
              in (Inr prompt, db3)))"

text \<open>The result \<open>{ count: 1 }\<close> is its count.\<close>

definition updatePrompt :: "int \<Rightarrow> EntityId \<Rightarrow> UpdatePromptInput \<Rightarrow> database \<Rightarrow> int outcome" where
  "updatePrompt now promptId inp db =
     (case findPromptById promptId db of
        None \<Rightarrow> (Inl PromptNotFound, db)
      | Some currentPrompt \<Rightarrow>
          (let newVersion = p_latestVersion currentPrompt + 1
           in case repository_updatePrompt now promptId
                     \<lparr>d_name = nullish (ui_name inp) (p_name currentPrompt),
                      d_provider = nullish (ui_provider inp) (p_provider currentPrompt),
                      d_model = nullish (ui_model inp) (p_model currentPrompt),
                      d_body = nullish (ui_body inp) (p_body currentPrompt),
                      d_latestVersion = newVersion\<rparr> db of
                (Inl refused, db1) \<Rightarrow> (Inl refused, db1)
              | (Inr updated, db1) \<Rightarrow>
                  (let (v, db2) =
                         createPromptVersion now
                           \<lparr>npv_promptId = e_id promptId, npv_tenantId = e_tenantId promptId,
                            npv_projectId = e_projectId promptId, npv_version = newVersion,
                            npv_name = nullish (ui_name inp) (p_name currentPrompt),
                            npv_provider = nullish (ui_provider inp) (p_provider currentPrompt),
                            npv_model = nullish (ui_model inp) (p_model currentPrompt),
                            npv_body = nullish (ui_body inp) (p_body currentPrompt),
                            npv_slug = p_slug currentPrompt\<rparr> db1
                   in case findPromptRouter promptId db2 of
                        Some existingRouter \<Rightarrow>
                          (Inr 1, updatePromptRouterVersion now promptId (pr_id existingRouter)
                                    newVersion db2)
                      | None \<Rightarrow>
                          (Inr 1, snd (createPromptRouter now
                                         \<lparr>npr_promptId = e_id promptId,
                                          npr_tenantId = e_tenantId promptId,
                                          npr_projectId = e_projectId promptId,
                                          npr_version = newVersion\<rparr> db2)))))"

text \<open>The result is the prompt with its \<open>currentVersion\<close>, or \<open>null\<close>.\<close>

definition getPromptById :: "EntityId \<Rightarrow> database \<Rightarrow> (Prompt \<times> PromptVersion option) option" where
  "getPromptById promptId db =
     (case findPromptById promptId db of
        None \<Rightarrow> None
      | Some prompt \<Rightarrow> Some (prompt, findPromptVersion promptId (p_latestVersion prompt) db))"

definition getPromptVersion :: "PromptVersionId \<Rightarrow> database \<Rightarrow> PromptVersion option" where
  "getPromptVersion versionId db = findPromptVersion_versionId versionId db"

definition getPromptVersionById :: "ProjectId \<Rightarrow> int \<Rightarrow> database \<Rightarrow> PromptVersion option" where
  "getPromptVersionById projectId versionId db = findPromptVersionById projectId versionId db"

definition listPromptVersions :: "EntityId \<Rightarrow> database \<Rightarrow> PromptVersion list" where
  "listPromptVersions promptId db = findPromptVersions promptId db"

definition listPrompts :: "ProjectId \<Rightarrow> database \<Rightarrow> Prompt list" where
  "listPrompts projectId db = findPrompts projectId True db"

definition deactivatePrompt :: "int \<Rightarrow> EntityId \<Rightarrow> database \<Rightarrow> database" where
  "deactivatePrompt now promptId db = repository_deactivatePrompt now promptId db"

definition getPromptBySlug :: "ProjectId \<Rightarrow> string \<Rightarrow> database \<Rightarrow> Prompt option" where
  "getPromptBySlug projectId slug db = findPromptBySlug projectId slug db"

text \<open>\<open>null\<close> and \<open>undefined\<close> are both \<open>None\<close>; the function has no \<open>throw\<close>.\<close>

definition getActivePromptVersion :: "EntityId \<Rightarrow> database \<Rightarrow> PromptVersion option" where
  "getActivePromptVersion promptId db =
     (case findPromptRouter promptId db of
        None \<Rightarrow> None
      | Some router \<Rightarrow> findPromptVersion promptId (pr_version router) db)"

definition getActiveRouterVersion :: "EntityId \<Rightarrow> database \<Rightarrow> int option" where
  "getActiveRouterVersion promptId db =
     (case findPromptRouter promptId db of
        None \<Rightarrow> None
      | Some router \<Rightarrow> Some (pr_version router))"

definition setRouterVersion :: "int \<Rightarrow> EntityId \<Rightarrow> int \<Rightarrow> database \<Rightarrow> unit outcome" where
  "setRouterVersion now promptId version db =
     (case findPromptVersion promptId version db of
        None \<Rightarrow> (Inl VersionNotFound, db)
      | Some versionExists \<Rightarrow>
          (case findPromptRouter promptId db of
             Some existingRouter \<Rightarrow>
               (Inr (), updatePromptRouterVersion now promptId (pr_id existingRouter) version db)
           | None \<Rightarrow>
               (Inr (), snd (createPromptRouter now
                               \<lparr>npr_promptId = e_id promptId,
                                npr_tenantId = e_tenantId promptId,
                                npr_projectId = e_projectId promptId,
                                npr_version = version\<rparr> db))))"

text \<open>
  The \<open>while (true)\<close> loop of \<open>copyPrompt\<close>, on its variables \<open>newName\<close>, \<open>newSlug\<close> and
  \<open>copyNumber\<close>; the result is their value at the \<open>break\<close>.
\<close>

function copyPrompt_loop ::
  "ProjectId \<Rightarrow> Prompt \<Rightarrow> database \<Rightarrow> string \<times> string \<times> nat \<Rightarrow> string \<times> string \<times> nat" where
  "copyPrompt_loop projectId sourcePrompt db (newName, newSlug, copyNumber) =
     (case findPromptBySlug projectId newSlug db of
        None \<Rightarrow> (newName, newSlug, copyNumber)
      | Some existingPrompt \<Rightarrow>
          copyPrompt_loop projectId sourcePrompt db
            (p_name sourcePrompt @ '' Copy '' @ string_of_nat (copyNumber + 1),
             p_slug sourcePrompt @ ''-copy-'' @ string_of_nat (copyNumber + 1),
             copyNumber + 1))"
  by pat_completeness auto

definition copyPrompt :: "int \<Rightarrow> EntityId \<Rightarrow> database \<Rightarrow> Prompt outcome" where
  "copyPrompt now promptId db =
     (case findPromptById promptId db of
        None \<Rightarrow> (Inl SourcePromptNotFound, db)
      | Some sourcePrompt \<Rightarrow>
          (let projectId = getProjectId promptId;
               (newName, newSlug, copyNumber) =
                 copyPrompt_loop projectId sourcePrompt db
                   (p_name sourcePrompt @ '' Copy'', p_slug sourcePrompt @ ''-copy'', 1)
           in case repository_createPrompt now
                     \<lparr>np_tenantId = e_tenantId promptId, np_projectId = e_projectId promptId,
                      np_name = newName, np_slug = newSlug,
                      np_provider = p_provider sourcePrompt, np_model = p_model sourcePrompt,
                      np_body = p_body sourcePrompt, np_latestVersion = 1,
                      np_isActive = True\<rparr> db of
                (Inl refused, db1) \<Rightarrow> (Inl refused, db1)
              | (Inr newPrompt, db1) \<Rightarrow>
                  (let (v, db2) =
                         createPromptVersion now
                           \<lparr>npv_promptId = p_id newPrompt, npv_tenantId = e_tenantId promptId,
                            npv_projectId = e_projectId promptId, npv_version = 1,
                            npv_name = newName, npv_provider = p_provider sourcePrompt,
                            npv_model = p_model sourcePrompt, npv_body = p_body sourcePrompt,
                            npv_slug = newSlug\<rparr> db1;
                       (r, db3) =
                         createPromptRouter now
                           \<lparr>npr_promptId = p_id newPrompt, npr_tenantId = e_tenantId promptId,
                            npr_projectId = e_projectId promptId, npr_version = 1\<rparr> db2
                   in (Inr newPrompt, db3))))"

text \<open>
  \<open>name.toLowerCase().split(/[^a-z0-9]/).filter(Boolean).join("-")\<close>: the pieces between
  the characters that are not lower-case letters or digits, the empty ones dropped.
\<close>

definition slug_char :: "char \<Rightarrow> bool" where
  "slug_char c \<longleftrightarrow> c \<in> set ''abcdefghijklmnopqrstuvwxyz0123456789''"

fun split_slug :: "string \<Rightarrow> string list" where
  "split_slug [] = [[]]"
| "split_slug (c # cs) =
     (if slug_char c then
        (case split_slug cs of [] \<Rightarrow> [[c]] | w # ws \<Rightarrow> (c # w) # ws)
      else [] # split_slug cs)"

fun join :: "string \<Rightarrow> string list \<Rightarrow> string" where
  "join sep [] = []"
| "join sep [w] = w"
| "join sep (w # ws) = w @ sep @ join sep ws"

definition generateSlug :: "runtime \<Rightarrow> string \<Rightarrow> string" where
  "generateSlug rt name = join ''-'' (filter (\<lambda>w. w \<noteq> []) (split_slug (toLowerCase rt name)))"

definition renamePrompt :: "runtime \<Rightarrow> int \<Rightarrow> EntityId \<Rightarrow> string \<Rightarrow> database \<Rightarrow> Prompt outcome" where
  "renamePrompt rt now promptId name db =
     (case findPromptById promptId db of
        None \<Rightarrow> (Inl PromptNotFound, db)
      | Some existingPrompt \<Rightarrow>
          (let generatedSlug = generateSlug rt name;
               projectId = getProjectId promptId;
               slugConflict = findPromptBySlug projectId generatedSlug db
           in if (case slugConflict of None \<Rightarrow> False | Some c \<Rightarrow> p_id c \<noteq> e_id promptId)
              then (Inl SlugAlreadyInUse, db)
              else
                (case repository_renamePrompt now promptId name generatedSlug db of
                   (Inl refused, db1) \<Rightarrow> (Inl refused, db1)
                 | (Inr renamed, db1) \<Rightarrow>
                     (case findPromptById promptId db1 of
                        None \<Rightarrow> (Inl FailedToRetrieveUpdatedPrompt, db1)
                      | Some updatedPrompt \<Rightarrow> (Inr updatedPrompt, db1)))))"

section \<open>DataSetRepository and DataSetRecordRepository\<close>

definition dataSets_findById :: "EntityId \<Rightarrow> database \<Rightarrow> DataSet option" where
  "dataSets_findById entityId db =
     find (\<lambda>d. ds_tenantId d = e_tenantId entityId \<and> ds_projectId d = e_projectId entityId
               \<and> ds_id d = e_id entityId \<and> ds_isDeleted d = False)
       (dataSets db)"

definition dataSets_findBySlug :: "TenantProjectContext \<Rightarrow> string \<Rightarrow> database \<Rightarrow> DataSet option" where
  "dataSets_findBySlug ctx slug db =
     find (\<lambda>d. ds_tenantId d = ctx_tenantId ctx \<and> ds_projectId d = ctx_projectId ctx
               \<and> ds_slug d = slug \<and> ds_isDeleted d = False)
       (dataSets db)"

definition dataSets_create :: "int \<Rightarrow> NewDataSet \<Rightarrow> database \<Rightarrow> DataSet \<times> database" where
  "dataSets_create now newDataSet db =
     (let dataset =
        \<lparr>ds_id = next_id (map ds_id (dataSets db)),
         ds_tenantId = nds_tenantId newDataSet, ds_projectId = nds_projectId newDataSet,
         ds_name = nds_name newDataSet, ds_slug = nds_slug newDataSet,
         ds_isDeleted = nds_isDeleted newDataSet,
         ds_countOfRecords = nds_countOfRecords newDataSet,
         ds_schema = nds_schema newDataSet, ds_createdAt = now, ds_updatedAt = now\<rparr>
      in (dataset, db\<lparr>dataSets := dataSets db @ [dataset]\<rparr>))"

definition incrementRecordCount :: "int \<Rightarrow> EntityId \<Rightarrow> database \<Rightarrow> database" where
  "incrementRecordCount now entityId db =
     db\<lparr>dataSets :=
          map (\<lambda>d. if ds_tenantId d = e_tenantId entityId \<and> ds_projectId d = e_projectId entityId
                       \<and> ds_id d = e_id entityId
                    then d\<lparr>ds_countOfRecords := ds_countOfRecords d + 1, ds_updatedAt := now\<rparr>
                    else d)
            (dataSets db)\<rparr>"

definition incrementRecordCountBy :: "int \<Rightarrow> EntityId \<Rightarrow> int \<Rightarrow> database \<Rightarrow> database" where
  "incrementRecordCountBy now entityId amount db =
     (if amount = 0 then db
      else
        db\<lparr>dataSets :=
             map (\<lambda>d. if ds_tenantId d = e_tenantId entityId
                          \<and> ds_projectId d = e_projectId entityId \<and> ds_id d = e_id entityId
                       then d\<lparr>ds_countOfRecords := ds_countOfRecords d + amount,
                              ds_updatedAt := now\<rparr>
                       else d)
               (dataSets db)\<rparr>)"

definition decrementRecordCount :: "int \<Rightarrow> EntityId \<Rightarrow> database \<Rightarrow> database" where
  "decrementRecordCount now entityId db =
     db\<lparr>dataSets :=
          map (\<lambda>d. if ds_tenantId d = e_tenantId entityId \<and> ds_projectId d = e_projectId entityId
                       \<and> ds_id d = e_id entityId
                    then d\<lparr>ds_countOfRecords := ds_countOfRecords d - 1, ds_updatedAt := now\<rparr>
                    else d)
            (dataSets db)\<rparr>"

definition softDelete :: "int \<Rightarrow> EntityId \<Rightarrow> database \<Rightarrow> database" where
  "softDelete now entityId db =
     db\<lparr>dataSets :=
          map (\<lambda>d. if ds_tenantId d = e_tenantId entityId \<and> ds_projectId d = e_projectId entityId
                       \<and> ds_id d = e_id entityId
                    then d\<lparr>ds_isDeleted := True, ds_updatedAt := now\<rparr>
                    else d)
            (dataSets db)\<rparr>"

definition updateSchema :: "int \<Rightarrow> EntityId \<Rightarrow> string \<Rightarrow> database \<Rightarrow> database" where
  "updateSchema now entityId schema db =
     db\<lparr>dataSets :=
          map (\<lambda>d. if ds_tenantId d = e_tenantId entityId \<and> ds_projectId d = e_projectId entityId
                       \<and> ds_id d = e_id entityId
                    then d\<lparr>ds_schema := schema, ds_updatedAt := now\<rparr>
                    else d)
            (dataSets db)\<rparr>"

text \<open>\<open>createMany\<close>: the rows get consecutive primary keys, in the order given.\<close>

definition createMany ::
  "int \<Rightarrow> NewDataSetRecord list \<Rightarrow> database \<Rightarrow> DataSetRecord list \<times> database" where
  "createMany now records db =
     (if records = [] then ([], db)
      else
        (let first = next_id (map r_id (dataSetRecords db));
             rows = map (\<lambda>(i, nr).
                      \<lparr>r_id = first + int i,
                       r_tenantId = nr_tenantId nr, r_projectId = nr_projectId nr,
                       r_dataSetId = nr_dataSetId nr, r_variables = nr_variables nr,
                       r_isDeleted = nr_isDeleted nr, r_createdAt = now, r_updatedAt = now\<rparr>)
                    (enumerate 0 records)
         in (rows, db\<lparr>dataSetRecords := dataSetRecords db @ rows\<rparr>)))"

definition records_findById :: "EntityId \<Rightarrow> database \<Rightarrow> DataSetRecord option" where
  "records_findById recordId db =
     find (\<lambda>r. r_tenantId r = e_tenantId recordId \<and> r_projectId r = e_projectId recordId
               \<and> r_id r = e_id recordId \<and> r_isDeleted r = False)
       (dataSetRecords db)"

text \<open>The predicate shared by the queries over the records of one dataset.\<close>

definition live_record_of :: "EntityId \<Rightarrow> DataSetRecord \<Rightarrow> bool" where
  "live_record_of dataSetId r \<longleftrightarrow>
     r_tenantId r = e_tenantId dataSetId \<and> r_projectId r = e_projectId dataSetId
     \<and> r_dataSetId r = e_id dataSetId \<and> r_isDeleted r = False"

definition listByDataSet :: "EntityId \<Rightarrow> database \<Rightarrow> DataSetRecord list" where
  "listByDataSet dataSetId db =
     sort_key (\<lambda>r. - r_createdAt r) (filter (live_record_of dataSetId) (dataSetRecords db))"

record Pagination =
  page :: int
  pageSize :: int

text \<open>
  \<open>listByDataSetPaginated\<close>: two queries over the record rows, the window and all the
  ids of the live records; \<open>total\<close> is the number of the latter.
\<close>

definition listByDataSetPaginated ::
  "EntityId \<Rightarrow> Pagination \<Rightarrow> database \<Rightarrow> DataSetRecord list \<times> int" where
  "listByDataSetPaginated dataSetId pagination db =
     (let ofs = (page pagination - 1) * pageSize pagination;
          recordsResult =
            limit_offset (pageSize pagination) ofs
              (sort_key (\<lambda>r. - r_createdAt r)
                 (filter (live_record_of dataSetId) (dataSetRecords db)));
          countResult = map r_id (filter (live_record_of dataSetId) (dataSetRecords db))
      in (recordsResult, int (length countResult)))"

text \<open>\<open>afterId\<close> is \<open>None\<close> when the argument is omitted.\<close>

definition listBatchByDataSet ::
  "EntityId \<Rightarrow> int \<Rightarrow> int option \<Rightarrow> database \<Rightarrow> DataSetRecord list" where
  "listBatchByDataSet dataSetId lmt afterId db =
     limit_offset lmt 0
       (sort_key r_id
          (filter (\<lambda>r. live_record_of dataSetId r
                        \<and> (case afterId of None \<Rightarrow> True | Some a \<Rightarrow> r_id r > a))
             (dataSetRecords db)))"

text \<open>\<open>softDeleteMany\<close>: the number of rows the update returns, and the table after it.\<close>

definition softDeleteMany :: "EntityId \<Rightarrow> int list \<Rightarrow> database \<Rightarrow> int \<times> database" where
  "softDeleteMany dataSetId recordIds db =
     (if recordIds = [] then (0, db)
      else
        (let hit = (\<lambda>r. r_tenantId r = e_tenantId dataSetId
                          \<and> r_projectId r = e_projectId dataSetId
                          \<and> r_dataSetId r = e_id dataSetId \<and> r_id r \<in> set recordIds
                          \<and> r_isDeleted r = False)
         in (int (length (filter hit (dataSetRecords db))),
             db\<lparr>dataSetRecords :=
                  map (\<lambda>r. if hit r then r\<lparr>r_isDeleted := True\<rparr> else r) (dataSetRecords db)\<rparr>)))"

section \<open>DataSetService\<close>

record CreateDataSetInput =
  cdi_name :: string
  cdi_schema :: "string option"

definition getDataSetById :: "EntityId \<Rightarrow> database \<Rightarrow> DataSet option" where
  "getDataSetById dataSetId db = dataSets_findById dataSetId db"

text \<open>The \<open>while\<close> loop of \<open>createDataSet\<close>, on its variables \<open>slug\<close> and \<open>attempt\<close>.\<close>

function createDataSet_loop ::
  "TenantProjectContext \<Rightarrow> string \<Rightarrow> database \<Rightarrow> string \<times> nat \<Rightarrow> string \<times> nat" where
  "createDataSet_loop ctx baseSlug db (slug, attempt) =
     (case dataSets_findBySlug ctx slug db of
        None \<Rightarrow> (slug, attempt)
      | Some found \<Rightarrow>
          createDataSet_loop ctx baseSlug db
            (baseSlug @ ''-'' @ string_of_nat (attempt + 1), attempt + 1))"
  by pat_completeness auto

definition createDataSet ::
  "runtime \<Rightarrow> int \<Rightarrow> TenantProjectContext \<Rightarrow> CreateDataSetInput \<Rightarrow> database \<Rightarrow> DataSet \<times> database" where
  "createDataSet rt now ctx inp db =
     (let baseSlug = generateSlug rt (cdi_name inp);
          (slug, attempt) = createDataSet_loop ctx baseSlug db (baseSlug, 1)
      in dataSets_create now
           \<lparr>nds_tenantId = ctx_tenantId ctx, nds_projectId = ctx_projectId ctx,
            nds_name = cdi_name inp, nds_slug = slug, nds_isDeleted = False,
            nds_countOfRecords = 0, nds_schema = nullish (cdi_schema inp) ''{}''\<rparr> db)"

definition deleteDataSet :: "int \<Rightarrow> EntityId \<Rightarrow> database \<Rightarrow> database" where
  "deleteDataSet now entityId db = softDelete now entityId db"

definition listDataSetRecords :: "EntityId \<Rightarrow> database \<Rightarrow> DataSetRecord list" where
  "listDataSetRecords entityId db = listByDataSet entityId db"

text \<open>
  A JavaScript number that is an integer, \<open>Infinity\<close> or \<open>NaN\<close>: what
  \<open>Math.ceil(total / pageSize)\<close> can be for integers \<open>total \<ge> 0\<close> and \<open>pageSize\<close>. The
  quotient of two integers below \<open>2^53\<close> is rounded by less than its distance to the
  next integer, so its ceiling is the exact one.
\<close>

datatype number = Finite int | Infinity | NaN

definition ceil_div :: "int \<Rightarrow> int \<Rightarrow> number" where
  "ceil_div a b =
     (if b = 0 then (if a = 0 then NaN else Infinity)
      else Finite \<lceil>rat_of_int a / rat_of_int b\<rceil>)"

record PaginatedResult =
  res_records :: "DataSetRecord list"
  res_total :: int
  res_page :: int
  res_pageSize :: int
  res_totalPages :: number

definition listDataSetRecordsPaginated ::
  "EntityId \<Rightarrow> Pagination \<Rightarrow> database \<Rightarrow> PaginatedResult" where
  "listDataSetRecordsPaginated entityId pagination db =
     (let (records, total') = listByDataSetPaginated entityId pagination db;
          totalPages = ceil_div total' (pageSize pagination)
      in \<lparr>res_records = records, res_total = total', res_page = page pagination,
          res_pageSize = pageSize pagination, res_totalPages = totalPages\<rparr>)"

definition createDataSetRecord ::
  "runtime \<Rightarrow> int \<Rightarrow> EntityId \<Rightarrow> json \<Rightarrow> database \<Rightarrow> DataSetRecord outcome" where
  "createDataSetRecord rt now entityId variables db =
     (case dataSets_findById entityId db of
        None \<Rightarrow> (Inl DatasetNotFound, db)
      | Some dataset \<Rightarrow>
          (let schema = mergeSchema (parseSchema rt (ds_schema dataset)) variables;
               (rows, db1) =
                 createMany now
                   [\<lparr>nr_tenantId = e_tenantId entityId, nr_projectId = e_projectId entityId,
                     nr_dataSetId = e_id entityId,
                     nr_variables = JSON_stringify rt variables, nr_isDeleted = False\<rparr>] db
           in case rows of
                [] \<Rightarrow> (Inl FailedToCreateRecord, db1)
              | record # rest \<Rightarrow>
                  (let db2 = incrementRecordCountBy now entityId 1 db1;
                       db3 = updateSchema now entityId (JSON_stringify rt (schema_json schema)) db2
                   in (Inr record, db3))))"

text \<open>The result \<open>{ deleted }\<close> is its number.\<close>

definition deleteDataSetRecords :: "int \<Rightarrow> EntityId \<Rightarrow> int list \<Rightarrow> database \<Rightarrow> int \<times> database" where
  "deleteDataSetRecords now entityId recordIds db =
     (let (deleted, db1) = softDeleteMany entityId recordIds db
      in if deleted > 0 then (deleted, incrementRecordCountBy now entityId (- deleted) db1)
         else (deleted, db1))"

section \<open>Auxiliary notions for the properties\<close>

text \<open>
  The copy numbers above \<open>n\<close> whose numbered slug is taken, and the measure that
  decreases along the loop of \<open>copyPrompt\<close>: so many probes are left at most.
\<close>

definition copies_in_use :: "ProjectId \<Rightarrow> Prompt \<Rightarrow> database \<Rightarrow> nat \<Rightarrow> nat set" where
  "copies_in_use projectId sourcePrompt db n =
     {k. n < k \<and> findPromptBySlug projectId
                    (p_slug sourcePrompt @ ''-copy-'' @ string_of_nat k) db \<noteq> None}"

definition copyPrompt_measure ::
  "ProjectId \<times> Prompt \<times> database \<times> string \<times> string \<times> nat \<Rightarrow> nat" where
  "copyPrompt_measure =
     (\<lambda>(projectId, sourcePrompt, db, newName, newSlug, copyNumber).
        if findPromptBySlug projectId newSlug db = None then 0
        else 1 + card (copies_in_use projectId sourcePrompt db copyNumber))"

text \<open>
  The name and slug of the \<open>n\<close>-th candidate, as the specification words them:
  \<open>" Copy"\<close> and \<open>"-copy"\<close> first, then \<open>" Copy N"\<close> and \<open>"-copy-N"\<close> from \<open>N = 2\<close> on.
\<close>

definition copy_name :: "Prompt \<Rightarrow> nat \<Rightarrow> string" where
  "copy_name sourcePrompt n =
     (if n = 1 then p_name sourcePrompt @ '' Copy''
      else p_name sourcePrompt @ '' Copy '' @ string_of_nat n)"

definition copy_slug :: "Prompt \<Rightarrow> nat \<Rightarrow> string" where
  "copy_slug sourcePrompt n =
     (if n = 1 then p_slug sourcePrompt @ ''-copy''
      else p_slug sourcePrompt @ ''-copy-'' @ string_of_nat n)"

text \<open>
  The Head, the Ledger Entries and the Router rows of a parent under the caller's
  scope: the rows whose \<open>tenantId\<close>, \<open>projectId\<close> and parent id are those of the
  \<open>EntityId\<close>.
\<close>

definition head_of :: "EntityId \<Rightarrow> Prompt \<Rightarrow> bool" where
  "head_of promptId p \<longleftrightarrow>
     p_tenantId p = e_tenantId promptId \<and> p_projectId p = e_projectId promptId
     \<and> p_id p = e_id promptId"

definition entry_of :: "EntityId \<Rightarrow> PromptVersion \<Rightarrow> bool" where
  "entry_of promptId v \<longleftrightarrow>
     pv_promptId v = e_id promptId \<and> pv_tenantId v = e_tenantId promptId
     \<and> pv_projectId v = e_projectId promptId"

definition router_of :: "EntityId \<Rightarrow> PromptRouter \<Rightarrow> bool" where
  "router_of promptId r \<longleftrightarrow>
     pr_promptId r = e_id promptId \<and> pr_tenantId r = e_tenantId promptId
     \<and> pr_projectId r = e_projectId promptId"

text \<open>
  The merge of a partial input over a Head, as the specification words it: a field
  that the input omits keeps its value, and \<open>latestVersion\<close> grows by one.
\<close>

definition merged_head :: "Prompt \<Rightarrow> UpdatePromptInput \<Rightarrow> int \<Rightarrow> Prompt" where
  "merged_head head inp now =
     head\<lparr>p_name := (case ui_name inp of None \<Rightarrow> p_name head | Some v \<Rightarrow> v),
          p_provider := (case ui_provider inp of None \<Rightarrow> p_provider head | Some v \<Rightarrow> v),
          p_model := (case ui_model inp of None \<Rightarrow> p_model head | Some v \<Rightarrow> v),
          p_body := (case ui_body inp of None \<Rightarrow> p_body head | Some v \<Rightarrow> v),
          p_latestVersion := p_latestVersion head + 1,
          p_updatedAt := now\<rparr>"

text \<open>
  Example data: the scope \<open>(tenant 1, project 1)\<close>, and the database after
  \<open>createPrompt\<close> of a prompt named \<open>X\<close> with slug \<open>x\<close> and body \<open>v1\<close> at time 0; the
  same database with its Ledger Entries deleted.
\<close>

definition demo_project :: ProjectId where
  "demo_project = \<lparr>pj_id = 1, pj_tenantId = 1, pj_userId = ''test-user''\<rparr>"

definition demo_entity :: EntityId where
  "demo_entity = \<lparr>e_id = 1, e_projectId = 1, e_tenantId = 1, e_userId = ''test-user''\<rparr>"

definition demo_prompt :: Prompt where
  "demo_prompt =
     \<lparr>p_id = 1, p_tenantId = 1, p_projectId = 1, p_name = ''X'', p_slug = ''x'',
      p_provider = ''openai'', p_model = ''gpt-4'', p_body = ''v1'', p_latestVersion = 1,
      p_isActive = True, p_createdAt = 0, p_updatedAt = 0\<rparr>"

definition demo_version :: PromptVersion where
  "demo_version =
     \<lparr>pv_id = 1, pv_promptId = 1, pv_tenantId = 1, pv_projectId = 1, pv_version = 1,
      pv_name = ''X'', pv_provider = ''openai'', pv_model = ''gpt-4'', pv_body = ''v1'',
      pv_slug = ''x'', pv_createdAt = 0\<rparr>"

definition demo_router :: PromptRouter where
  "demo_router =
     \<lparr>pr_id = 1, pr_promptId = 1, pr_tenantId = 1, pr_projectId = 1, pr_version = 1,
      pr_updatedAt = 0\<rparr>"

definition demo_db :: database where
  "demo_db = empty_database\<lparr>prompts := [demo_prompt], promptVersions := [demo_version],
                            promptRouters := [demo_router]\<rparr>"

definition dangling_db :: database where
  "dangling_db = demo_db\<lparr>promptVersions := []\<rparr>"

text \<open>
  A name is taken for a parent when a prompt of the scope other than its Head holds it:
  the table then refuses to write the name to the Head.
\<close>

definition name_taken :: "EntityId \<Rightarrow> string \<Rightarrow> database \<Rightarrow> bool" where
  "name_taken promptId name db \<longleftrightarrow>
     name_in_use (e_tenantId promptId) (e_projectId promptId) name
       (filter (\<lambda>p. \<not> head_of promptId p) (prompts db))"

text \<open>
  Example data: the database of the example after \<open>createPrompt\<close>, in the same scope and
  at time 1, of a second prompt named \<open>X Copy\<close> with the slug \<open>other\<close>.
\<close>

definition rival_prompt :: Prompt where
  "rival_prompt =
     \<lparr>p_id = 2, p_tenantId = 1, p_projectId = 1, p_name = ''X Copy'', p_slug = ''other'',
      p_provider = ''openai'', p_model = ''gpt-4'', p_body = ''w1'', p_latestVersion = 1,
      p_isActive = True, p_createdAt = 1, p_updatedAt = 1\<rparr>"

definition rival_version :: PromptVersion where
  "rival_version =
     \<lparr>pv_id = 2, pv_promptId = 2, pv_tenantId = 1, pv_projectId = 1, pv_version = 1,
      pv_name = ''X Copy'', pv_provider = ''openai'', pv_model = ''gpt-4'', pv_body = ''w1'',
      pv_slug = ''other'', pv_createdAt = 1\<rparr>"

definition rival_router :: PromptRouter where
  "rival_router =
     \<lparr>pr_id = 2, pr_promptId = 2, pr_tenantId = 1, pr_projectId = 1, pr_version = 1,
      pr_updatedAt = 1\<rparr>"

definition rival_db :: database where
  "rival_db = empty_database\<lparr>prompts := [demo_prompt, rival_prompt],
                             promptVersions := [demo_version, rival_version],
                             promptRouters := [demo_router, rival_router]\<rparr>"

text \<open>The same for the loop of \<open>createDataSet\<close>, over the numbered slugs of live datasets.\<close>

definition datasets_in_use :: "TenantProjectContext \<Rightarrow> string \<Rightarrow> database \<Rightarrow> nat \<Rightarrow> nat set" where
  "datasets_in_use ctx baseSlug db n =
     {k. n < k \<and> dataSets_findBySlug ctx (baseSlug @ ''-'' @ string_of_nat k) db \<noteq> None}"

definition createDataSet_measure ::
  "TenantProjectContext \<times> string \<times> database \<times> string \<times> nat \<Rightarrow> nat" where
  "createDataSet_measure =
     (\<lambda>(ctx, baseSlug, db, slug, attempt).
        if dataSets_findBySlug ctx slug db = None then 0
        else 1 + card (datasets_in_use ctx baseSlug db attempt))"

text \<open>
  The rows of a dataset under the caller's scope (deleted or not), the number of its
  live records by recount, and the invariant of the Aggregate Counter: every row of
  the dataset carries that number.
\<close>

definition dataset_of :: "EntityId \<Rightarrow> DataSet \<Rightarrow> bool" where
  "dataset_of entityId d \<longleftrightarrow>
     ds_tenantId d = e_tenantId entityId \<and> ds_projectId d = e_projectId entityId
     \<and> ds_id d = e_id entityId"

definition live_count :: "EntityId \<Rightarrow> database \<Rightarrow> int" where
  "live_count entityId db = int (length (filter (live_record_of entityId) (dataSetRecords db)))"

definition counter_exact :: "EntityId \<Rightarrow> database \<Rightarrow> bool" where
  "counter_exact entityId db \<longleftrightarrow>
     (\<forall>d\<in>set (dataSets db). dataset_of entityId d \<longrightarrow> ds_countOfRecords d = live_count entityId db)"

text \<open>A call of \<open>createDataSetRecord\<close> or \<open>deleteDataSetRecords\<close>, with the time it runs at.\<close>

datatype record_call =
    CreateRecord int EntityId json
  | DeleteRecords int EntityId "int list"

fun run_call :: "runtime \<Rightarrow> record_call \<Rightarrow> database \<Rightarrow> database" where
  "run_call rt (CreateRecord now entityId variables) db =
     snd (createDataSetRecord rt now entityId variables db)"
| "run_call rt (DeleteRecords now entityId recordIds) db =
     snd (deleteDataSetRecords now entityId recordIds db)"

definition run_calls :: "runtime \<Rightarrow> record_call list \<Rightarrow> database \<Rightarrow> database" where
  "run_calls rt calls db = fold (run_call rt) calls db"

text \<open>
  Example data for the datasets: a runtime whose \<open>JSON.parse\<close> rejects every text, a
  dataset with counter 0 and no records, and a dataset whose counter says 5 while it
  has no records (as \<open>DataSetRepository.create\<close> stores it when asked to).
\<close>

definition demo_runtime :: runtime where
  "demo_runtime =
     \<lparr>JSON_parse = (\<lambda>s. None), JSON_stringify = (\<lambda>v. ''{}''),
      String_of_number = (\<lambda>n. ''0''), toLowerCase = (\<lambda>s. s)\<rparr>"

definition demo_dataset :: DataSet where
  "demo_dataset =
     \<lparr>ds_id = 1, ds_tenantId = 1, ds_projectId = 1, ds_name = ''Test Dataset'',
      ds_slug = ''test-dataset'', ds_isDeleted = False, ds_countOfRecords = 0,
      ds_schema = ''{}'', ds_createdAt = 0, ds_updatedAt = 0\<rparr>"

definition demo_dataset_db :: database where
  "demo_dataset_db = empty_database\<lparr>dataSets := [demo_dataset]\<rparr>"

definition miscounted_db :: database where
  "miscounted_db = empty_database\<lparr>dataSets := [demo_dataset\<lparr>ds_countOfRecords := 5\<rparr>]\<rparr>"

text \<open>Two identifiers address the same dataset.\<close>

definition same_key :: "EntityId \<Rightarrow> EntityId \<Rightarrow> bool" where
  "same_key a b \<longleftrightarrow> e_tenantId a = e_tenantId b \<and> e_projectId a = e_projectId b \<and> e_id a = e_id b"

text \<open>The scope, id and counter of every dataset row: what the invariant reads of them.\<close>

definition keyed_counts :: "database \<Rightarrow> ((int \<times> int \<times> int) \<times> int) list" where
  "keyed_counts db = map (\<lambda>d. ((ds_tenantId d, ds_projectId d, ds_id d), ds_countOfRecords d)) (dataSets db)"

text \<open>The row that \<open>createDataSetRecord\<close> inserts.\<close>

definition new_record :: "runtime \<Rightarrow> int \<Rightarrow> EntityId \<Rightarrow> json \<Rightarrow> database \<Rightarrow> DataSetRecord" where
  "new_record rt now e v db =
     \<lparr>r_id = next_id (map r_id (dataSetRecords db)), r_tenantId = e_tenantId e,
      r_projectId = e_projectId e, r_dataSetId = e_id e,
      r_variables = JSON_stringify rt v, r_isDeleted = False,
      r_createdAt = now, r_updatedAt = now\<rparr>"

text \<open>The records that \<open>softDeleteMany\<close> updates: live, of this dataset, with a listed id.\<close>

definition hit :: "EntityId \<Rightarrow> int list \<Rightarrow> DataSetRecord \<Rightarrow> bool" where
  "hit e ids r \<longleftrightarrow> live_record_of e r \<and> r_id r \<in> set ids"

text \<open>
  Example calls: two records created, then a deletion that names the first record and
  an id that no record has.
\<close>

definition demo_calls :: "record_call list" where
  "demo_calls =
     [CreateRecord 1 demo_entity (JObject [(''name'', JString ''Jane'')]),
      CreateRecord 2 demo_entity (JObject [(''name'', JNumber 5)]),
      DeleteRecords 3 demo_entity [1, 99]]"

text \<open>The example dataset after three records have been created.\<close>

definition three_records_db :: database where
  "three_records_db =
     run_calls demo_runtime
       [CreateRecord 1 demo_entity (JObject [(''index'', JNumber 1)]),
        CreateRecord 2 demo_entity (JObject [(''index'', JNumber 2)]),
        CreateRecord 3 demo_entity (JObject [(''index'', JNumber 3)])]
       demo_dataset_db"

text \<open>
  A stored schema that is a JSON array, and a runtime whose \<open>JSON.parse\<close> reads that
  text (and rejects every other).
\<close>

definition array_schema_text :: string where
  "array_schema_text = ''[\"string\"]''"

definition array_runtime :: runtime where
  "array_runtime =
     demo_runtime\<lparr>JSON_parse :=
       (\<lambda>s. if s = array_schema_text then Some (JArray [JString ''string'']) else None)\<rparr>"

text \<open>The pairs whose path an assignment of a string can store.\<close>

definition no_proto :: "(string \<times> 'v) list \<Rightarrow> (string \<times> 'v) list" where
  "no_proto ps = filter (\<lambda>kv. fst kv \<noteq> ''__proto__'') ps"

text \<open>What every result of \<open>collectFields\<close> satisfies: one entry per key, none for \<open>__proto__\<close>.\<close>

definition wf_fields :: "string jsrecord \<Rightarrow> bool" where
  "wf_fields f \<longleftrightarrow> distinct (map fst f) \<and> ''__proto__'' \<notin> fst ` set f"

text \<open>Two payloads used as examples below.\<close>

definition colliding_payload :: json where
  "colliding_payload =
     JObject [(''a.b'', JNumber 1), (''a'', JObject [(''b'', JString ''x'')])]"

definition jane_payload :: json where
  "jane_payload =
     JObject [(''user'', JObject [(''name'', JString ''Jane'')]),
              (''tags'', JArray [JString ''a'', JString ''b''])]"

text \<open>
  Tenant isolation. A scope is the pair \<open>(tenantId, projectId)\<close>; the identifiers an
  operation is called with carry the scope of the caller.
\<close>

type_synonym scope = "int \<times> int"

definition entity_scope :: "EntityId \<Rightarrow> scope" where
  "entity_scope e = (e_tenantId e, e_projectId e)"

definition project_scope :: "ProjectId \<Rightarrow> scope" where
  "project_scope projectId = (pj_tenantId projectId, pj_id projectId)"

definition version_scope :: "PromptVersionId \<Rightarrow> scope" where
  "version_scope versionId = (vi_tenantId versionId, vi_projectId versionId)"

definition context_scope :: "TenantProjectContext \<Rightarrow> scope" where
  "context_scope ctx = (ctx_tenantId ctx, ctx_projectId ctx)"

text \<open>
  The rows of a database that belong to a scope, and the rows that belong to any other
  scope, table by table and in the order of the tables.
\<close>

definition rows_of :: "scope \<Rightarrow> database \<Rightarrow> database" where
  "rows_of s db =
     \<lparr>prompts = filter (\<lambda>p. (p_tenantId p, p_projectId p) = s) (prompts db),
      promptVersions = filter (\<lambda>v. (pv_tenantId v, pv_projectId v) = s) (promptVersions db),
      promptRouters = filter (\<lambda>r. (pr_tenantId r, pr_projectId r) = s) (promptRouters db),
      dataSets = filter (\<lambda>d. (ds_tenantId d, ds_projectId d) = s) (dataSets db),
      dataSetRecords = filter (\<lambda>r. (r_tenantId r, r_projectId r) = s) (dataSetRecords db)\<rparr>"

definition rows_outside :: "scope \<Rightarrow> database \<Rightarrow> database" where
  "rows_outside s db =
     \<lparr>prompts = filter (\<lambda>p. (p_tenantId p, p_projectId p) \<noteq> s) (prompts db),
      promptVersions = filter (\<lambda>v. (pv_tenantId v, pv_projectId v) \<noteq> s) (promptVersions db),
      promptRouters = filter (\<lambda>r. (pr_tenantId r, pr_projectId r) \<noteq> s) (promptRouters db),
      dataSets = filter (\<lambda>d. (ds_tenantId d, ds_projectId d) \<noteq> s) (dataSets db),
      dataSetRecords = filter (\<lambda>r. (r_tenantId r, r_projectId r) \<noteq> s) (dataSetRecords db)\<rparr>"

text \<open>
  The primary keys the five tables would give to their next row. The key sequence of a
  table is shared by all scopes, so an operation that inserts a row is followed through
  \<open>insert_view\<close>: the rows of the scope together with these keys.
\<close>

definition next_ids :: "database \<Rightarrow> int \<times> int \<times> int \<times> int \<times> int" where
  "next_ids db =
     (next_id (map p_id (prompts db)), next_id (map pv_id (promptVersions db)),
      next_id (map pr_id (promptRouters db)), next_id (map ds_id (dataSets db)),
      next_id (map r_id (dataSetRecords db)))"

definition insert_view :: "scope \<Rightarrow> database \<Rightarrow> database \<times> int \<times> int \<times> int \<times> int \<times> int" where
  "insert_view s db = (rows_of s db, next_ids db)"

text \<open>
  \<open>depends_only V q\<close>: the result of the read \<open>q\<close> is the same on two databases with
  the same view \<open>V\<close>. \<open>acts_within V s f\<close>: the operation \<open>f\<close>, which returns a result and
  the database after it, leaves every row outside the scope \<open>s\<close> as it was, and its result
  and the view after it are the same on two databases with the same view.
\<close>

definition depends_only :: "(database \<Rightarrow> 'v) \<Rightarrow> (database \<Rightarrow> 'a) \<Rightarrow> bool" where
  "depends_only V q \<longleftrightarrow> (\<forall>db1 db2. V db1 = V db2 \<longrightarrow> q db1 = q db2)"

definition acts_within :: "(database \<Rightarrow> 'v) \<Rightarrow> scope \<Rightarrow> (database \<Rightarrow> 'a \<times> database) \<Rightarrow> bool" where
  "acts_within V s f \<longleftrightarrow>
     (\<forall>db. rows_outside s (snd (f db)) = rows_outside s db)
     \<and> (\<forall>db1 db2. V db1 = V db2 \<longrightarrow>
           fst (f db1) = fst (f db2) \<and> V (snd (f db1)) = V (snd (f db2)))"

text \<open>
  An update that changes rows of the scope only and inserts none can be run on the rows
  of the scope alone.
\<close>

definition commutes :: "scope \<Rightarrow> (database \<Rightarrow> database) \<Rightarrow> bool" where
  "commutes s u \<longleftrightarrow>
     (\<forall>db. rows_of s (u db) = u (rows_of s db) \<and> rows_outside s (u db) = rows_outside s db
           \<and> next_ids (u db) = next_ids db)"

text \<open>
  Example data: the database of the example with a prompt of tenant 2 whose slug is the
  first candidate of a copy of \<open>X\<close>, and the same with a prompt of project 2 instead.
\<close>

definition foreign_prompt :: Prompt where
  "foreign_prompt = demo_prompt\<lparr>p_id := 2, p_tenantId := 2, p_slug := ''x-copy''\<rparr>"

definition sibling_prompt :: Prompt where
  "sibling_prompt = demo_prompt\<lparr>p_id := 2, p_projectId := 2, p_slug := ''y''\<rparr>"

definition shared_db :: database where
  "shared_db = demo_db\<lparr>prompts := [demo_prompt, foreign_prompt]\<rparr>"

definition sibling_db :: database where
  "sibling_db = demo_db\<lparr>prompts := [demo_prompt, sibling_prompt]\<rparr>"

section \<open>Properties of the flattening\<close>

lemma map_of_set_string:
  "map_of (set_string f k v) = (if k = ''__proto__'' then map_of f else (map_of f)(k \<mapsto> v))"
  by (simp add: set_string_def update_conv')

lemma keys_set_string:
  "fst ` set (set_string f k v) =
     (if k = ''__proto__'' then fst ` set f else insert k (fst ` set f))"
  by (simp add: set_string_def dom_update)

lemma distinct_set_string: "distinct (map fst f) \<Longrightarrow> distinct (map fst (set_string f k v))"
  by (simp add: set_string_def distinct_update)

lemma object_assign_Cons:
  "object_assign t ((k, v) # s) = object_assign (set_string t k v) s"
  by (simp add: object_assign_def)

lemma object_assign_Nil: "object_assign t [] = t"
  by (simp add: object_assign_def)

lemma map_of_object_assign:
  "map_of (object_assign t s) = map_of t ++ map_of (rev (no_proto s))"
proof (induction s arbitrary: t)
  case Nil
  then show ?case by (simp add: object_assign_Nil no_proto_def)
next
  case (Cons a s)
  obtain k v where a: "a = (k, v)" by (cases a)
  show ?case
  proof (cases "k = ''__proto__''")
    case True
    then show ?thesis using Cons[of "set_string t k v"]
      by (simp add: a object_assign_Cons map_of_set_string no_proto_def)
  next
    case False
    have eq: "(map_of t)(k \<mapsto> v) ++ m = map_of t ++ ([k \<mapsto> v] ++ m)"
      for m :: "string \<rightharpoonup> string"
      by (rule ext) (simp add: map_add_def split: option.splits)
    have "map_of (object_assign t (a # s)) =
          map_of (set_string t k v) ++ map_of (rev (no_proto s))"
      using Cons[of "set_string t k v"] by (simp only: a object_assign_Cons)
    also have "\<dots> = (map_of t)(k \<mapsto> v) ++ map_of (rev (no_proto s))"
      using False by (simp only: map_of_set_string if_False)
    also have "\<dots> = map_of t ++ ([k \<mapsto> v] ++ map_of (rev (no_proto s)))"
      by (rule eq)
    also have "[k \<mapsto> v] ++ map_of (rev (no_proto s)) = map_of (rev (no_proto (a # s)))"
      using False by (simp add: a no_proto_def)
    finally show ?thesis .
  qed
qed

lemma keys_object_assign:
  "fst ` set (object_assign t s) = fst ` set t \<union> fst ` set (no_proto s)"
proof (induction s arbitrary: t)
  case Nil
  then show ?case by (simp add: object_assign_Nil no_proto_def)
next
  case (Cons a s)
  obtain k v where a: "a = (k, v)" by (cases a)
  show ?case using Cons[of "set_string t k v"]
    by (auto simp add: a object_assign_Cons keys_set_string no_proto_def)
qed

lemma distinct_object_assign:
  "distinct (map fst t) \<Longrightarrow> distinct (map fst (object_assign t s))"
proof (induction s arbitrary: t)
  case Nil
  then show ?case by (simp add: object_assign_Nil)
next
  case (Cons a s)
  obtain k v where a: "a = (k, v)" by (cases a)
  show ?case using Cons.IH[of "set_string t k v"] Cons.prems
    by (simp add: a object_assign_Cons distinct_set_string)
qed

lemma wf_fields_Nil: "wf_fields []"
  by (simp add: wf_fields_def)

lemma wf_fields_set_string: "wf_fields f \<Longrightarrow> wf_fields (set_string f k v)"
  by (auto simp add: wf_fields_def distinct_set_string keys_set_string)

lemma wf_fields_object_assign: "wf_fields t \<Longrightarrow> wf_fields (object_assign t s)"
  by (auto simp add: wf_fields_def distinct_object_assign keys_object_assign no_proto_def)

lemma map_of_rev_distinct: "distinct (map fst s) \<Longrightarrow> map_of (rev s) = map_of s"
proof -
  assume d: "distinct (map fst s)"
  then have "distinct (rev (map fst s))" by simp
  then have "distinct (map fst (rev s))" by (simp only: rev_map)
  with d show ?thesis by (simp add: map_of_inject_set)
qed

lemma no_proto_wf: "wf_fields s \<Longrightarrow> no_proto s = s"
  unfolding wf_fields_def no_proto_def by (induction s) auto

lemma no_proto_append: "no_proto (xs @ ys) = no_proto xs @ no_proto ys"
  by (simp add: no_proto_def)

lemma no_proto_id: "''__proto__'' \<notin> fst ` set ps \<Longrightarrow> no_proto ps = ps"
  unfolding no_proto_def by (induction ps) auto

text \<open>The result of \<open>collectFields\<close> has one entry per key and never the key \<open>__proto__\<close>.\<close>

lemma wf_collectFields:
  "wf_fields (collectFields v p)"
  "wf_fields acc \<Longrightarrow> wf_fields (collectFields_loop es p acc)"
  by (induction v p and es p acc rule: collectFields_collectFields_loop.induct)
     (simp_all add: wf_fields_Nil wf_fields_set_string wf_fields_object_assign)

text \<open>
  As a map, the result of \<open>collectFields\<close> is the specification's list of pairs read
  from its end, without the pairs at \<open>__proto__\<close>: where a path occurs twice, the later
  pair wins.
\<close>

lemma map_of_collectFields:
  "map_of (collectFields v p) = map_of (rev (no_proto (flatten_spec v p)))"
  "wf_fields acc \<Longrightarrow>
     map_of (collectFields_loop es p acc) =
       map_of acc ++ map_of (rev (no_proto (flatten_spec_entries es p)))"
proof (induction v p and es p acc rule: collectFields_collectFields_loop.induct)
  case (3 entries prefix)
  then show ?case
    by (auto simp add: wf_fields_Nil map_of_set_string no_proto_def path_of_def)
next
  case (8 key nxt entries prefix flds)
  let ?sub = "collectFields nxt (nextPrefix prefix key)"
  have wf: "wf_fields (object_assign flds ?sub)"
    using "8.prems" by (rule wf_fields_object_assign)
  have sub: "map_of (rev (no_proto ?sub)) = map_of ?sub"
    using wf_collectFields(1)[of nxt "nextPrefix prefix key"]
    by (simp add: no_proto_wf map_of_rev_distinct wf_fields_def)
  have "map_of (collectFields_loop ((key, nxt) # entries) prefix flds) =
        map_of (object_assign flds ?sub)
          ++ map_of (rev (no_proto (flatten_spec_entries entries prefix)))"
    using "8.IH"(2)[OF wf] by simp
  also have "map_of (object_assign flds ?sub) = map_of flds ++ map_of ?sub"
    by (simp only: map_of_object_assign sub)
  also have "map_of ?sub = map_of (rev (no_proto (flatten_spec nxt (nextPrefix prefix key))))"
    by (rule "8.IH"(1))
  finally show ?case
    by (simp add: no_proto_append nextPrefix_def)
qed (auto simp add: map_of_set_string no_proto_def path_of_def fun_eq_iff)

lemma set_eq_of_map_of_eq:
  assumes "distinct (map fst xs)" "distinct (map fst ys)" "map_of xs = map_of ys"
  shows "set xs = set ys"
  using assms by (simp add: map_of_inject_set)

text \<open>
  Claim C6, as the specification states it, fails where two pairs of the recursive
  definition share a path: for the payload \<open>{"a.b": 1, "a": {"b": "x"}}\<close> the
  definition yields the pairs \<open>("a.b", "number")\<close> and \<open>("a.b", "string")\<close>, and the
  record that \<open>collectFields\<close> returns holds the second only.
\<close>

theorem collectFields_pairs_counterexample:
  "(''a.b'', ''number'') \<in> set (flatten_spec colliding_payload [])
   \<and> (''a.b'', ''number'') \<notin> set (collectFields colliding_payload [])"
  by (simp add: colliding_payload_def path_of_def nextPrefix_def object_assign_def
      set_string_def)

text \<open>
  Claim C6, amended. For every payload and prefix whose pairs under the recursive
  definition (\<open>null\<close> gives \<open>"null"\<close> at the current path; an array gives \<open>"array"\<close> and is
  not entered; a non-empty object gives no pair of its own and is entered key by key
  under \<open>prefix.key\<close>, or \<open>key\<close> when the prefix is empty; an empty object under a
  non-empty prefix gives \<open>"object"\<close>; another scalar gives its primitive type name; the
  empty prefix on a non-object stands for the path \<open>"value"\<close>) include no path
  \<open>__proto__\<close>: the record returned by \<open>collectFields\<close> has each key once, its keys are
  exactly the paths of those pairs, each path carries the type of its last pair, and
  when no path occurs in two pairs the entries are exactly the pairs.
\<close>

theorem collectFields_flatten_spec:
  assumes "''__proto__'' \<notin> fst ` set (flatten_spec v prefix)"
  shows "distinct (map fst (collectFields v prefix))
    \<and> fst ` set (collectFields v prefix) = fst ` set (flatten_spec v prefix)
    \<and> map_of (collectFields v prefix) = map_of (rev (flatten_spec v prefix))
    \<and> (distinct (map fst (flatten_spec v prefix)) \<longrightarrow>
         set (collectFields v prefix) = set (flatten_spec v prefix))"
proof -
  have np: "no_proto (flatten_spec v prefix) = flatten_spec v prefix"
    using assms by (rule no_proto_id)
  have d: "distinct (map fst (collectFields v prefix))"
    using wf_collectFields(1)[of v prefix] by (simp add: wf_fields_def)
  have m: "map_of (collectFields v prefix) = map_of (rev (flatten_spec v prefix))"
    using map_of_collectFields(1)[of v prefix] by (simp only: np)
  have "dom (map_of (collectFields v prefix)) = dom (map_of (rev (flatten_spec v prefix)))"
    by (simp only: m)
  then have k: "fst ` set (collectFields v prefix) = fst ` set (flatten_spec v prefix)"
    by (simp add: dom_map_of_conv_image_fst)
  have e: "set (collectFields v prefix) = set (flatten_spec v prefix)"
    if dd: "distinct (map fst (flatten_spec v prefix))"
  proof -
    have "map_of (collectFields v prefix) = map_of (flatten_spec v prefix)"
      using m dd by (simp add: map_of_rev_distinct)
    with d dd show ?thesis by (rule set_eq_of_map_of_eq)
  qed
  from d k m e show ?thesis by blast
qed

theorem collectFields_flatten_spec_witness:
  "''__proto__'' \<notin> fst ` set (flatten_spec jane_payload [])
   \<and> distinct (map fst (flatten_spec jane_payload []))
   \<and> set (collectFields jane_payload []) = {(''user.name'', ''string''), (''tags'', ''array'')}"
proof -
  have f: "flatten_spec jane_payload [] = [(''user.name'', ''string''), (''tags'', ''array'')]"
    by (simp add: jane_payload_def path_of_def)
  have h: "''__proto__'' \<notin> fst ` set (flatten_spec jane_payload [])"
    by (simp add: f)
  have dd: "distinct (map fst (flatten_spec jane_payload []))"
    by (simp add: f)
  from collectFields_flatten_spec[OF h] dd
  have "set (collectFields jane_payload []) = set (flatten_spec jane_payload [])"
    by blast
  with h dd show ?thesis by (simp add: f)
qed

section \<open>Decimal rendering and the probing loops\<close>

lemma digit_char_inj: "a < 10 \<Longrightarrow> b < 10 \<Longrightarrow> digit_char a = digit_char b \<Longrightarrow> a = b"
proof -
  assume a: "a < 10" and b: "b < 10" and e: "digit_char a = digit_char b"
  have d: "distinct ''0123456789''" by simp
  have "length ''0123456789'' = 10" by simp
  with a b e d show "a = b"
    unfolding digit_char_def by (simp only: nth_eq_iff_index_eq)
qed

lemma string_of_nat_nonempty: "string_of_nat n \<noteq> []"
  by (subst string_of_nat.simps) simp

lemma string_of_nat_inj: "string_of_nat n = string_of_nat m \<Longrightarrow> n = m"
proof (induction n arbitrary: m rule: string_of_nat.induct)
  case (1 n)
  show ?case
  proof (cases "n < 10")
    case True
    then have n: "string_of_nat n = [digit_char n]" by (simp add: string_of_nat.simps)
    show ?thesis
    proof (cases "m < 10")
      case True
      then have "string_of_nat m = [digit_char m]" by (simp add: string_of_nat.simps)
      with n "1.prems" have "digit_char n = digit_char m" by simp
      with \<open>n < 10\<close> True show ?thesis by (rule digit_char_inj)
    next
      case False
      then have "string_of_nat m = string_of_nat (m div 10) @ [digit_char (m mod 10)]"
        by (subst string_of_nat.simps) simp
      with n "1.prems" have "string_of_nat (m div 10) = []" by simp
      then show ?thesis by (simp add: string_of_nat_nonempty)
    qed
  next
    case False
    then have n: "string_of_nat n = string_of_nat (n div 10) @ [digit_char (n mod 10)]"
      by (subst string_of_nat.simps) simp
    show ?thesis
    proof (cases "m < 10")
      case True
      then have "string_of_nat m = [digit_char m]" by (simp add: string_of_nat.simps)
      with n "1.prems" have "string_of_nat (n div 10) = []" by simp
      then show ?thesis by (simp add: string_of_nat_nonempty)
    next
      case mf: False
      then have "string_of_nat m = string_of_nat (m div 10) @ [digit_char (m mod 10)]"
        by (subst string_of_nat.simps) simp
      with n "1.prems" have e1: "string_of_nat (n div 10) = string_of_nat (m div 10)"
        and e2: "digit_char (n mod 10) = digit_char (m mod 10)" by simp_all
      from "1.IH"[OF False e1] have d: "n div 10 = m div 10" .
      have "n mod 10 = m mod 10" using e2 by (intro digit_char_inj) simp_all
      with d show ?thesis by (metis div_mult_mod_eq)
    qed
  qed
qed

lemma string_of_nat_2: "string_of_nat 2 = ''2''"
  by (simp add: string_of_nat.simps digit_char_def)

lemma probe_card_less:
  assumes "inj f" "finite U" "f (Suc n) \<in> U"
  shows "card {k. Suc n < k \<and> f k \<in> U} < card {k. n < k \<and> f k \<in> U}"
proof (rule psubset_card_mono)
  have "finite (f -` U)" using assms(1,2) by (simp add: finite_vimageI)
  moreover have "{k. n < k \<and> f k \<in> U} \<subseteq> f -` U" by auto
  ultimately show "finite {k. n < k \<and> f k \<in> U}" by (rule rev_finite_subset)
  have "Suc n \<in> {k. n < k \<and> f k \<in> U}" using assms(3) by simp
  moreover have "Suc n \<notin> {k. Suc n < k \<and> f k \<in> U}" by simp
  ultimately show "{k. Suc n < k \<and> f k \<in> U} \<subset> {k. n < k \<and> f k \<in> U}" by auto
qed

lemma inj_numbered: "inj (\<lambda>k. a @ b @ string_of_nat k)"
  by (rule injI) (simp add: string_of_nat_inj)

lemma finite_slugs_in_use: "finite {s. findPromptBySlug projectId s db \<noteq> None}"
proof (rule finite_subset)
  show "{s. findPromptBySlug projectId s db \<noteq> None} \<subseteq> p_slug ` set (prompts db)"
    by (auto simp add: findPromptBySlug_def find_None_iff)
  show "finite (p_slug ` set (prompts db))" by simp
qed

lemma copies_in_use_less:
  assumes "findPromptBySlug projectId (p_slug sourcePrompt @ ''-copy-'' @ string_of_nat (Suc n)) db \<noteq> None"
  shows "card (copies_in_use projectId sourcePrompt db (Suc n))
           < card (copies_in_use projectId sourcePrompt db n)"
proof -
  let ?U = "{s. findPromptBySlug projectId s db \<noteq> None}"
  let ?f = "\<lambda>k. p_slug sourcePrompt @ ''-copy-'' @ string_of_nat k"
  have "?f (Suc n) \<in> ?U" using assms by simp
  with inj_numbered finite_slugs_in_use
  have "card {k. Suc n < k \<and> ?f k \<in> ?U} < card {k. n < k \<and> ?f k \<in> ?U}"
    by (rule probe_card_less)
  then show ?thesis by (simp add: copies_in_use_def)
qed

text \<open>The loop of \<open>copyPrompt\<close> ends on every database: the table of prompts is finite.\<close>

termination copyPrompt_loop
proof (relation "measure copyPrompt_measure")
  show "wf (measure copyPrompt_measure)" by simp
next
  fix projectId :: ProjectId and sourcePrompt :: Prompt and db :: database
    and newName newSlug :: string and copyNumber :: nat and x2 :: Prompt
  assume found: "findPromptBySlug projectId newSlug db = Some x2"
  let ?slug = "p_slug sourcePrompt @ ''-copy-'' @ string_of_nat (copyNumber + 1)"
  let ?name = "p_name sourcePrompt @ '' Copy '' @ string_of_nat (copyNumber + 1)"
  have old: "copyPrompt_measure (projectId, sourcePrompt, db, newName, newSlug, copyNumber)
             = 1 + card (copies_in_use projectId sourcePrompt db copyNumber)"
    using found by (simp add: copyPrompt_measure_def)
  have new: "copyPrompt_measure (projectId, sourcePrompt, db, ?name, ?slug, copyNumber + 1)
             < 1 + card (copies_in_use projectId sourcePrompt db copyNumber)"
  proof (cases "findPromptBySlug projectId ?slug db = None")
    case True
    then show ?thesis by (simp add: copyPrompt_measure_def)
  next
    case False
    then have "card (copies_in_use projectId sourcePrompt db (Suc copyNumber))
                 < card (copies_in_use projectId sourcePrompt db copyNumber)"
      by (intro copies_in_use_less) simp
    with False show ?thesis by (simp add: copyPrompt_measure_def)
  qed
  from old new
  show "((projectId, sourcePrompt, db, ?name, ?slug, copyNumber + 1),
         (projectId, sourcePrompt, db, newName, newSlug, copyNumber))
        \<in> measure copyPrompt_measure"
    by simp
qed

declare copyPrompt_loop.simps [simp del]

lemma copyPrompt_loop_probe:
  assumes "st = (copy_name src n, copy_slug src n, n)" "1 \<le> n"
  shows "\<exists>m\<ge>n. copyPrompt_loop pj src db st = (copy_name src m, copy_slug src m, m)
           \<and> findPromptBySlug pj (copy_slug src m) db = None
           \<and> (\<forall>k. n \<le> k \<and> k < m \<longrightarrow> findPromptBySlug pj (copy_slug src k) db \<noteq> None)"
  using assms
proof (induction pj src db st arbitrary: n rule: copyPrompt_loop.induct)
  case (1 projectId sourcePrompt db newName newSlug copyNumber)
  from "1.prems" have nm: "newName = copy_name sourcePrompt n"
    and sl: "newSlug = copy_slug sourcePrompt n" and cn: "copyNumber = n" by simp_all
  show ?case
  proof (cases "findPromptBySlug projectId newSlug db")
    case None
    then have "copyPrompt_loop projectId sourcePrompt db (newName, newSlug, copyNumber)
               = (newName, newSlug, copyNumber)"
      by (simp add: copyPrompt_loop.simps)
    with None nm sl cn show ?thesis by auto
  next
    case (Some existing)
    let ?st = "(p_name sourcePrompt @ '' Copy '' @ string_of_nat (copyNumber + 1),
                p_slug sourcePrompt @ ''-copy-'' @ string_of_nat (copyNumber + 1), copyNumber + 1)"
    have st: "?st = (copy_name sourcePrompt (n + 1), copy_slug sourcePrompt (n + 1), n + 1)"
      using \<open>1 \<le> n\<close> cn by (simp add: copy_name_def copy_slug_def)
    have step: "copyPrompt_loop projectId sourcePrompt db (newName, newSlug, copyNumber)
                = copyPrompt_loop projectId sourcePrompt db ?st"
      using Some by (simp add: copyPrompt_loop.simps)
    from "1.IH"[OF Some st] obtain m where m: "n + 1 \<le> m"
      "copyPrompt_loop projectId sourcePrompt db ?st
         = (copy_name sourcePrompt m, copy_slug sourcePrompt m, m)"
      "findPromptBySlug projectId (copy_slug sourcePrompt m) db = None"
      "\<forall>k. n + 1 \<le> k \<and> k < m \<longrightarrow> findPromptBySlug projectId (copy_slug sourcePrompt k) db \<noteq> None"
      by auto
    have "\<forall>k. n \<le> k \<and> k < m \<longrightarrow> findPromptBySlug projectId (copy_slug sourcePrompt k) db \<noteq> None"
    proof (intro allI impI)
      fix k assume k: "n \<le> k \<and> k < m"
      show "findPromptBySlug projectId (copy_slug sourcePrompt k) db \<noteq> None"
      proof (cases "k = n")
        case True
        with Some sl show ?thesis by simp
      next
        case False
        with k m(4) show ?thesis by simp
      qed
    qed
    with m step show ?thesis by (intro exI[of _ m]) simp
  qed
qed

section \<open>Facts about the tables\<close>

lemma fold_max_ge: "(a::int) \<le> fold max ids a"
  by (induction ids arbitrary: a) (auto intro: order_trans[OF max.cobounded2])

lemma fold_max_mem: "x \<in> set ids \<Longrightarrow> (x::int) \<le> fold max ids a"
proof (induction ids arbitrary: a)
  case Nil
  then show ?case by simp
next
  case (Cons y ys)
  show ?case
  proof (cases "x = y")
    case True
    have "y \<le> max y a" by simp
    also have "\<dots> \<le> fold max ys (max y a)" by (rule fold_max_ge)
    finally show ?thesis using True by simp
  next
    case False
    with Cons show ?thesis by simp
  qed
qed

lemma next_id_fresh: "next_id ids \<notin> set ids"
proof
  assume "next_id ids \<in> set ids"
  then have "next_id ids \<le> fold max ids 0" by (rule fold_max_mem)
  then show False by (simp add: next_id_def)
qed

lemma next_id_greater: "x \<in> set ids \<Longrightarrow> x < next_id ids"
  using fold_max_mem[of x ids 0] by (simp add: next_id_def)

lemma find_append:
  "find P (xs @ ys) = (case find P xs of None \<Rightarrow> find P ys | Some x \<Rightarrow> Some x)"
  by (induction xs) auto

lemma find_map_preserved:
  "(\<And>x. P (f x) = P x) \<Longrightarrow> find P (map f xs) = map_option f (find P xs)"
  by (induction xs) simp_all

lemma find_Some_D: "find P xs = Some x \<Longrightarrow> P x \<and> x \<in> set xs"
  by (induction xs) (auto split: if_splits)

lemma find_None_set: "(find P xs = None) = (\<forall>x\<in>set xs. \<not> P x)"
  by (auto simp add: find_None_iff)

lemma filter_map_unchanged:
  "(\<And>x. x \<in> set xs \<Longrightarrow> g x \<noteq> x \<Longrightarrow> \<not> P x \<and> \<not> P (g x)) \<Longrightarrow> filter P (map g xs) = filter P xs"
proof (induction xs)
  case Nil
  then show ?case by simp
next
  case (Cons a xs)
  have tl: "filter P (map g xs) = filter P xs"
    by (rule Cons.IH) (simp add: Cons.prems)
  show ?case
  proof (cases "g a = a")
    case True
    with tl show ?thesis by simp
  next
    case False
    with Cons.prems[of a] have "\<not> P a \<and> \<not> P (g a)" by simp
    with tl show ?thesis by simp
  qed
qed

lemma findPromptById_head: "findPromptById promptId db = find (head_of promptId) (prompts db)"
  by (simp add: findPromptById_def head_of_def [abs_def])

lemma findPromptRouter_router: "findPromptRouter promptId db = find (router_of promptId) (promptRouters db)"
  by (simp add: findPromptRouter_def router_of_def [abs_def])

lemma findPromptVersion_entry:
  "findPromptVersion promptId v db = find (\<lambda>e. entry_of promptId e \<and> pv_version e = v) (promptVersions db)"
  by (simp add: findPromptVersion_def entry_of_def)

lemma updatePromptRouterVersion_active:
  assumes "findPromptRouter promptId db = Some r"
  shows "findPromptRouter promptId (updatePromptRouterVersion now promptId (pr_id r) v db)
         = Some (r\<lparr>pr_version := v, pr_updatedAt := now\<rparr>)"
proof -
  let ?f = "\<lambda>x. if pr_id x = pr_id r \<and> pr_tenantId x = e_tenantId promptId
                       \<and> pr_projectId x = e_projectId promptId
                    then x\<lparr>pr_version := v, pr_updatedAt := now\<rparr> else x"
  have p: "router_of promptId (?f x) = router_of promptId x" for x
    by (simp add: router_of_def)
  from assms have r: "router_of promptId r"
    by (auto simp add: findPromptRouter_router dest: find_Some_D)
  have "find (router_of promptId) (map ?f (promptRouters db))
        = map_option ?f (find (router_of promptId) (promptRouters db))"
    using p by (rule find_map_preserved)
  with assms r show ?thesis
    by (simp add: findPromptRouter_router updatePromptRouterVersion_def router_of_def)
qed

lemma createPromptRouter_active:
  assumes "findPromptRouter promptId db = None"
  shows "findPromptRouter promptId
           (snd (createPromptRouter now
                   \<lparr>npr_promptId = e_id promptId, npr_tenantId = e_tenantId promptId,
                    npr_projectId = e_projectId promptId, npr_version = v\<rparr> db))
         = Some \<lparr>pr_id = next_id (map pr_id (promptRouters db)), pr_promptId = e_id promptId,
                 pr_tenantId = e_tenantId promptId, pr_projectId = e_projectId promptId,
                 pr_version = v, pr_updatedAt = now\<rparr>"
  using assms by (simp add: findPromptRouter_def createPromptRouter_def find_append Let_def)

lemma map_pr_id_update:
  "map pr_id (map (\<lambda>x. if c x then x\<lparr>pr_version := v, pr_updatedAt := t\<rparr> else x) xs) = map pr_id xs"
  by (induction xs) simp_all

lemma demo_db_created:
  "createPrompt 0 demo_project
     \<lparr>ci_name = ''X'', ci_slug = ''x'', ci_provider = ''openai'', ci_model = ''gpt-4'',
      ci_body = ''v1''\<rparr> empty_database = (Inr demo_prompt, demo_db)"
  by (simp add: createPrompt_def repository_createPrompt_def createPromptVersion_def
      createPromptRouter_def Let_def empty_database_def demo_project_def demo_prompt_def
      demo_db_def demo_version_def demo_router_def next_id_def name_in_use_def slug_in_use_def)

lemma rival_db_created:
  "createPrompt 1 demo_project
     \<lparr>ci_name = ''X Copy'', ci_slug = ''other'', ci_provider = ''openai'', ci_model = ''gpt-4'',
      ci_body = ''w1''\<rparr> demo_db = (Inr rival_prompt, rival_db)"
  by (simp add: createPrompt_def repository_createPrompt_def createPromptVersion_def
      createPromptRouter_def Let_def empty_database_def demo_project_def demo_prompt_def
      demo_db_def demo_version_def demo_router_def next_id_def name_in_use_def slug_in_use_def
      rival_prompt_def rival_version_def rival_router_def rival_db_def)

lemma list_ex_find: "list_ex P xs \<longleftrightarrow> find P xs \<noteq> None"
  by (auto simp add: list_ex_iff find_None_iff)

lemma slug_in_use_find:
  "slug_in_use (e_tenantId promptId) (e_projectId promptId) slug (prompts db)
   \<longleftrightarrow> findPromptBySlug (getProjectId promptId) slug db \<noteq> None"
  by (auto simp add: slug_in_use_def findPromptBySlug_def getProjectId_def list_ex_iff
      find_None_iff)

lemma repository_updatePrompt_free:
  assumes "\<not> name_taken promptId (d_name data) db"
  shows "repository_updatePrompt now promptId data db =
     (Inr (),
      db\<lparr>prompts :=
           map (\<lambda>p. if p_tenantId p = e_tenantId promptId \<and> p_projectId p = e_projectId promptId
                        \<and> p_id p = e_id promptId
                     then p\<lparr>p_name := d_name data, p_provider := d_provider data,
                            p_model := d_model data, p_body := d_body data,
                            p_latestVersion := d_latestVersion data, p_updatedAt := now\<rparr>
                     else p)
             (prompts db)\<rparr>)"
  using assms
  by (simp add: repository_updatePrompt_def name_taken_def head_of_def [abs_def] Let_def)

lemma repository_updatePrompt_refused:
  assumes "findPromptById promptId db = Some head" "name_taken promptId (d_name data) db"
  shows "repository_updatePrompt now promptId data db = (Inl UniqueConstraintFailed, db)"
  using assms
  by (simp add: repository_updatePrompt_def name_taken_def head_of_def [abs_def] Let_def
      list_ex_find findPromptById_def)

lemma rival_head: "findPromptById demo_entity rival_db = Some demo_prompt"
  by (simp add: findPromptById_def demo_entity_def rival_db_def demo_prompt_def empty_database_def)

text \<open>
  The refusals of the prompts table: \<open>createPrompt\<close> for a name, and for a slug, that a
  prompt of the tenant and project holds, as the repository's tests expect them, and
  its success for another tenant; \<open>renamePrompt\<close> for a name that another prompt holds
  under a slug that the new name does not generate.
\<close>

lemma createPrompt_duplicate_name:
  "createPrompt 1 demo_project
     \<lparr>ci_name = ''X'', ci_slug = ''unique-slug-2'', ci_provider = ''openai'', ci_model = ''gpt-4'',
      ci_body = ''{}''\<rparr> demo_db = (Inl UniqueConstraintFailed, demo_db)"
  by (simp add: createPrompt_def repository_createPrompt_def name_in_use_def demo_project_def
      demo_db_def demo_prompt_def empty_database_def)

lemma createPrompt_duplicate_slug:
  "createPrompt 1 demo_project
     \<lparr>ci_name = ''Unique Prompt 2'', ci_slug = ''x'', ci_provider = ''openai'',
      ci_model = ''gpt-4'', ci_body = ''{}''\<rparr> demo_db = (Inl UniqueConstraintFailed, demo_db)"
  by (simp add: createPrompt_def repository_createPrompt_def name_in_use_def slug_in_use_def
      demo_project_def demo_db_def demo_prompt_def empty_database_def)

lemma createPrompt_other_tenant:
  "\<exists>p db'. createPrompt 1 \<lparr>pj_id = 1, pj_tenantId = 2, pj_userId = ''test-user''\<rparr>
       \<lparr>ci_name = ''X'', ci_slug = ''x'', ci_provider = ''openai'', ci_model = ''gpt-4'',
        ci_body = ''{}''\<rparr> demo_db = (Inr p, db')
     \<and> p_tenantId p = 2 \<and> p_name p = ''X'' \<and> p_slug p = ''x'' \<and> p_id p \<noteq> p_id demo_prompt"
  by (simp add: createPrompt_def repository_createPrompt_def createPromptVersion_def
      createPromptRouter_def name_in_use_def slug_in_use_def Let_def
      demo_db_def demo_prompt_def empty_database_def next_id_def)

lemma repository_renamePrompt_refused:
  assumes "findPromptById promptId db = Some head"
    and "name_taken promptId name db
         \<or> slug_in_use (e_tenantId promptId) (e_projectId promptId) slug
              (filter (\<lambda>p. \<not> head_of promptId p) (prompts db))"
  shows "repository_renamePrompt now promptId name slug db = (Inl UniqueConstraintFailed, db)"
  using assms
  by (auto simp add: repository_renamePrompt_def name_taken_def head_of_def [abs_def] Let_def
      list_ex_find findPromptById_def)

lemma repository_renamePrompt_free:
  assumes "\<not> name_taken promptId name db"
    and "\<not> slug_in_use (e_tenantId promptId) (e_projectId promptId) slug
              (filter (\<lambda>p. \<not> head_of promptId p) (prompts db))"
  shows "repository_renamePrompt now promptId name slug db =
     (Inr (),
      db\<lparr>prompts :=
           map (\<lambda>p. if p_tenantId p = e_tenantId promptId \<and> p_projectId p = e_projectId promptId
                        \<and> p_id p = e_id promptId
                     then p\<lparr>p_name := name, p_slug := slug, p_updatedAt := now\<rparr>
                     else p)
             (prompts db)\<rparr>)"
  using assms
  by (simp add: repository_renamePrompt_def name_taken_def head_of_def [abs_def] Let_def)

lemma renamePrompt_name_taken:
  "generateSlug demo_runtime ''X Copy'' = ''opy''
   \<and> findPromptBySlug (getProjectId demo_entity) ''opy'' rival_db = None
   \<and> renamePrompt demo_runtime 5 demo_entity ''X Copy'' rival_db
       = (Inl UniqueConstraintFailed, rival_db)"
proof -
  have g: "generateSlug demo_runtime ''X Copy'' = ''opy''"
    by (simp add: generateSlug_def demo_runtime_def slug_char_def)
  have u: "findPromptBySlug (getProjectId demo_entity) ''opy'' rival_db = None"
    by (simp add: findPromptBySlug_def getProjectId_def demo_entity_def rival_db_def
        demo_prompt_def rival_prompt_def empty_database_def)
  have "name_taken demo_entity ''X Copy'' rival_db"
    by (simp add: name_taken_def name_in_use_def head_of_def demo_entity_def rival_db_def
        demo_prompt_def rival_prompt_def empty_database_def)
  then have "repository_renamePrompt 5 demo_entity ''X Copy'' ''opy'' rival_db
      = (Inl UniqueConstraintFailed, rival_db)"
    using rival_head by (intro repository_renamePrompt_refused) simp_all
  with rival_head g u show ?thesis by (simp add: renamePrompt_def Let_def)
qed

section \<open>Prompt versioning\<close>

lemma updatePrompt_not_found:
  "findPromptById promptId db = None \<Longrightarrow>
   updatePrompt now promptId inp db = (Inl PromptNotFound, db)"
  by (simp add: updatePrompt_def)

lemma merged_name: "nullish (ui_name inp) (p_name head) = p_name (merged_head head inp now)"
  by (simp add: nullish_def merged_head_def)

lemma updatePrompt_refused:
  assumes "findPromptById promptId db = Some head"
    and "name_taken promptId (p_name (merged_head head inp now)) db"
  shows "updatePrompt now promptId inp db = (Inl UniqueConstraintFailed, db)"
proof -
  let ?data = "\<lparr>d_name = nullish (ui_name inp) (p_name head),
                 d_provider = nullish (ui_provider inp) (p_provider head),
                 d_model = nullish (ui_model inp) (p_model head),
                 d_body = nullish (ui_body inp) (p_body head),
                 d_latestVersion = p_latestVersion head + 1\<rparr>"
  from assms(2) have "name_taken promptId (d_name ?data) db"
    by (simp add: merged_name[of inp head now])
  with assms(1) have "repository_updatePrompt now promptId ?data db = (Inl UniqueConstraintFailed, db)"
    by (rule repository_updatePrompt_refused)
  with assms(1) show ?thesis by (simp add: updatePrompt_def Let_def)
qed

lemma updatePrompt_found:
  assumes cur: "findPromptById promptId db = Some head"
    and free: "\<not> name_taken promptId (p_name (merged_head head inp now)) db"
  shows "\<exists>db'. updatePrompt now promptId inp db = (Inr 1, db')
     \<and> findPromptById promptId db' = Some (merged_head head inp now)
     \<and> prompts db' =
          map (\<lambda>p. if head_of promptId p
                    then p\<lparr>p_name := p_name (merged_head head inp now),
                           p_provider := p_provider (merged_head head inp now),
                           p_model := p_model (merged_head head inp now),
                           p_body := p_body (merged_head head inp now),
                           p_latestVersion := p_latestVersion head + 1,
                           p_updatedAt := now\<rparr>
                    else p) (prompts db)
     \<and> promptVersions db' = promptVersions db @
          [\<lparr>pv_id = next_id (map pv_id (promptVersions db)),
            pv_promptId = e_id promptId, pv_tenantId = e_tenantId promptId,
            pv_projectId = e_projectId promptId, pv_version = p_latestVersion head + 1,
            pv_name = p_name (merged_head head inp now),
            pv_provider = p_provider (merged_head head inp now),
            pv_model = p_model (merged_head head inp now),
            pv_body = p_body (merged_head head inp now),
            pv_slug = p_slug head, pv_createdAt = now\<rparr>]
     \<and> getActiveRouterVersion promptId db' = Some (p_latestVersion head + 1)
     \<and> (findPromptRouter promptId db = None \<longrightarrow>
          promptRouters db' = promptRouters db @
            [\<lparr>pr_id = next_id (map pr_id (promptRouters db)), pr_promptId = e_id promptId,
              pr_tenantId = e_tenantId promptId, pr_projectId = e_projectId promptId,
              pr_version = p_latestVersion head + 1, pr_updatedAt = now\<rparr>])
     \<and> (findPromptRouter promptId db \<noteq> None \<longrightarrow>
          map pr_id (promptRouters db') = map pr_id (promptRouters db))
     \<and> dataSets db' = dataSets db \<and> dataSetRecords db' = dataSetRecords db"
proof -
  let ?data = "\<lparr>d_name = nullish (ui_name inp) (p_name head),
                 d_provider = nullish (ui_provider inp) (p_provider head),
                 d_model = nullish (ui_model inp) (p_model head),
                 d_body = nullish (ui_body inp) (p_body head),
                 d_latestVersion = p_latestVersion head + 1\<rparr>"
  let ?f = "\<lambda>p. if p_tenantId p = e_tenantId promptId \<and> p_projectId p = e_projectId promptId
                       \<and> p_id p = e_id promptId
                    then p\<lparr>p_name := d_name ?data, p_provider := d_provider ?data,
                           p_model := d_model ?data, p_body := d_body ?data,
                           p_latestVersion := d_latestVersion ?data, p_updatedAt := now\<rparr>
                    else p"
  let ?db1 = "db\<lparr>prompts := map ?f (prompts db)\<rparr>"
  let ?nv = "\<lparr>npv_promptId = e_id promptId, npv_tenantId = e_tenantId promptId,
                    npv_projectId = e_projectId promptId, npv_version = p_latestVersion head + 1,
                    npv_name = nullish (ui_name inp) (p_name head),
                    npv_provider = nullish (ui_provider inp) (p_provider head),
                    npv_model = nullish (ui_model inp) (p_model head),
                    npv_body = nullish (ui_body inp) (p_body head),
                    npv_slug = p_slug head\<rparr>"
  let ?db2 = "snd (createPromptVersion now ?nv ?db1)"
  from free have "\<not> name_taken promptId (d_name ?data) db"
    by (simp add: merged_name[of inp head now])
  from repository_updatePrompt_free[OF this, of now]
  have upd: "repository_updatePrompt now promptId ?data db = (Inr (), ?db1)"
    by simp
  have hd: "head_of promptId head"
    using cur by (auto simp add: findPromptById_head dest: find_Some_D)
  have pres: "head_of promptId (?f x) = head_of promptId x" for x
    by (simp add: head_of_def)
  have "find (head_of promptId) (map ?f (prompts db)) = map_option ?f (find (head_of promptId) (prompts db))"
    using pres by (rule find_map_preserved)
  then have head2: "findPromptById promptId ?db2 = Some (merged_head head inp now)"
    using cur hd
    by (simp add: findPromptById_head createPromptVersion_def
        merged_head_def nullish_def head_of_def [abs_def] Let_def cong: if_cong)
  have routers2: "promptRouters ?db2 = promptRouters db"
    by (simp add: createPromptVersion_def Let_def)
  have fr2: "findPromptRouter promptId ?db2 = findPromptRouter promptId db"
    by (simp add: findPromptRouter_def routers2)
  show ?thesis
  proof (cases "findPromptRouter promptId db")
    case None
    let ?db3 = "snd (createPromptRouter now
                   \<lparr>npr_promptId = e_id promptId, npr_tenantId = e_tenantId promptId,
                    npr_projectId = e_projectId promptId, npr_version = p_latestVersion head + 1\<rparr> ?db2)"
    have run: "updatePrompt now promptId inp db = (Inr 1, ?db3)"
      using cur None fr2 by (simp add: updatePrompt_def upd Let_def split_def)
    have act: "getActiveRouterVersion promptId ?db3 = Some (p_latestVersion head + 1)"
      using createPromptRouter_active[of promptId ?db2 now "p_latestVersion head + 1"] None fr2
      by (simp add: getActiveRouterVersion_def)
    have h3: "findPromptById promptId ?db3 = Some (merged_head head inp now)"
      using head2 by (simp add: findPromptById_def createPromptRouter_def Let_def)
    show ?thesis
      apply (rule exI[of _ ?db3])
      apply (intro conjI)
              apply (rule run)
             apply (rule h3)
            apply (simp add: createPromptRouter_def createPromptVersion_def Let_def
                merged_head_def nullish_def head_of_def [abs_def] cong: if_cong)
           apply (simp add: createPromptRouter_def createPromptVersion_def Let_def
                merged_head_def nullish_def cong: if_cong)
          apply (rule act)
         apply (simp add: createPromptRouter_def createPromptVersion_def Let_def)
        apply (simp add: None)
       apply (simp add: createPromptRouter_def createPromptVersion_def Let_def)
      apply (simp add: createPromptRouter_def createPromptVersion_def Let_def)
      done
  next
    case (Some r)
    let ?db3 = "updatePromptRouterVersion now promptId (pr_id r) (p_latestVersion head + 1) ?db2"
    have run: "updatePrompt now promptId inp db = (Inr 1, ?db3)"
      using cur Some fr2 by (simp add: updatePrompt_def upd Let_def split_def)
    have "findPromptRouter promptId ?db2 = Some r" using Some fr2 by simp
    from updatePromptRouterVersion_active[OF this, of now "p_latestVersion head + 1"]
    have act: "getActiveRouterVersion promptId ?db3 = Some (p_latestVersion head + 1)"
      by (simp add: getActiveRouterVersion_def)
    have h3: "findPromptById promptId ?db3 = Some (merged_head head inp now)"
      using head2 by (simp add: findPromptById_def updatePromptRouterVersion_def)
    have ids: "map pr_id (promptRouters ?db3) = map pr_id (promptRouters db)"
      by (simp add: updatePromptRouterVersion_def routers2 map_pr_id_update)
    show ?thesis
      apply (rule exI[of _ ?db3])
      apply (intro conjI)
              apply (rule run)
             apply (rule h3)
            apply (simp add: updatePromptRouterVersion_def createPromptVersion_def Let_def
                merged_head_def nullish_def head_of_def [abs_def] cong: if_cong)
           apply (simp add: updatePromptRouterVersion_def createPromptVersion_def Let_def
                merged_head_def nullish_def cong: if_cong)
          apply (rule act)
         apply (simp add: Some)
        apply (simp add: ids)
       apply (simp add: updatePromptRouterVersion_def createPromptVersion_def Let_def)
      apply (simp add: updatePromptRouterVersion_def createPromptVersion_def Let_def)
      done
  qed
qed

lemma setRouterVersion_not_found:
  "findPromptVersion promptId v db = None \<Longrightarrow>
   setRouterVersion now promptId v db = (Inl VersionNotFound, db)"
  by (simp add: setRouterVersion_def)

lemma setRouterVersion_found:
  assumes ev: "findPromptVersion promptId v db = Some ev"
  shows "\<exists>db'. setRouterVersion now promptId v db = (Inr (), db')
     \<and> prompts db' = prompts db \<and> promptVersions db' = promptVersions db
     \<and> dataSets db' = dataSets db \<and> dataSetRecords db' = dataSetRecords db
     \<and> getActiveRouterVersion promptId db' = Some v
     \<and> getActivePromptVersion promptId db' = Some ev
     \<and> (findPromptRouter promptId db = None \<longrightarrow>
          promptRouters db' = promptRouters db @
            [\<lparr>pr_id = next_id (map pr_id (promptRouters db)), pr_promptId = e_id promptId,
              pr_tenantId = e_tenantId promptId, pr_projectId = e_projectId promptId,
              pr_version = v, pr_updatedAt = now\<rparr>])
     \<and> (\<forall>r. findPromptRouter promptId db = Some r \<longrightarrow>
          promptRouters db' =
            map (\<lambda>x. if pr_id x = pr_id r \<and> pr_tenantId x = e_tenantId promptId
                         \<and> pr_projectId x = e_projectId promptId
                      then x\<lparr>pr_version := v, pr_updatedAt := now\<rparr> else x)
              (promptRouters db))
     \<and> (distinct (map pr_id (promptRouters db)) \<longrightarrow>
          filter (\<lambda>x. \<not> router_of promptId x) (promptRouters db')
            = filter (\<lambda>x. \<not> router_of promptId x) (promptRouters db))"
proof (cases "findPromptRouter promptId db")
  case None
  let ?db' = "snd (createPromptRouter now
                   \<lparr>npr_promptId = e_id promptId, npr_tenantId = e_tenantId promptId,
                    npr_projectId = e_projectId promptId, npr_version = v\<rparr> db)"
  have run: "setRouterVersion now promptId v db = (Inr (), ?db')"
    using ev None by (simp add: setRouterVersion_def)
  have fr: "findPromptRouter promptId ?db' =
        Some \<lparr>pr_id = next_id (map pr_id (promptRouters db)), pr_promptId = e_id promptId,
                 pr_tenantId = e_tenantId promptId, pr_projectId = e_projectId promptId,
                 pr_version = v, pr_updatedAt = now\<rparr>"
    using None by (rule createPromptRouter_active)
  have vs: "promptVersions ?db' = promptVersions db"
    by (simp add: createPromptRouter_def Let_def)
  have act: "getActiveRouterVersion promptId ?db' = Some v"
    using fr by (simp add: getActiveRouterVersion_def)
  have actv: "getActivePromptVersion promptId ?db' = Some ev"
    using fr ev by (simp add: getActivePromptVersion_def findPromptVersion_def vs)
  show ?thesis
    apply (rule exI[of _ ?db'])
    apply (intro conjI)
            apply (rule run)
           apply (simp add: createPromptRouter_def Let_def)
          apply (rule vs)
         apply (simp add: createPromptRouter_def Let_def)
        apply (simp add: createPromptRouter_def Let_def)
       apply (rule act)
      apply (rule actv)
     apply (simp add: createPromptRouter_def Let_def)
    apply (simp add: None)
    apply (simp add: createPromptRouter_def Let_def router_of_def)
    done
next
  case (Some r)
  let ?g = "\<lambda>x. if pr_id x = pr_id r \<and> pr_tenantId x = e_tenantId promptId
                         \<and> pr_projectId x = e_projectId promptId
                      then x\<lparr>pr_version := v, pr_updatedAt := now\<rparr> else x"
  let ?db' = "updatePromptRouterVersion now promptId (pr_id r) v db"
  have run: "setRouterVersion now promptId v db = (Inr (), ?db')"
    using ev Some by (simp add: setRouterVersion_def)
  have fr: "findPromptRouter promptId ?db' = Some (r\<lparr>pr_version := v, pr_updatedAt := now\<rparr>)"
    using Some by (rule updatePromptRouterVersion_active)
  have vs: "promptVersions ?db' = promptVersions db"
    by (simp add: updatePromptRouterVersion_def)
  have act: "getActiveRouterVersion promptId ?db' = Some v"
    using fr by (simp add: getActiveRouterVersion_def)
  have actv: "getActivePromptVersion promptId ?db' = Some ev"
    using fr ev by (simp add: getActivePromptVersion_def findPromptVersion_def vs)
  have rs: "promptRouters ?db' = map ?g (promptRouters db)"
    by (simp add: updatePromptRouterVersion_def)
  from Some have r: "router_of promptId r" "r \<in> set (promptRouters db)"
    by (auto simp add: findPromptRouter_router dest: find_Some_D)
  have frame: "filter (\<lambda>x. \<not> router_of promptId x) (map ?g (promptRouters db))
            = filter (\<lambda>x. \<not> router_of promptId x) (promptRouters db)"
    if d: "distinct (map pr_id (promptRouters db))"
  proof (rule filter_map_unchanged)
    fix x assume x: "x \<in> set (promptRouters db)" and ch: "?g x \<noteq> x"
    from ch have "pr_id x = pr_id r" by (auto split: if_splits)
    with d x r(2) have "x = r" by (meson distinct_map inj_onD)
    with r(1) show "\<not> \<not> router_of promptId x \<and> \<not> \<not> router_of promptId (?g x)"
      by (simp add: router_of_def)
  qed
  show ?thesis
    apply (rule exI[of _ ?db'])
    apply (intro conjI)
            apply (rule run)
           apply (simp add: updatePromptRouterVersion_def)
          apply (rule vs)
         apply (simp add: updatePromptRouterVersion_def)
        apply (simp add: updatePromptRouterVersion_def)
       apply (rule act)
      apply (rule actv)
     apply (simp add: Some)
    apply (simp add: Some rs)
    apply (simp only: rs)
    apply (rule impI)
    apply (erule frame)
    done
qed

lemma update_then_rollback:
  assumes head: "findPromptById promptId db = Some head"
    and ev: "findPromptVersion promptId v db = Some ev"
    and free: "\<not> name_taken promptId (p_name (merged_head head inp now)) db"
  shows "\<exists>db1 db2 head2.
       updatePrompt now promptId inp db = (Inr 1, db1)
     \<and> setRouterVersion now' promptId v db1 = (Inr (), db2)
     \<and> getActivePromptVersion promptId db2 = Some ev
     \<and> findPromptById promptId db2 = Some head2
     \<and> p_latestVersion head2 = p_latestVersion head + 1"
proof -
  from updatePrompt_found[OF head free] obtain db1 where
    run1: "updatePrompt now promptId inp db = (Inr 1, db1)"
    and h1: "findPromptById promptId db1 = Some (merged_head head inp now)"
    and vs1: "promptVersions db1 = promptVersions db @
          [\<lparr>pv_id = next_id (map pv_id (promptVersions db)),
            pv_promptId = e_id promptId, pv_tenantId = e_tenantId promptId,
            pv_projectId = e_projectId promptId, pv_version = p_latestVersion head + 1,
            pv_name = p_name (merged_head head inp now),
            pv_provider = p_provider (merged_head head inp now),
            pv_model = p_model (merged_head head inp now),
            pv_body = p_body (merged_head head inp now),
            pv_slug = p_slug head, pv_createdAt = now\<rparr>]"
    by blast
  have ev1: "findPromptVersion promptId v db1 = Some ev"
    using ev by (simp add: findPromptVersion_def vs1 find_append)
  from setRouterVersion_found[OF ev1, of now'] obtain db2 where
    run2: "setRouterVersion now' promptId v db1 = (Inr (), db2)"
    and p2: "prompts db2 = prompts db1"
    and act: "getActivePromptVersion promptId db2 = Some ev"
    by blast
  have h2: "findPromptById promptId db2 = Some (merged_head head inp now)"
    using h1 by (simp add: findPromptById_def p2)
  have "p_latestVersion (merged_head head inp now) = p_latestVersion head + 1"
    by (simp add: merged_head_def)
  with run1 run2 act h2 show ?thesis by blast
qed

lemma copy_slug_1: "copy_slug src 1 = p_slug src @ ''-copy''"
  by (simp add: copy_slug_def)

lemma copy_slug_2: "copy_slug src 2 = p_slug src @ ''-copy-2''"
  by (simp add: copy_slug_def string_of_nat_2)

lemma copy_name_1: "copy_name src 1 = p_name src @ '' Copy''"
  by (simp add: copy_name_def)

lemma copy_name_2: "copy_name src 2 = p_name src @ '' Copy 2''"
  by (simp add: copy_name_def string_of_nat_2)

lemma copyPrompt_general:
  assumes src: "findPromptById promptId db = Some sourcePrompt"
  shows "\<exists>n. 1 \<le> n
     \<and> findPromptBySlug (getProjectId promptId) (copy_slug sourcePrompt n) db = None
     \<and> (\<forall>k. 1 \<le> k \<and> k < n \<longrightarrow>
            findPromptBySlug (getProjectId promptId) (copy_slug sourcePrompt k) db \<noteq> None)
     \<and> (name_in_use (e_tenantId promptId) (e_projectId promptId) (copy_name sourcePrompt n)
            (prompts db) \<longrightarrow>
          copyPrompt now promptId db = (Inl UniqueConstraintFailed, db))
     \<and> (\<not> name_in_use (e_tenantId promptId) (e_projectId promptId) (copy_name sourcePrompt n)
            (prompts db) \<longrightarrow>
          (\<exists>newPrompt. newPrompt =
          \<lparr>p_id = next_id (map p_id (prompts db)),
           p_tenantId = e_tenantId promptId, p_projectId = e_projectId promptId,
           p_name = copy_name sourcePrompt n, p_slug = copy_slug sourcePrompt n,
           p_provider = p_provider sourcePrompt, p_model = p_model sourcePrompt,
           p_body = p_body sourcePrompt, p_latestVersion = 1, p_isActive = True,
           p_createdAt = now, p_updatedAt = now\<rparr>
     \<and> p_id newPrompt \<notin> p_id ` set (prompts db)
     \<and> copyPrompt now promptId db =
          (Inr newPrompt,
           db\<lparr>prompts := prompts db @ [newPrompt],
              promptVersions := promptVersions db @
                [\<lparr>pv_id = next_id (map pv_id (promptVersions db)),
                  pv_promptId = p_id newPrompt, pv_tenantId = e_tenantId promptId,
                  pv_projectId = e_projectId promptId, pv_version = 1,
                  pv_name = copy_name sourcePrompt n, pv_provider = p_provider sourcePrompt,
                  pv_model = p_model sourcePrompt, pv_body = p_body sourcePrompt,
                  pv_slug = copy_slug sourcePrompt n, pv_createdAt = now\<rparr>],
              promptRouters := promptRouters db @
                [\<lparr>pr_id = next_id (map pr_id (promptRouters db)),
                  pr_promptId = p_id newPrompt, pr_tenantId = e_tenantId promptId,
                  pr_projectId = e_projectId promptId, pr_version = 1,
                  pr_updatedAt = now\<rparr>]\<rparr>)))"
proof -
  let ?pj = "getProjectId promptId"
  have st: "(p_name sourcePrompt @ '' Copy'', p_slug sourcePrompt @ ''-copy'', 1::nat)
            = (copy_name sourcePrompt 1, copy_slug sourcePrompt 1, 1)"
    by (simp add: copy_name_def copy_slug_def)
  from copyPrompt_loop_probe[OF st, of ?pj db] obtain m where m: "1 \<le> m"
    and loop: "copyPrompt_loop ?pj sourcePrompt db
        (p_name sourcePrompt @ '' Copy'', p_slug sourcePrompt @ ''-copy'', 1)
        = (copy_name sourcePrompt m, copy_slug sourcePrompt m, m)"
    and unused: "findPromptBySlug ?pj (copy_slug sourcePrompt m) db = None"
    and used: "\<forall>k. 1 \<le> k \<and> k < m \<longrightarrow> findPromptBySlug ?pj (copy_slug sourcePrompt k) db \<noteq> None"
    by auto
  from unused have slug: "\<not> slug_in_use (e_tenantId promptId) (e_projectId promptId)
      (copy_slug sourcePrompt m) (prompts db)"
    by (simp add: slug_in_use_find)
  let ?np = "\<lparr>p_id = next_id (map p_id (prompts db)),
           p_tenantId = e_tenantId promptId, p_projectId = e_projectId promptId,
           p_name = copy_name sourcePrompt m, p_slug = copy_slug sourcePrompt m,
           p_provider = p_provider sourcePrompt, p_model = p_model sourcePrompt,
           p_body = p_body sourcePrompt, p_latestVersion = 1, p_isActive = True,
           p_createdAt = now, p_updatedAt = now\<rparr>"
  have fresh: "p_id ?np \<notin> p_id ` set (prompts db)"
    using next_id_fresh[of "map p_id (prompts db)"] by simp
  have refused: "copyPrompt now promptId db = (Inl UniqueConstraintFailed, db)"
    if "name_in_use (e_tenantId promptId) (e_projectId promptId) (copy_name sourcePrompt m)
          (prompts db)"
    using src loop that by (simp add: copyPrompt_def repository_createPrompt_def Let_def)
  have run: "copyPrompt now promptId db =
          (Inr ?np,
           db\<lparr>prompts := prompts db @ [?np],
              promptVersions := promptVersions db @
                [\<lparr>pv_id = next_id (map pv_id (promptVersions db)),
                  pv_promptId = p_id ?np, pv_tenantId = e_tenantId promptId,
                  pv_projectId = e_projectId promptId, pv_version = 1,
                  pv_name = copy_name sourcePrompt m, pv_provider = p_provider sourcePrompt,
                  pv_model = p_model sourcePrompt, pv_body = p_body sourcePrompt,
                  pv_slug = copy_slug sourcePrompt m, pv_createdAt = now\<rparr>],
              promptRouters := promptRouters db @
                [\<lparr>pr_id = next_id (map pr_id (promptRouters db)),
                  pr_promptId = p_id ?np, pr_tenantId = e_tenantId promptId,
                  pr_projectId = e_projectId promptId, pr_version = 1,
                  pr_updatedAt = now\<rparr>]\<rparr>)"
    if "\<not> name_in_use (e_tenantId promptId) (e_projectId promptId) (copy_name sourcePrompt m)
          (prompts db)"
    using src loop slug that
    by (simp add: copyPrompt_def repository_createPrompt_def createPromptVersion_def
        createPromptRouter_def Let_def)
  show ?thesis
  proof (intro exI[of _ m] conjI impI)
    show "1 \<le> m" by (rule m)
    show "findPromptBySlug ?pj (copy_slug sourcePrompt m) db = None" by (rule unused)
    show "\<forall>k. 1 \<le> k \<and> k < m \<longrightarrow> findPromptBySlug ?pj (copy_slug sourcePrompt k) db \<noteq> None"
      by (rule used)
    show "copyPrompt now promptId db = (Inl UniqueConstraintFailed, db)"
      if "name_in_use (e_tenantId promptId) (e_projectId promptId) (copy_name sourcePrompt m)
            (prompts db)"
      using that by (rule refused)
    show "\<exists>newPrompt. newPrompt = ?np
       \<and> p_id newPrompt \<notin> p_id ` set (prompts db)
       \<and> copyPrompt now promptId db =
          (Inr newPrompt,
           db\<lparr>prompts := prompts db @ [newPrompt],
              promptVersions := promptVersions db @
                [\<lparr>pv_id = next_id (map pv_id (promptVersions db)),
                  pv_promptId = p_id newPrompt, pv_tenantId = e_tenantId promptId,
                  pv_projectId = e_projectId promptId, pv_version = 1,
                  pv_name = copy_name sourcePrompt m, pv_provider = p_provider sourcePrompt,
                  pv_model = p_model sourcePrompt, pv_body = p_body sourcePrompt,
                  pv_slug = copy_slug sourcePrompt m, pv_createdAt = now\<rparr>],
              promptRouters := promptRouters db @
                [\<lparr>pr_id = next_id (map pr_id (promptRouters db)),
                  pr_promptId = p_id newPrompt, pr_tenantId = e_tenantId promptId,
                  pr_projectId = e_projectId promptId, pr_version = 1,
                  pr_updatedAt = now\<rparr>]\<rparr>)"
      if "\<not> name_in_use (e_tenantId promptId) (e_projectId promptId) (copy_name sourcePrompt m)
            (prompts db)"
      using fresh run[OF that] by blast
  qed
qed

lemma copyPrompt_twice:
  assumes src: "findPromptById promptId db = Some src"
    and u1: "findPromptBySlug (getProjectId promptId) (p_slug src @ ''-copy'') db = None"
    and u2: "findPromptBySlug (getProjectId promptId) (p_slug src @ ''-copy-2'') db = None"
    and f1: "\<not> name_in_use (e_tenantId promptId) (e_projectId promptId) (p_name src @ '' Copy'')
               (prompts db)"
    and f2: "\<not> name_in_use (e_tenantId promptId) (e_projectId promptId) (p_name src @ '' Copy 2'')
               (prompts db)"
  shows "\<exists>first db1 second db2.
           copyPrompt now promptId db = (Inr first, db1)
         \<and> p_name first = p_name src @ '' Copy'' \<and> p_slug first = p_slug src @ ''-copy''
         \<and> copyPrompt now' promptId db1 = (Inr second, db2)
         \<and> p_name second = p_name src @ '' Copy 2'' \<and> p_slug second = p_slug src @ ''-copy-2''
         \<and> p_id second \<noteq> p_id first"
proof -
  let ?pj = "getProjectId promptId"
  let ?in_use = "name_in_use (e_tenantId promptId) (e_projectId promptId)"
  from copyPrompt_general[OF src, of now] obtain n where n: "1 \<le> n"
    and used: "\<forall>k. 1 \<le> k \<and> k < n \<longrightarrow> findPromptBySlug ?pj (copy_slug src k) db \<noteq> None"
    and res: "\<not> ?in_use (copy_name src n) (prompts db) \<longrightarrow>
          (\<exists>newPrompt. newPrompt =
          \<lparr>p_id = next_id (map p_id (prompts db)),
           p_tenantId = e_tenantId promptId, p_projectId = e_projectId promptId,
           p_name = copy_name src n, p_slug = copy_slug src n,
           p_provider = p_provider src, p_model = p_model src,
           p_body = p_body src, p_latestVersion = 1, p_isActive = True,
           p_createdAt = now, p_updatedAt = now\<rparr>
     \<and> p_id newPrompt \<notin> p_id ` set (prompts db)
     \<and> copyPrompt now promptId db =
          (Inr newPrompt,
           db\<lparr>prompts := prompts db @ [newPrompt],
              promptVersions := promptVersions db @
                [\<lparr>pv_id = next_id (map pv_id (promptVersions db)),
                  pv_promptId = p_id newPrompt, pv_tenantId = e_tenantId promptId,
                  pv_projectId = e_projectId promptId, pv_version = 1,
                  pv_name = copy_name src n, pv_provider = p_provider src,
                  pv_model = p_model src, pv_body = p_body src,
                  pv_slug = copy_slug src n, pv_createdAt = now\<rparr>],
              promptRouters := promptRouters db @
                [\<lparr>pr_id = next_id (map pr_id (promptRouters db)),
                  pr_promptId = p_id newPrompt, pr_tenantId = e_tenantId promptId,
                  pr_projectId = e_projectId promptId, pr_version = 1,
                  pr_updatedAt = now\<rparr>]\<rparr>))"
    by blast
  have n1: "n = 1"
  proof (rule ccontr)
    assume "n \<noteq> 1"
    with n have "1 \<le> (1::nat) \<and> 1 < n" by simp
    with used have "findPromptBySlug ?pj (copy_slug src 1) db \<noteq> None" by blast
    with u1 show False by (simp add: copy_slug_def)
  qed
  from f1 have "\<not> ?in_use (copy_name src n) (prompts db)"
    by (simp add: n1 copy_name_def)
  with res obtain np db1 where
    np: "np = \<lparr>p_id = next_id (map p_id (prompts db)),
           p_tenantId = e_tenantId promptId, p_projectId = e_projectId promptId,
           p_name = copy_name src n, p_slug = copy_slug src n,
           p_provider = p_provider src, p_model = p_model src,
           p_body = p_body src, p_latestVersion = 1, p_isActive = True,
           p_createdAt = now, p_updatedAt = now\<rparr>"
    and run1: "copyPrompt now promptId db = (Inr np, db1)"
    and db1: "prompts db1 = prompts db @ [np]"
    by (auto simp del: One_nat_def)
  have np_name: "p_name np = p_name src @ '' Copy''" and np_slug: "p_slug np = p_slug src @ ''-copy''"
    and np_t: "p_tenantId np = e_tenantId promptId" and np_p: "p_projectId np = e_projectId promptId"
    and np_i: "p_id np = next_id (map p_id (prompts db))"
    using np n1 by (simp_all add: copy_slug_def copy_name_def)
  have src1: "findPromptById promptId db1 = Some src"
    using src by (simp add: findPromptById_def db1 find_append)
  from copyPrompt_general[OF src1, of now'] obtain n' where n': "1 \<le> n'"
    and unused': "findPromptBySlug ?pj (copy_slug src n') db1 = None"
    and used': "\<forall>k. 1 \<le> k \<and> k < n' \<longrightarrow> findPromptBySlug ?pj (copy_slug src k) db1 \<noteq> None"
    and res': "\<not> ?in_use (copy_name src n') (prompts db1) \<longrightarrow>
          (\<exists>newPrompt. p_id newPrompt = next_id (map p_id (prompts db1))
             \<and> p_name newPrompt = copy_name src n' \<and> p_slug newPrompt = copy_slug src n'
             \<and> (\<exists>db2. copyPrompt now' promptId db1 = (Inr newPrompt, db2)))"
    by (auto simp del: One_nat_def)
  have one_used: "findPromptBySlug ?pj (copy_slug src 1) db1 \<noteq> None"
    using u1 np_slug np_t np_p
    by (simp add: findPromptBySlug_def db1 find_append copy_slug_def getProjectId_def)
  have two_unused: "findPromptBySlug ?pj (copy_slug src 2) db1 = None"
    using u2 np_slug
    by (simp add: findPromptBySlug_def db1 find_append copy_slug_2)
  have n2: "n' = 2"
  proof (rule ccontr)
    assume ne: "n' \<noteq> 2"
    have "n' \<noteq> 1" using unused' one_used by auto
    with n' ne have "1 \<le> (2::nat) \<and> 2 < n'" by simp
    with used' have "findPromptBySlug ?pj (copy_slug src 2) db1 \<noteq> None" by blast
    with two_unused show False by simp
  qed
  have "\<not> ?in_use (copy_name src n') (prompts db1)"
    using f2 np_name by (simp add: n2 copy_name_2 db1 name_in_use_def)
  with res' obtain np' db2 where
    np'_i: "p_id np' = next_id (map p_id (prompts db1))"
    and np'_n: "p_name np' = copy_name src n'" and np'_s: "p_slug np' = copy_slug src n'"
    and run2: "copyPrompt now' promptId db1 = (Inr np', db2)"
    by blast
  have "p_id np \<in> set (map p_id (prompts db1))" by (simp add: db1)
  then have "p_id np < next_id (map p_id (prompts db1))" by (rule next_id_greater)
  then have ids: "p_id np' \<noteq> p_id np" using np'_i by simp
  have "p_name np' = p_name src @ '' Copy 2''" "p_slug np' = p_slug src @ ''-copy-2''"
    using np'_n np'_s n2 by (simp_all add: copy_slug_2 copy_name_2)
  with run1 run2 np_name np_slug ids show ?thesis by blast
qed

section \<open>Claims about prompt versioning\<close>

lemma demo_head: "findPromptById demo_entity demo_db = Some demo_prompt"
  by (simp add: findPromptById_def demo_entity_def demo_db_def demo_prompt_def empty_database_def)

lemma demo_entry: "findPromptVersion demo_entity 1 demo_db = Some demo_version"
  by (simp add: findPromptVersion_def demo_entity_def demo_db_def demo_version_def
      empty_database_def)

text \<open>
  Claim C1, as the specification states it, fails: in the database that holds the
  prompts \<open>X\<close> and \<open>X Copy\<close> of one scope, the Head of \<open>X\<close> exists, yet an update of
  \<open>X\<close> that sets its name to \<open>X Copy\<close> is refused by the prompts table: it fails and
  writes nothing, so no Ledger Entry is appended and the Router is not advanced.
\<close>

theorem updatePrompt_counterexample:
  "findPromptById demo_entity rival_db = Some demo_prompt
   \<and> updatePrompt 5 demo_entity
         \<lparr>ui_name = Some ''X Copy'', ui_provider = None, ui_model = None, ui_body = None\<rparr>
         rival_db = (Inl UniqueConstraintFailed, rival_db)
   \<and> promptVersions rival_db = [demo_version, rival_version]
   \<and> getActiveRouterVersion demo_entity rival_db = Some 1"
  by (simp add: updatePrompt_def repository_updatePrompt_def findPromptById_def
      getActiveRouterVersion_def findPromptRouter_def name_in_use_def nullish_def Let_def
      demo_entity_def rival_db_def demo_prompt_def rival_prompt_def demo_router_def
      rival_router_def empty_database_def)

text \<open>
  Claim C1, amended. If no Head matches the scope, \<open>updatePrompt\<close> fails with "Prompt not
  found" and leaves the database as it was. If a Head matches and the merged name is
  held by another prompt of the scope, the write to the Head is refused and the update
  fails, leaving the database as it was. If a Head matches and no other prompt of the
  scope holds the merged name, the update succeeds; the Head then holds the partial
  input merged over its former fields (an omitted field keeps its value) and
  \<open>latestVersion\<close> one higher, and no other prompt row has changed; exactly one Ledger
  Entry has been appended, at the new version and with the merged fields and the Head's
  slug; the Router of the parent points at the new version, by a new row when there
  was none and with no new row otherwise; the dataset tables are untouched.
\<close>

theorem updatePrompt_spec:
  "(findPromptById promptId db = None \<longrightarrow>
      updatePrompt now promptId inp db = (Inl PromptNotFound, db))
   \<and> (\<forall>head. findPromptById promptId db = Some head
          \<and> name_taken promptId (p_name (merged_head head inp now)) db \<longrightarrow>
        updatePrompt now promptId inp db = (Inl UniqueConstraintFailed, db))
   \<and> (\<forall>head. findPromptById promptId db = Some head
          \<and> \<not> name_taken promptId (p_name (merged_head head inp now)) db \<longrightarrow>
        (\<exists>db'. updatePrompt now promptId inp db = (Inr 1, db')
     \<and> findPromptById promptId db' = Some (merged_head head inp now)
     \<and> prompts db' =
          map (\<lambda>p. if head_of promptId p
                    then p\<lparr>p_name := p_name (merged_head head inp now),
                           p_provider := p_provider (merged_head head inp now),
                           p_model := p_model (merged_head head inp now),
                           p_body := p_body (merged_head head inp now),
                           p_latestVersion := p_latestVersion head + 1,
                           p_updatedAt := now\<rparr>
                    else p) (prompts db)
     \<and> promptVersions db' = promptVersions db @
          [\<lparr>pv_id = next_id (map pv_id (promptVersions db)),
            pv_promptId = e_id promptId, pv_tenantId = e_tenantId promptId,
            pv_projectId = e_projectId promptId, pv_version = p_latestVersion head + 1,
            pv_name = p_name (merged_head head inp now),
            pv_provider = p_provider (merged_head head inp now),
            pv_model = p_model (merged_head head inp now),
            pv_body = p_body (merged_head head inp now),
            pv_slug = p_slug head, pv_createdAt = now\<rparr>]
     \<and> getActiveRouterVersion promptId db' = Some (p_latestVersion head + 1)
     \<and> (findPromptRouter promptId db = None \<longrightarrow>
          promptRouters db' = promptRouters db @
            [\<lparr>pr_id = next_id (map pr_id (promptRouters db)), pr_promptId = e_id promptId,
              pr_tenantId = e_tenantId promptId, pr_projectId = e_projectId promptId,
              pr_version = p_latestVersion head + 1, pr_updatedAt = now\<rparr>])
     \<and> (findPromptRouter promptId db \<noteq> None \<longrightarrow>
          map pr_id (promptRouters db') = map pr_id (promptRouters db))
     \<and> dataSets db' = dataSets db \<and> dataSetRecords db' = dataSetRecords db))"
  by (intro conjI allI impI;
      (erule updatePrompt_not_found
       | (elim conjE, erule (1) updatePrompt_refused)
       | (elim conjE, erule (1) updatePrompt_found)))

theorem updatePrompt_spec_witness:
  "findPromptById demo_entity demo_db = Some demo_prompt
   \<and> \<not> name_taken demo_entity ''X'' demo_db
   \<and> (\<exists>db'. updatePrompt 5 demo_entity
              \<lparr>ui_name = None, ui_provider = None, ui_model = None, ui_body = Some ''v2''\<rparr>
              demo_db = (Inr 1, db')
          \<and> findPromptById demo_entity db'
              = Some (demo_prompt\<lparr>p_body := ''v2'', p_latestVersion := 2, p_updatedAt := 5\<rparr>)
          \<and> length (promptVersions db') = 2
          \<and> getActiveRouterVersion demo_entity db' = Some 2)
   \<and> findPromptById demo_entity rival_db = Some demo_prompt
   \<and> name_taken demo_entity ''X Copy'' rival_db
   \<and> updatePrompt 5 demo_entity
         \<lparr>ui_name = Some ''X Copy'', ui_provider = None, ui_model = None, ui_body = Some ''v2''\<rparr>
         rival_db = (Inl UniqueConstraintFailed, rival_db)"
proof -
  let ?inp = "\<lparr>ui_name = None, ui_provider = None, ui_model = None, ui_body = Some ''v2''\<rparr>"
  let ?inp' = "\<lparr>ui_name = Some ''X Copy'', ui_provider = None, ui_model = None,
                 ui_body = Some ''v2''\<rparr>"
  have m: "merged_head demo_prompt ?inp 5
             = demo_prompt\<lparr>p_body := ''v2'', p_latestVersion := 2, p_updatedAt := 5\<rparr>"
    by (simp add: merged_head_def demo_prompt_def)
  have mn: "p_name (merged_head demo_prompt ?inp 5) = ''X''"
    and mn': "p_name (merged_head demo_prompt ?inp' 5) = ''X Copy''"
    by (simp_all add: merged_head_def demo_prompt_def)
  have free: "\<not> name_taken demo_entity ''X'' demo_db"
    by (simp add: name_taken_def name_in_use_def head_of_def demo_entity_def demo_db_def
        demo_prompt_def empty_database_def)
  have taken: "name_taken demo_entity ''X Copy'' rival_db"
    by (simp add: name_taken_def name_in_use_def head_of_def demo_entity_def rival_db_def
        demo_prompt_def rival_prompt_def empty_database_def)
  have l: "p_latestVersion demo_prompt + 1 = 2" by (simp add: demo_prompt_def)
  have n: "length (promptVersions demo_db) = 1" by (simp add: demo_db_def empty_database_def)
  have h: "findPromptById demo_entity demo_db = Some demo_prompt
      \<and> \<not> name_taken demo_entity (p_name (merged_head demo_prompt ?inp 5)) demo_db"
    using demo_head free by (simp only: mn simp_thms)
  have h': "findPromptById demo_entity rival_db = Some demo_prompt
      \<and> name_taken demo_entity (p_name (merged_head demo_prompt ?inp' 5)) rival_db"
    using rival_head taken by (simp only: mn' simp_thms)
  note spec = updatePrompt_spec[of demo_entity demo_db 5 ?inp]
  note spec' = updatePrompt_spec[of demo_entity rival_db 5 ?inp']
  from spec[THEN conjunct2, THEN conjunct2, rule_format, OF h]
  obtain db' where run: "updatePrompt 5 demo_entity ?inp demo_db = (Inr 1, db')"
    and head: "findPromptById demo_entity db' = Some (merged_head demo_prompt ?inp 5)"
    and entries: "promptVersions db' = promptVersions demo_db @
          [\<lparr>pv_id = next_id (map pv_id (promptVersions demo_db)),
            pv_promptId = e_id demo_entity, pv_tenantId = e_tenantId demo_entity,
            pv_projectId = e_projectId demo_entity, pv_version = p_latestVersion demo_prompt + 1,
            pv_name = p_name (merged_head demo_prompt ?inp 5),
            pv_provider = p_provider (merged_head demo_prompt ?inp 5),
            pv_model = p_model (merged_head demo_prompt ?inp 5),
            pv_body = p_body (merged_head demo_prompt ?inp 5),
            pv_slug = p_slug demo_prompt, pv_createdAt = 5\<rparr>]"
    and router: "getActiveRouterVersion demo_entity db' = Some (p_latestVersion demo_prompt + 1)"
    by (elim exE conjE)
  have "length (promptVersions db') = 2" by (simp add: entries n)
  with run head router
  have ex: "\<exists>db'. updatePrompt 5 demo_entity ?inp demo_db = (Inr 1, db')
          \<and> findPromptById demo_entity db'
              = Some (demo_prompt\<lparr>p_body := ''v2'', p_latestVersion := 2, p_updatedAt := 5\<rparr>)
          \<and> length (promptVersions db') = 2
          \<and> getActiveRouterVersion demo_entity db' = Some 2"
    by (intro exI[of _ db']) (simp add: m l)
  have refused: "updatePrompt 5 demo_entity ?inp' rival_db = (Inl UniqueConstraintFailed, rival_db)"
    by (rule spec'[THEN conjunct2, THEN conjunct1, rule_format, OF h'])
  show ?thesis
    by (intro conjI demo_head free ex rival_head taken refused)
qed

text \<open>
  Claim C2. \<open>setRouterVersion\<close> fails with "Version not found", changing nothing, when
  the parent has no Ledger Entry at exactly that version under the scope. When it has
  one, the call succeeds and the Router of the parent points at that version (a new
  row when there was none, the existing row overwritten otherwise), \<open>getActive\<close> returns
  that entry, and nothing else changes: the prompts, their \<open>latestVersion\<close> and the
  Ledger are as before, and, primary keys being distinct, so is every Router row of
  another parent. Hence after an update (of a Head whose merged name no other prompt of
  the scope holds, so that the update is not refused) followed by \<open>setRouterVersion\<close> to
  an earlier version, \<open>getActive\<close> returns the earlier entry while \<open>latestVersion\<close> is the
  updated one: version 1's content and \<open>latestVersion = 2\<close> in the scenario of the
  specification.
\<close>

theorem setRouterVersion_spec:
  "(findPromptVersion promptId v db = None \<longrightarrow>
      setRouterVersion now promptId v db = (Inl VersionNotFound, db))
   \<and> (\<forall>ev. findPromptVersion promptId v db = Some ev \<longrightarrow>
        (\<exists>db'. setRouterVersion now promptId v db = (Inr (), db')
     \<and> prompts db' = prompts db \<and> promptVersions db' = promptVersions db
     \<and> dataSets db' = dataSets db \<and> dataSetRecords db' = dataSetRecords db
     \<and> getActiveRouterVersion promptId db' = Some v
     \<and> getActivePromptVersion promptId db' = Some ev
     \<and> (findPromptRouter promptId db = None \<longrightarrow>
          promptRouters db' = promptRouters db @
            [\<lparr>pr_id = next_id (map pr_id (promptRouters db)), pr_promptId = e_id promptId,
              pr_tenantId = e_tenantId promptId, pr_projectId = e_projectId promptId,
              pr_version = v, pr_updatedAt = now\<rparr>])
     \<and> (\<forall>r. findPromptRouter promptId db = Some r \<longrightarrow>
          promptRouters db' =
            map (\<lambda>x. if pr_id x = pr_id r \<and> pr_tenantId x = e_tenantId promptId
                         \<and> pr_projectId x = e_projectId promptId
                      then x\<lparr>pr_version := v, pr_updatedAt := now\<rparr> else x)
              (promptRouters db))
     \<and> (distinct (map pr_id (promptRouters db)) \<longrightarrow>
          filter (\<lambda>x. \<not> router_of promptId x) (promptRouters db')
            = filter (\<lambda>x. \<not> router_of promptId x) (promptRouters db))))
   \<and> (\<forall>head ev inp now'. findPromptById promptId db = Some head
          \<and> findPromptVersion promptId v db = Some ev
          \<and> \<not> name_taken promptId (p_name (merged_head head inp now)) db \<longrightarrow>
        (\<exists>db1 db2 head2.
           updatePrompt now promptId inp db = (Inr 1, db1)
         \<and> setRouterVersion now' promptId v db1 = (Inr (), db2)
         \<and> getActivePromptVersion promptId db2 = Some ev
         \<and> findPromptById promptId db2 = Some head2
         \<and> p_latestVersion head2 = p_latestVersion head + 1))"
  by (intro conjI allI impI;
      (erule setRouterVersion_not_found | erule setRouterVersion_found
       | (elim conjE, erule (2) update_then_rollback)))

theorem setRouterVersion_spec_witness:
  "findPromptById demo_entity demo_db = Some demo_prompt
   \<and> p_latestVersion demo_prompt = 1
   \<and> findPromptVersion demo_entity 1 demo_db = Some demo_version
   \<and> pv_body demo_version = ''v1''
   \<and> (\<exists>db1 db2 head2.
         updatePrompt 5 demo_entity
           \<lparr>ui_name = None, ui_provider = None, ui_model = None, ui_body = Some ''v2''\<rparr>
           demo_db = (Inr 1, db1)
       \<and> setRouterVersion 6 demo_entity 1 db1 = (Inr (), db2)
       \<and> getActivePromptVersion demo_entity db2 = Some demo_version
       \<and> findPromptById demo_entity db2 = Some head2
       \<and> p_latestVersion head2 = 2)"
proof -
  let ?inp = "\<lparr>ui_name = None, ui_provider = None, ui_model = None, ui_body = Some ''v2''\<rparr>"
  have l: "p_latestVersion demo_prompt = 1" by (simp add: demo_prompt_def)
  have b: "pv_body demo_version = ''v1''" by (simp add: demo_version_def)
  have free: "\<not> name_taken demo_entity (p_name (merged_head demo_prompt ?inp 5)) demo_db"
    by (simp add: name_taken_def name_in_use_def head_of_def demo_entity_def demo_db_def
        demo_prompt_def empty_database_def merged_head_def)
  from setRouterVersion_spec[of demo_entity 1 demo_db 5] demo_head demo_entry free
  have "\<exists>db1 db2 head2.
           updatePrompt 5 demo_entity ?inp demo_db = (Inr 1, db1)
         \<and> setRouterVersion 6 demo_entity 1 db1 = (Inr (), db2)
         \<and> getActivePromptVersion demo_entity db2 = Some demo_version
         \<and> findPromptById demo_entity db2 = Some head2
         \<and> p_latestVersion head2 = p_latestVersion demo_prompt + 1"
    by blast
  with demo_head demo_entry l b show ?thesis by simp
qed

text \<open>
  Claim C3, as the specification states it, fails: with a Router row whose version has
  no Ledger Entry (the database after \<open>createPrompt\<close> with the Ledger Entries deleted),
  \<open>getActivePromptVersion\<close> returns \<open>null\<close>; it raises no error, and \<open>null\<close> is returned
  although a Router row exists.
\<close>

theorem getActivePromptVersion_counterexample:
  "findPromptRouter demo_entity dangling_db = Some demo_router
   \<and> findPromptVersion demo_entity (pr_version demo_router) dangling_db = None
   \<and> getActivePromptVersion demo_entity dangling_db = None"
  by (simp add: getActivePromptVersion_def findPromptRouter_def findPromptVersion_def
      dangling_db_def demo_db_def empty_database_def demo_entity_def demo_router_def)

text \<open>
  Claim C3, amended. \<open>getActivePromptVersion\<close> returns \<open>null\<close> exactly when the parent
  has no Router row under the scope or the version of its Router row has no Ledger
  Entry of the parent under the scope; otherwise it returns a Ledger Entry of the
  parent at the version of the Router row. It never raises an error: its result is an
  entry or \<open>null\<close>.
\<close>

theorem getActivePromptVersion_spec:
  "(getActivePromptVersion promptId db = None \<longleftrightarrow>
      (\<forall>r\<in>set (promptRouters db). \<not> router_of promptId r)
      \<or> (\<exists>r. findPromptRouter promptId db = Some r
            \<and> (\<forall>e\<in>set (promptVersions db). \<not> (entry_of promptId e \<and> pv_version e = pr_version r))))
   \<and> (\<forall>e. getActivePromptVersion promptId db = Some e \<longrightarrow>
         e \<in> set (promptVersions db) \<and> entry_of promptId e
         \<and> (\<exists>r. findPromptRouter promptId db = Some r \<and> router_of promptId r
                \<and> r \<in> set (promptRouters db) \<and> pv_version e = pr_version r))"
proof (cases "findPromptRouter promptId db")
  case None
  then have "\<forall>r\<in>set (promptRouters db). \<not> router_of promptId r"
    by (simp add: findPromptRouter_router find_None_set)
  with None show ?thesis by (simp add: getActivePromptVersion_def)
next
  case (Some r)
  then have r: "router_of promptId r" "r \<in> set (promptRouters db)"
    by (auto simp add: findPromptRouter_router dest: find_Some_D)
  have ga: "getActivePromptVersion promptId db = findPromptVersion promptId (pr_version r) db"
    using Some by (simp add: getActivePromptVersion_def)
  have n: "(findPromptVersion promptId (pr_version r) db = None)
        = (\<forall>e\<in>set (promptVersions db). \<not> (entry_of promptId e \<and> pv_version e = pr_version r))"
    by (simp add: findPromptVersion_entry find_None_set)
  have s: "e \<in> set (promptVersions db) \<and> entry_of promptId e \<and> pv_version e = pr_version r"
    if "findPromptVersion promptId (pr_version r) db = Some e" for e
    using that by (auto simp add: findPromptVersion_entry dest: find_Some_D)
  from r have ex: "\<not> (\<forall>r\<in>set (promptRouters db). \<not> router_of promptId r)" by blast
  show ?thesis
    using Some r ga n s ex by auto
qed

theorem getActivePromptVersion_spec_witness:
  "getActivePromptVersion demo_entity demo_db = Some demo_version
   \<and> demo_version \<in> set (promptVersions demo_db) \<and> entry_of demo_entity demo_version
   \<and> findPromptRouter demo_entity demo_db = Some demo_router
   \<and> pv_version demo_version = pr_version demo_router"
proof -
  have g: "getActivePromptVersion demo_entity demo_db = Some demo_version"
    by (simp add: getActivePromptVersion_def findPromptRouter_def findPromptVersion_def
        demo_db_def empty_database_def demo_entity_def demo_router_def demo_version_def)
  have r: "findPromptRouter demo_entity demo_db = Some demo_router"
    by (simp add: findPromptRouter_def demo_db_def empty_database_def demo_entity_def
        demo_router_def)
  from getActivePromptVersion_spec[of demo_entity demo_db] g r
  have "demo_version \<in> set (promptVersions demo_db) \<and> entry_of demo_entity demo_version
        \<and> pv_version demo_version = pr_version demo_router"
    by auto
  with g r show ?thesis by simp
qed

text \<open>
  Claim C8. The route documents \<open>copyPrompt\<close> as generating a unique name and slug, but
  the loop probes the slug only. In the database that holds the prompts \<open>X\<close> (slug \<open>x\<close>)
  and \<open>X Copy\<close> (slug \<open>other\<close>) of one scope, both made by \<open>createPrompt\<close>, the source
  \<open>X\<close> exists and the slug \<open>x-copy\<close> is unused, so the loop stops at the first candidate
  and \<open>copyPrompt\<close> inserts the name \<open>X Copy\<close>, which the prompts table refuses: the copy
  fails and no parent, Ledger Entry or Router row is created. (Whenever no prompt of
  the scope holds the candidate name, the copy is as the claim says: lemmas
  \<open>copyPrompt_general\<close> and \<open>copyPrompt_twice\<close>.)
\<close>

theorem copyPrompt_name_collision:
  "createPrompt 1 demo_project
     \<lparr>ci_name = ''X Copy'', ci_slug = ''other'', ci_provider = ''openai'', ci_model = ''gpt-4'',
      ci_body = ''w1''\<rparr> demo_db = (Inr rival_prompt, rival_db)
   \<and> findPromptById demo_entity rival_db = Some demo_prompt
   \<and> findPromptBySlug (getProjectId demo_entity) ''x-copy'' rival_db = None
   \<and> copyPrompt_loop (getProjectId demo_entity) demo_prompt rival_db (''X Copy'', ''x-copy'', 1)
       = (''X Copy'', ''x-copy'', 1)
   \<and> copyPrompt 5 demo_entity rival_db = (Inl UniqueConstraintFailed, rival_db)"
proof -
  have u: "findPromptBySlug (getProjectId demo_entity) ''x-copy'' rival_db = None"
    by (simp add: findPromptBySlug_def getProjectId_def demo_entity_def rival_db_def
        demo_prompt_def rival_prompt_def empty_database_def)
  have loop: "copyPrompt_loop (getProjectId demo_entity) demo_prompt rival_db
      (''X Copy'', ''x-copy'', 1) = (''X Copy'', ''x-copy'', 1)"
    by (subst copyPrompt_loop.simps) (simp add: u)
  have n: "p_name demo_prompt @ '' Copy'' = ''X Copy''" "p_slug demo_prompt @ ''-copy'' = ''x-copy''"
    by (simp_all add: demo_prompt_def)
  have taken: "name_in_use (e_tenantId demo_entity) (e_projectId demo_entity) ''X Copy''
      (prompts rival_db)"
    by (simp add: name_in_use_def demo_entity_def rival_db_def demo_prompt_def rival_prompt_def
        empty_database_def)
  have "copyPrompt 5 demo_entity rival_db = (Inl UniqueConstraintFailed, rival_db)"
    using rival_head loop taken
    by (simp add: copyPrompt_def repository_createPrompt_def Let_def n)
  with rival_db_created rival_head u loop show ?thesis by simp
qed

section \<open>The loop of createDataSet\<close>

lemma finite_dataset_slugs_in_use: "finite {s. dataSets_findBySlug ctx s db \<noteq> None}"
proof (rule finite_subset)
  show "{s. dataSets_findBySlug ctx s db \<noteq> None} \<subseteq> ds_slug ` set (dataSets db)"
    by (auto simp add: dataSets_findBySlug_def find_None_iff)
  show "finite (ds_slug ` set (dataSets db))" by simp
qed

lemma datasets_in_use_less:
  assumes "dataSets_findBySlug ctx (baseSlug @ ''-'' @ string_of_nat (Suc n)) db \<noteq> None"
  shows "card (datasets_in_use ctx baseSlug db (Suc n)) < card (datasets_in_use ctx baseSlug db n)"
proof -
  let ?U = "{s. dataSets_findBySlug ctx s db \<noteq> None}"
  let ?f = "\<lambda>k. baseSlug @ ''-'' @ string_of_nat k"
  have "?f (Suc n) \<in> ?U" using assms by simp
  with inj_numbered finite_dataset_slugs_in_use
  have "card {k. Suc n < k \<and> ?f k \<in> ?U} < card {k. n < k \<and> ?f k \<in> ?U}"
    by (rule probe_card_less)
  then show ?thesis by (simp add: datasets_in_use_def)
qed

text \<open>The loop of \<open>createDataSet\<close> ends on every database.\<close>

termination createDataSet_loop
proof (relation "measure createDataSet_measure")
  show "wf (measure createDataSet_measure)" by simp
next
  fix ctx :: TenantProjectContext and baseSlug :: string and db :: database
    and slug :: string and attempt :: nat and x2 :: DataSet
  assume found: "dataSets_findBySlug ctx slug db = Some x2"
  let ?slug = "baseSlug @ ''-'' @ string_of_nat (attempt + 1)"
  have old: "createDataSet_measure (ctx, baseSlug, db, slug, attempt)
             = 1 + card (datasets_in_use ctx baseSlug db attempt)"
    using found by (simp add: createDataSet_measure_def)
  have new: "createDataSet_measure (ctx, baseSlug, db, ?slug, attempt + 1)
             < 1 + card (datasets_in_use ctx baseSlug db attempt)"
  proof (cases "dataSets_findBySlug ctx ?slug db = None")
    case True
    then show ?thesis by (simp add: createDataSet_measure_def)
  next
    case False
    then have "card (datasets_in_use ctx baseSlug db (Suc attempt))
                 < card (datasets_in_use ctx baseSlug db attempt)"
      by (intro datasets_in_use_less) simp
    with False show ?thesis by (simp add: createDataSet_measure_def)
  qed
  from old new
  show "((ctx, baseSlug, db, ?slug, attempt + 1), (ctx, baseSlug, db, slug, attempt))
        \<in> measure createDataSet_measure"
    by simp
qed

declare createDataSet_loop.simps [simp del]

section \<open>The Aggregate Counter\<close>

lemma length_filter_split:
  "(\<And>x. H x \<Longrightarrow> L x) \<Longrightarrow>
   length (filter L xs) = length (filter H xs) + length (filter (\<lambda>x. L x \<and> \<not> H x) xs)"
  by (induction xs) auto

lemma incrementRecordCountBy_records [simp]:
  "dataSetRecords (incrementRecordCountBy now e a db) = dataSetRecords db"
  by (simp add: incrementRecordCountBy_def)

lemma updateSchema_records [simp]:
  "dataSetRecords (updateSchema now e sc db) = dataSetRecords db"
  by (simp add: updateSchema_def)

lemma live_count_cong: "dataSetRecords db' = dataSetRecords db \<Longrightarrow> live_count e db' = live_count e db"
  by (simp add: live_count_def)

lemma incrementRecordCountBy_counts:
  "map ds_countOfRecords (dataSets (incrementRecordCountBy now e a db))
   = map (\<lambda>d. if dataset_of e d then ds_countOfRecords d + a else ds_countOfRecords d) (dataSets db)"
  by (simp add: incrementRecordCountBy_def dataset_of_def cong: if_cong)

lemma updateSchema_counts:
  "map ds_countOfRecords (dataSets (updateSchema now e sc db)) = map ds_countOfRecords (dataSets db)"
  by (simp add: updateSchema_def cong: if_cong)

lemma counter_exact_keyed:
  "counter_exact e db \<longleftrightarrow>
     (\<forall>(k, c)\<in>set (keyed_counts db). k = (e_tenantId e, e_projectId e, e_id e) \<longrightarrow> c = live_count e db)"
  by (auto simp add: counter_exact_def keyed_counts_def dataset_of_def)

lemma createDataSetRecord_not_found:
  "dataSets_findById e db = None \<Longrightarrow> createDataSetRecord rt now e v db = (Inl DatasetNotFound, db)"
  by (simp add: createDataSetRecord_def)

lemma createDataSetRecord_found:
  assumes "dataSets_findById e db = Some ds"
  shows "createDataSetRecord rt now e v db =
     (Inr (new_record rt now e v db),
      updateSchema now e
        (JSON_stringify rt (schema_json (mergeSchema (parseSchema rt (ds_schema ds)) v)))
        (incrementRecordCountBy now e 1
           (db\<lparr>dataSetRecords := dataSetRecords db @ [new_record rt now e v db]\<rparr>)))"
  using assms
  by (simp add: createDataSetRecord_def createMany_def Let_def new_record_def)

lemma keyed_counts_increment:
  "keyed_counts (incrementRecordCountBy now e a db)
   = map (\<lambda>(k, c). if k = (e_tenantId e, e_projectId e, e_id e) then (k, c + a) else (k, c))
       (keyed_counts db)"
  by (simp add: keyed_counts_def incrementRecordCountBy_def o_def cong: if_cong)

lemma keyed_counts_updateSchema: "keyed_counts (updateSchema now e sc db) = keyed_counts db"
  by (simp add: keyed_counts_def updateSchema_def o_def cong: if_cong)

lemma keyed_counts_records: "keyed_counts (db\<lparr>dataSetRecords := rs\<rparr>) = keyed_counts db"
  by (simp add: keyed_counts_def)

lemma live_record_of_new:
  "live_record_of e (new_record rt now e' v db) = same_key e e'"
  by (auto simp add: live_record_of_def new_record_def same_key_def)

lemma shift_exact:
  assumes "\<forall>(k, c)\<in>set kcs. k = key \<longrightarrow> c = (n::int)"
  shows "\<forall>(k, c)\<in>set (map (\<lambda>(k, c). if k = key' then (k, c + a) else (k, c)) kcs).
           k = key \<longrightarrow> c = n + (if key = key' then a else 0)"
  using assms by (fastforce split: if_splits)

lemma key_eq_same_key:
  "((e_tenantId e, e_projectId e, e_id e) = (e_tenantId e', e_projectId e', e_id e')) = same_key e e'"
  by (auto simp add: same_key_def)

lemma createDataSetRecord_counter:
  assumes "counter_exact e db"
  shows "counter_exact e (snd (createDataSetRecord rt now e' v db))"
proof (cases "dataSets_findById e' db")
  case None
  with assms show ?thesis by (simp add: createDataSetRecord_not_found)
next
  case (Some ds)
  let ?db1 = "db\<lparr>dataSetRecords := dataSetRecords db @ [new_record rt now e' v db]\<rparr>"
  let ?db' = "snd (createDataSetRecord rt now e' v db)"
  have kc: "keyed_counts ?db' =
      map (\<lambda>(k, c). if k = (e_tenantId e', e_projectId e', e_id e') then (k, c + 1) else (k, c))
       (keyed_counts db)"
    by (simp add: createDataSetRecord_found[OF Some] keyed_counts_updateSchema
        keyed_counts_increment keyed_counts_records)
  have lc: "live_count e ?db' = live_count e db + (if same_key e e' then 1 else 0)"
    by (simp add: createDataSetRecord_found[OF Some] live_count_def live_record_of_new)
  from assms have "\<forall>(k, c)\<in>set (keyed_counts db).
      k = (e_tenantId e, e_projectId e, e_id e) \<longrightarrow> c = live_count e db"
    by (simp only: counter_exact_keyed)
  from shift_exact[OF this, of "(e_tenantId e', e_projectId e', e_id e')" 1]
  show ?thesis
    by (simp only: counter_exact_keyed kc lc key_eq_same_key)
qed

lemma softDeleteMany_hit:
  "softDeleteMany e ids db =
     (int (length (filter (hit e ids) (dataSetRecords db))),
      db\<lparr>dataSetRecords := map (\<lambda>r. if hit e ids r then r\<lparr>r_isDeleted := True\<rparr> else r)
                               (dataSetRecords db)\<rparr>)"
proof (cases "ids = []")
  case True
  then show ?thesis by (simp add: softDeleteMany_def hit_def)
next
  case False
  have h: "(r_tenantId r = e_tenantId e \<and> r_projectId r = e_projectId e
               \<and> r_dataSetId r = e_id e \<and> r_id r \<in> set ids \<and> r_isDeleted r = False)
           = hit e ids r" for r
    by (auto simp add: hit_def live_record_of_def)
  from False show ?thesis by (simp only: softDeleteMany_def Let_def h if_False)
qed

lemma deleteDataSetRecords_hit:
  "deleteDataSetRecords now e ids db =
     (int (length (filter (hit e ids) (dataSetRecords db))),
      incrementRecordCountBy now e (- int (length (filter (hit e ids) (dataSetRecords db))))
        (db\<lparr>dataSetRecords := map (\<lambda>r. if hit e ids r then r\<lparr>r_isDeleted := True\<rparr> else r)
                               (dataSetRecords db)\<rparr>))"
  by (simp add: deleteDataSetRecords_def softDeleteMany_hit incrementRecordCountBy_def)

lemma live_after_soft_delete:
  "length (filter (live_record_of e
                    \<circ> (\<lambda>r. if hit e' ids r then r\<lparr>r_isDeleted := True\<rparr> else r)) rs)
   = length (filter (\<lambda>r. live_record_of e r \<and> \<not> hit e' ids r) rs)"
  by (induction rs) (auto simp add: live_record_of_def)

lemma hit_same_key: "same_key e e' \<Longrightarrow> hit e' ids r \<Longrightarrow> live_record_of e r"
  by (simp add: hit_def live_record_of_def same_key_def)

lemma hit_other_key: "\<not> same_key e e' \<Longrightarrow> hit e' ids r \<Longrightarrow> \<not> live_record_of e r"
  by (auto simp add: hit_def live_record_of_def same_key_def)

lemma live_count_soft_delete:
  "live_count e (db\<lparr>dataSetRecords := map (\<lambda>r. if hit e' ids r then r\<lparr>r_isDeleted := True\<rparr> else r)
                               (dataSetRecords db)\<rparr>)
   = live_count e db
     - (if same_key e e' then int (length (filter (hit e' ids) (dataSetRecords db))) else 0)"
proof (cases "same_key e e'")
  case True
  have "length (filter (live_record_of e) (dataSetRecords db))
        = length (filter (hit e' ids) (dataSetRecords db))
          + length (filter (\<lambda>r. live_record_of e r \<and> \<not> hit e' ids r) (dataSetRecords db))"
    by (rule length_filter_split) (rule hit_same_key[OF True])
  with True show ?thesis by (simp add: live_count_def live_after_soft_delete)
next
  case False
  have "(\<lambda>r. live_record_of e r \<and> \<not> hit e' ids r) = live_record_of e"
    using hit_other_key[OF False] by (intro ext) blast
  with False show ?thesis by (simp add: live_count_def live_after_soft_delete)
qed

lemma deleteDataSetRecords_counter:
  assumes "counter_exact e db"
  shows "counter_exact e (snd (deleteDataSetRecords now e' ids db))"
proof -
  let ?n = "int (length (filter (hit e' ids) (dataSetRecords db)))"
  let ?db' = "snd (deleteDataSetRecords now e' ids db)"
  have kc: "keyed_counts ?db' =
      map (\<lambda>(k, c). if k = (e_tenantId e', e_projectId e', e_id e') then (k, c + (- ?n)) else (k, c))
       (keyed_counts db)"
    by (simp only: deleteDataSetRecords_hit snd_conv keyed_counts_increment keyed_counts_records)
  have lc: "live_count e ?db' = live_count e db + (if same_key e e' then - ?n else 0)"
    by (simp add: deleteDataSetRecords_hit live_count_cong[OF incrementRecordCountBy_records]
        live_count_soft_delete)
  from assms have "\<forall>(k, c)\<in>set (keyed_counts db).
      k = (e_tenantId e, e_projectId e, e_id e) \<longrightarrow> c = live_count e db"
    by (simp only: counter_exact_keyed)
  from shift_exact[OF this, of "(e_tenantId e', e_projectId e', e_id e')" "- ?n"]
  show ?thesis
    by (simp only: counter_exact_keyed kc lc key_eq_same_key)
qed

lemma run_calls_counter:
  "counter_exact e db \<Longrightarrow> counter_exact e (run_calls rt calls db)"
  unfolding run_calls_def
proof (induction calls arbitrary: db)
  case Nil
  then show ?case by simp
next
  case (Cons c calls)
  have "counter_exact e (run_call rt c db)"
    using Cons.prems
    by (cases c) (simp_all add: createDataSetRecord_counter deleteDataSetRecords_counter)
  then show ?case using Cons.IH by simp
qed

lemma createDataSetRecord_step:
  assumes "createDataSetRecord rt now entityId v db = (Inr record, db')"
  shows "live_count entityId db' = live_count entityId db + 1
       \<and> map ds_countOfRecords (dataSets db')
           = map (\<lambda>d. if dataset_of entityId d then ds_countOfRecords d + 1
                       else ds_countOfRecords d) (dataSets db)"
proof (cases "dataSets_findById entityId db")
  case None
  with assms show ?thesis by (simp add: createDataSetRecord_not_found)
next
  case (Some ds)
  from assms have db': "db' = snd (createDataSetRecord rt now entityId v db)" by simp
  have sk: "same_key entityId entityId" by (simp add: same_key_def)
  have lc: "live_count entityId db' = live_count entityId db + 1"
    by (simp add: db' createDataSetRecord_found[OF Some] live_count_def live_record_of_new sk)
  have "map ds_countOfRecords (dataSets db')
        = map ds_countOfRecords (dataSets (incrementRecordCountBy now entityId 1
              (db\<lparr>dataSetRecords := dataSetRecords db @ [new_record rt now entityId v db]\<rparr>)))"
    by (simp only: db' createDataSetRecord_found[OF Some] snd_conv updateSchema_counts)
  also have "\<dots> = map (\<lambda>d. if dataset_of entityId d then ds_countOfRecords d + 1
                       else ds_countOfRecords d) (dataSets db)"
    by (simp add: incrementRecordCountBy_counts)
  finally show ?thesis using lc by simp
qed

lemma deleteDataSetRecords_step:
  assumes "deleteDataSetRecords now entityId ids db = (deleted, db')"
  shows "deleted = int (length (filter (\<lambda>r. live_record_of entityId r \<and> r_id r \<in> set ids)
                                  (dataSetRecords db)))
       \<and> live_count entityId db' = live_count entityId db - deleted
       \<and> map ds_countOfRecords (dataSets db')
           = map (\<lambda>d. if dataset_of entityId d then ds_countOfRecords d - deleted
                       else ds_countOfRecords d) (dataSets db)
       \<and> (\<forall>r\<in>set (dataSetRecords db).
             \<not> (live_record_of entityId r \<and> r_id r \<in> set ids) \<longrightarrow> r \<in> set (dataSetRecords db'))"
proof -
  let ?n = "int (length (filter (hit entityId ids) (dataSetRecords db)))"
  let ?db1 = "db\<lparr>dataSetRecords := map (\<lambda>r. if hit entityId ids r then r\<lparr>r_isDeleted := True\<rparr> else r)
                               (dataSetRecords db)\<rparr>"
  from assms have d: "deleted = ?n" and db': "db' = incrementRecordCountBy now entityId (- ?n) ?db1"
    by (auto simp add: deleteDataSetRecords_hit)
  have h: "hit entityId ids = (\<lambda>r. live_record_of entityId r \<and> r_id r \<in> set ids)"
    by (rule ext) (simp add: hit_def)
  have sk: "same_key entityId entityId" by (simp add: same_key_def)
  have lc: "live_count entityId db' = live_count entityId db - deleted"
    using live_count_soft_delete[of entityId entityId ids db] sk
    by (simp add: db' d live_count_cong[OF incrementRecordCountBy_records])
  have cs: "map ds_countOfRecords (dataSets db')
           = map (\<lambda>d. if dataset_of entityId d then ds_countOfRecords d - deleted
                       else ds_countOfRecords d) (dataSets db)"
    by (simp add: db' d incrementRecordCountBy_counts)
  have rs: "dataSetRecords db' = map (\<lambda>r. if hit entityId ids r then r\<lparr>r_isDeleted := True\<rparr> else r)
                               (dataSetRecords db)"
    by (simp add: db')
  have keep: "\<forall>r\<in>set (dataSetRecords db).
             \<not> (live_record_of entityId r \<and> r_id r \<in> set ids) \<longrightarrow> r \<in> set (dataSetRecords db')"
    unfolding rs h by force
  from d lc cs keep show ?thesis by (simp add: h)
qed

lemma deleteDataSetRecords_empty: "deleteDataSetRecords now entityId [] db = (0, db)"
  by (simp add: deleteDataSetRecords_def softDeleteMany_def)

lemma demo_run:
  "map ds_countOfRecords (dataSets (run_calls demo_runtime demo_calls demo_dataset_db)) = [1]
   \<and> map (\<lambda>r. (r_id r, r_isDeleted r)) (dataSetRecords (run_calls demo_runtime demo_calls demo_dataset_db))
       = [(1, True), (2, False)]"
  by (simp add: run_calls_def demo_calls_def demo_dataset_db_def demo_dataset_def
      demo_entity_def demo_runtime_def empty_database_def createDataSetRecord_def
      deleteDataSetRecords_def softDeleteMany_def createMany_def dataSets_findById_def
      incrementRecordCountBy_def updateSchema_def next_id_def Let_def)

text \<open>
  Claim C4. For every dataset, if its counter equals the number of its live records,
  it still does after any finite sequence of \<open>createDataSetRecord\<close> and
  \<open>deleteDataSetRecords\<close> calls, on this or any other dataset and scope. A
  \<open>createDataSetRecord\<close> that finds no live dataset fails and changes nothing; one that
  succeeds adds one live record and adds 1 to the counter. \<open>deleteDataSetRecords\<close>
  returns the number of records that were live, of this dataset and scope, and named
  by \<open>ids\<close>; it subtracts exactly that number from the counter and leaves every other
  record as it was; with an empty list it returns 0 and changes nothing.
\<close>

theorem counter_exactness:
  "(counter_exact e db \<longrightarrow> counter_exact e (run_calls rt calls db))
   \<and> (dataSets_findById entityId db = None \<longrightarrow>
        createDataSetRecord rt now entityId v db = (Inl DatasetNotFound, db))
   \<and> (\<forall>record db'. createDataSetRecord rt now entityId v db = (Inr record, db') \<longrightarrow>
        live_count entityId db' = live_count entityId db + 1
        \<and> map ds_countOfRecords (dataSets db')
            = map (\<lambda>d. if dataset_of entityId d then ds_countOfRecords d + 1
                        else ds_countOfRecords d) (dataSets db))
   \<and> (\<forall>deleted db'. deleteDataSetRecords now entityId ids db = (deleted, db') \<longrightarrow>
        deleted = int (length (filter (\<lambda>r. live_record_of entityId r \<and> r_id r \<in> set ids)
                                  (dataSetRecords db)))
        \<and> live_count entityId db' = live_count entityId db - deleted
        \<and> map ds_countOfRecords (dataSets db')
            = map (\<lambda>d. if dataset_of entityId d then ds_countOfRecords d - deleted
                        else ds_countOfRecords d) (dataSets db)
        \<and> (\<forall>r\<in>set (dataSetRecords db).
              \<not> (live_record_of entityId r \<and> r_id r \<in> set ids) \<longrightarrow> r \<in> set (dataSetRecords db')))
   \<and> deleteDataSetRecords now entityId [] db = (0, db)"
  (is "?inv \<and> ?missing \<and> ?create \<and> ?delete \<and> ?empty")
proof -
  have 1: ?inv by (rule impI) (rule run_calls_counter)
  have 2: ?missing by (rule impI) (rule createDataSetRecord_not_found)
  have 3: ?create by (intro allI impI) (rule createDataSetRecord_step)
  have 4: ?delete by (intro allI impI) (rule deleteDataSetRecords_step)
  have 5: ?empty by (rule deleteDataSetRecords_empty)
  from 1 2 3 4 5 show ?thesis by (intro conjI)
qed

theorem counter_exactness_witness:
  "counter_exact demo_entity demo_dataset_db
   \<and> counter_exact demo_entity (run_calls demo_runtime demo_calls demo_dataset_db)
   \<and> map ds_countOfRecords (dataSets (run_calls demo_runtime demo_calls demo_dataset_db)) = [1]"
proof -
  have h: "counter_exact demo_entity demo_dataset_db"
    by (simp add: counter_exact_def live_count_def demo_dataset_db_def demo_dataset_def
        empty_database_def)
  from counter_exactness[of demo_entity demo_dataset_db demo_runtime demo_calls] h
  have c: "counter_exact demo_entity (run_calls demo_runtime demo_calls demo_dataset_db)"
    by blast
  from h c demo_run show ?thesis by simp
qed

section \<open>Pagination\<close>

lemma ceil_div_pos:
  assumes "1 \<le> b" "0 \<le> a"
  shows "\<exists>k. ceil_div a b = Finite k \<and> a \<le> k * b \<and> (k - 1) * b < a \<and> (a = 0 \<longrightarrow> k = 0)
            \<and> k = \<lceil>rat_of_int a / rat_of_int b\<rceil>"
proof -
  let ?k = "\<lceil>rat_of_int a / rat_of_int b\<rceil>"
  have b: "0 < rat_of_int b" using assms(1) by simp
  have c: "rat_of_int ?k - 1 < rat_of_int a / rat_of_int b"
    "rat_of_int a / rat_of_int b \<le> rat_of_int ?k"
    using ceiling_correct[of "rat_of_int a / rat_of_int b"] by blast+
  from c(2) have "rat_of_int a \<le> rat_of_int ?k * rat_of_int b"
    by (simp only: pos_divide_le_eq[OF b])
  then have "rat_of_int a \<le> rat_of_int (?k * b)" by (simp only: of_int_mult)
  then have u: "a \<le> ?k * b" by (simp only: of_int_le_iff)
  from c(1) have "(rat_of_int ?k - 1) * rat_of_int b < rat_of_int a"
    by (simp only: pos_less_divide_eq[OF b])
  then have "rat_of_int ((?k - 1) * b) < rat_of_int a"
    by (simp only: of_int_mult of_int_diff of_int_1)
  then have l: "(?k - 1) * b < a" by (simp only: of_int_less_iff)
  have z: "a = 0 \<longrightarrow> ?k = 0" by simp
  have "ceil_div a b = Finite ?k" using assms(1) by (simp add: ceil_div_def)
  with u l z show ?thesis by blast
qed

lemma listDataSetRecordsPaginated_total:
  "res_total (listDataSetRecordsPaginated e pg db) = live_count e db"
  by (simp add: listDataSetRecordsPaginated_def listByDataSetPaginated_def Let_def live_count_def)

lemma listDataSetRecordsPaginated_pages:
  "res_totalPages (listDataSetRecordsPaginated e pg db) = ceil_div (live_count e db) (pageSize pg)"
  by (simp add: listDataSetRecordsPaginated_def listByDataSetPaginated_def Let_def live_count_def)

lemma live_count_nonneg: "0 \<le> live_count e db"
  by (simp add: live_count_def)

lemma three_records_live: "live_count demo_entity three_records_db = 3"
  by (simp add: three_records_db_def run_calls_def demo_dataset_db_def demo_dataset_def
      demo_entity_def demo_runtime_def empty_database_def createDataSetRecord_def
      createMany_def dataSets_findById_def live_count_def live_record_of_def
      incrementRecordCountBy_def updateSchema_def next_id_def Let_def)

lemma three_records_exact: "counter_exact demo_entity three_records_db"
  unfolding three_records_db_def
  by (rule run_calls_counter)
     (simp add: counter_exact_def live_count_def demo_dataset_db_def demo_dataset_def
        empty_database_def)

lemma three_records_counts: "map ds_countOfRecords (dataSets three_records_db) = [3]"
  by (simp add: three_records_db_def run_calls_def demo_dataset_db_def demo_dataset_def
      demo_entity_def demo_runtime_def empty_database_def createDataSetRecord_def
      createMany_def dataSets_findById_def
      incrementRecordCountBy_def updateSchema_def next_id_def Let_def)

text \<open>
  Claim C7, as the specification states it, fails: \<open>total\<close> is not read from the
  Aggregate Counter. For a dataset whose counter says 5 and that has no records,
  \<open>listDataSetRecordsPaginated\<close> returns \<open>total = 0\<close>.
\<close>

theorem listDataSetRecordsPaginated_counterexample:
  "dataSets_findById demo_entity miscounted_db = Some (demo_dataset\<lparr>ds_countOfRecords := 5\<rparr>)
   \<and> res_total (listDataSetRecordsPaginated demo_entity \<lparr>page = 1, pageSize = 10\<rparr> miscounted_db) = 0"
  by (simp add: dataSets_findById_def miscounted_db_def empty_database_def demo_dataset_def
      demo_entity_def listDataSetRecordsPaginated_def listByDataSetPaginated_def Let_def)

text \<open>
  Claim C7, amended. \<open>listDataSetRecordsPaginated\<close> returns as \<open>total\<close> the number of
  live records of the dataset under the scope, counted afresh over the record rows
  (not read from \<open>countOfRecords\<close>), and the \<open>page\<close> and \<open>pageSize\<close> it was given; for
  \<open>pageSize \<ge> 1\<close>, \<open>totalPages\<close> is the ceiling of \<open>total / pageSize\<close>, the least \<open>k\<close>
  with \<open>total \<le> k * pageSize\<close>, and 0 when \<open>total = 0\<close>. Whenever the counter of the
  dataset is exact, \<open>total\<close> equals it.
\<close>

theorem listDataSetRecordsPaginated_spec:
  "res_total (listDataSetRecordsPaginated e pg db) = live_count e db
   \<and> res_page (listDataSetRecordsPaginated e pg db) = page pg
   \<and> res_pageSize (listDataSetRecordsPaginated e pg db) = pageSize pg
   \<and> (1 \<le> pageSize pg \<longrightarrow>
        (\<exists>k. res_totalPages (listDataSetRecordsPaginated e pg db) = Finite k
            \<and> k = \<lceil>rat_of_int (live_count e db) / rat_of_int (pageSize pg)\<rceil>
            \<and> live_count e db \<le> k * pageSize pg \<and> (k - 1) * pageSize pg < live_count e db
            \<and> (live_count e db = 0 \<longrightarrow> k = 0)))
   \<and> (counter_exact e db \<longrightarrow>
        (\<forall>d\<in>set (dataSets db). dataset_of e d \<longrightarrow>
           res_total (listDataSetRecordsPaginated e pg db) = ds_countOfRecords d))"
proof (intro conjI impI)
  show "res_total (listDataSetRecordsPaginated e pg db) = live_count e db"
    by (rule listDataSetRecordsPaginated_total)
  show "res_page (listDataSetRecordsPaginated e pg db) = page pg"
    by (simp add: listDataSetRecordsPaginated_def Let_def split_def)
  show "res_pageSize (listDataSetRecordsPaginated e pg db) = pageSize pg"
    by (simp add: listDataSetRecordsPaginated_def Let_def split_def)
next
  assume "1 \<le> pageSize pg"
  from ceil_div_pos[OF this live_count_nonneg, of e db]
  show "\<exists>k. res_totalPages (listDataSetRecordsPaginated e pg db) = Finite k
            \<and> k = \<lceil>rat_of_int (live_count e db) / rat_of_int (pageSize pg)\<rceil>
            \<and> live_count e db \<le> k * pageSize pg \<and> (k - 1) * pageSize pg < live_count e db
            \<and> (live_count e db = 0 \<longrightarrow> k = 0)"
    by (simp only: listDataSetRecordsPaginated_pages) blast
next
  assume "counter_exact e db"
  then show "\<forall>d\<in>set (dataSets db). dataset_of e d \<longrightarrow>
           res_total (listDataSetRecordsPaginated e pg db) = ds_countOfRecords d"
    by (simp add: listDataSetRecordsPaginated_total counter_exact_def)
qed

theorem listDataSetRecordsPaginated_spec_witness:
  "1 \<le> pageSize \<lparr>page = 1, pageSize = 2\<rparr>
   \<and> counter_exact demo_entity three_records_db
   \<and> res_total (listDataSetRecordsPaginated demo_entity \<lparr>page = 1, pageSize = 2\<rparr> three_records_db) = 3
   \<and> res_totalPages (listDataSetRecordsPaginated demo_entity \<lparr>page = 1, pageSize = 2\<rparr> three_records_db)
       = Finite 2
   \<and> map ds_countOfRecords (dataSets three_records_db) = [3]"
proof -
  let ?pg = "\<lparr>page = 1, pageSize = 2\<rparr>"
  have h: "1 \<le> pageSize ?pg" by simp
  from listDataSetRecordsPaginated_spec[of demo_entity ?pg three_records_db] h
  obtain k where t: "res_total (listDataSetRecordsPaginated demo_entity ?pg three_records_db)
                  = live_count demo_entity three_records_db"
    and k: "res_totalPages (listDataSetRecordsPaginated demo_entity ?pg three_records_db) = Finite k"
      "live_count demo_entity three_records_db \<le> k * pageSize ?pg"
      "(k - 1) * pageSize ?pg < live_count demo_entity three_records_db"
    by blast
  from k(2,3) have "k = 2" by (simp add: three_records_live)
  with h t k(1) three_records_exact three_records_counts show ?thesis
    by (simp add: three_records_live)
qed

section \<open>The type-lattice join and the stored schema\<close>

lemma string_of_nat_digit: "n < 10 \<Longrightarrow> string_of_nat n = [digit_char n]"
  by (simp add: string_of_nat.simps)

lemma type_of_type_object: "type_of_property (Value (type_object T)) = Some (JString T)"
  by (simp add: type_object_def)

lemma truthy_type_object: "truthy (type_object T)"
  by (simp add: type_object_def)

lemma own_set_field_other:
  "k \<noteq> key \<Longrightarrow> map_of (own (set_field f key t)) k = map_of (own f) k"
  by (simp add: set_field_def update_conv')

lemma own_set_field_same:
  "map_of (own f) key \<noteq> None \<or> key \<noteq> ''__proto__'' \<Longrightarrow>
   map_of (own (set_field f key t)) key = Some (type_object t)"
  by (auto simp add: set_field_def update_conv')

text \<open>
  A path that is an own property of the type map with type \<open>T\<close> keeps \<open>T\<close> when \<open>T\<close> is
  observed again or \<open>T\<close> is \<open>"mixed"\<close>, and becomes \<open>"mixed"\<close> otherwise; an observation at
  another path leaves it alone; a path whose read is \<open>undefined\<close> is inserted with the
  observed type.
\<close>

lemma mergeSchema_entry_present:
  assumes "map_of (own (schema_fields s)) path = Some (type_object T)"
  shows "map_of (own (schema_fields (mergeSchema_entry s path t))) path
         = Some (type_object (if T = t \<or> T = ''mixed'' then T else ''mixed''))"
proof -
  have g: "get_field (schema_fields s) path = Value (type_object T)"
    using assms by (simp add: get_field_def)
  have o: "map_of (own (schema_fields s)) path \<noteq> None \<or> path \<noteq> ''__proto__''"
    using assms by simp
  show ?thesis
    using assms own_set_field_same[OF o]
    by (simp add: mergeSchema_entry_def g Let_def type_of_type_object truthy_type_object)
qed

lemma mergeSchema_entry_other:
  assumes "path' \<noteq> path"
  shows "map_of (own (schema_fields (mergeSchema_entry s path t))) path'
         = map_of (own (schema_fields s)) path'"
  using own_set_field_other[OF assms]
  by (simp add: mergeSchema_entry_def Let_def)

lemma mergeSchema_entry_absent:
  assumes "get_field (schema_fields s) path = Undefined"
  shows "map_of (own (schema_fields (mergeSchema_entry s path t))) path = Some (type_object t)"
proof -
  have "path \<noteq> ''__proto__''"
    using assms
    by (auto simp add: get_field_def inherited_def object_prototype_keys_def
        split: option.splits if_splits)
  then have "map_of (own (set_field (schema_fields s) path t)) path = Some (type_object t)"
    by (intro own_set_field_same) simp
  with assms show ?thesis
    by (simp add: mergeSchema_entry_def Let_def)
qed

text \<open>
  Widening is monotonic: a path with type \<open>T\<close> has type \<open>T\<close> or \<open>"mixed"\<close> after any
  further payloads.
\<close>

lemma mergeSchema_entries_widen:
  assumes "map_of (own (schema_fields s)) path = Some (type_object T')" "T' = T \<or> T' = ''mixed''"
  shows "\<exists>U. map_of (own (schema_fields
                 (fold (\<lambda>(p, t) s. mergeSchema_entry s p t) entries s))) path = Some (type_object U)
            \<and> (U = T \<or> U = ''mixed'')"
  using assms
proof (induction entries arbitrary: s T')
  case Nil
  then show ?case by auto
next
  case (Cons a entries)
  obtain p t where a: "a = (p, t)" by (cases a)
  have "\<exists>U. map_of (own (schema_fields (mergeSchema_entry s p t))) path = Some (type_object U)
            \<and> (U = T \<or> U = ''mixed'')"
  proof (cases "p = path")
    case True
    with Cons.prems mergeSchema_entry_present[of s path T' t] show ?thesis by auto
  next
    case False
    with Cons.prems mergeSchema_entry_other[of path p s t] show ?thesis by auto
  qed
  then obtain U where "map_of (own (schema_fields (mergeSchema_entry s p t))) path = Some (type_object U)"
    "U = T \<or> U = ''mixed''" by blast
  from Cons.IH[OF this] show ?case by (simp add: a)
qed

lemma mergeSchema_widening:
  assumes "map_of (own (schema_fields s)) path = Some (type_object T)"
  shows "\<exists>U. map_of (own (schema_fields (fold (\<lambda>v s. mergeSchema s v) payloads s))) path
               = Some (type_object U) \<and> (U = T \<or> U = ''mixed'')"
proof -
  have "\<exists>U. map_of (own (schema_fields (fold (\<lambda>v s. mergeSchema s v) payloads s))) path
               = Some (type_object U) \<and> (U = T \<or> U = ''mixed'')"
    if "map_of (own (schema_fields s)) path = Some (type_object T')" "T' = T \<or> T' = ''mixed''" for s T'
    using that
  proof (induction payloads arbitrary: s T')
    case Nil
    then show ?case by auto
  next
    case (Cons v payloads)
    from mergeSchema_entries_widen[OF Cons.prems, of "collectFields v []"]
    obtain U where "map_of (own (schema_fields (mergeSchema s v))) path = Some (type_object U)"
      "U = T \<or> U = ''mixed''" by (auto simp add: mergeSchema_def)
    from Cons.IH[OF this] show ?case by simp
  qed
  from this[OF assms] show ?thesis by simp
qed

text \<open>
  Claim C5 holds for a path that the type map owns and for a new path whose read is
  \<open>undefined\<close> (the lemmas above); it fails for a new path that names a member of
  \<open>Object.prototype\<close>. The type map starts as \<open>{}\<close>, the read \<open>schema.fields["constructor"]\<close>
  finds the inherited function \<open>Object\<close>, which is truthy and has no \<open>type\<close>, and the
  first observation of \<open>constructor\<close> with type \<open>"string"\<close> stores \<open>"mixed"\<close>.
\<close>

theorem mergeSchema_constructor_mixed:
  "get_field empty_fields ''constructor'' = Builtin
   \<and> collectFields (JObject [(''constructor'', JString ''x'')]) [] = [(''constructor'', ''string'')]
   \<and> mergeSchema \<lparr>schema_fields = empty_fields\<rparr> (JObject [(''constructor'', JString ''x'')])
       = \<lparr>schema_fields = \<lparr>own = [(''constructor'', type_object ''mixed'')], proto_type = None\<rparr>\<rparr>"
  by (simp add: mergeSchema_def mergeSchema_entry_def empty_fields_def get_field_def inherited_def
      object_prototype_keys_def set_field_def nextPrefix_def path_of_def object_assign_def
      set_string_def)

text \<open>
  A stored schema that is empty, that is no JSON, or that is a JSON scalar or \<open>null\<close>
  is read as the type map without fields.
\<close>

lemma parseSchema_no_fields:
  assumes "text = [] \<or> JSON_parse rt text = None
           \<or> (\<exists>p. JSON_parse rt text = Some p \<and> (\<forall>xs. p \<noteq> JArray xs) \<and> (\<forall>es. p \<noteq> JObject es))"
  shows "parseSchema rt text = \<lparr>schema_fields = empty_fields\<rparr>"
proof -
  have "parseSchema_parsed rt p = \<lparr>schema_fields = empty_fields\<rparr>"
    if "\<forall>xs. p \<noteq> JArray xs" "\<forall>es. p \<noteq> JObject es" for p
    using that by (cases p) (simp_all add: parseSchema_parsed_def)
  with assms show ?thesis by (auto simp add: parseSchema_def)
qed

text \<open>
  Claim C10 fails for a stored schema that is a JSON array: \<open>typeof parsed\<close> is
  \<open>"object"\<close> for an array, so the guard lets it through to the loop over its
  entries, and the text \<open>["string"]\<close> is read as the type map with the field \<open>"0"\<close> of
  type \<open>"string"\<close>, not as the empty one.
\<close>

theorem parseSchema_array_fields:
  "JSON_parse array_runtime array_schema_text = Some (JArray [JString ''string''])
   \<and> parseSchema array_runtime array_schema_text
       = \<lparr>schema_fields = \<lparr>own = [(''0'', type_object ''string'')], proto_type = None\<rparr>\<rparr>
   \<and> parseSchema array_runtime array_schema_text \<noteq> \<lparr>schema_fields = empty_fields\<rparr>"
  by (simp add: parseSchema_def parseSchema_parsed_def array_entries_def string_of_nat_digit
      digit_char_def empty_fields_def set_field_def array_runtime_def array_schema_text_def)

section \<open>Tenant isolation\<close>

subsection \<open>Combining operations\<close>

lemma depends_onlyI:
  assumes "\<And>db. q (rows_of s db) = q db"
  shows "depends_only (rows_of s) q"
  unfolding depends_only_def
proof (intro allI impI)
  fix db1 db2 assume "rows_of s db1 = rows_of s db2"
  then have "q (rows_of s db1) = q (rows_of s db2)" by simp
  then show "q db1 = q db2" by (simp only: assms)
qed

lemma depends_onlyD: "depends_only V q \<Longrightarrow> V db1 = V db2 \<Longrightarrow> q db1 = q db2"
  unfolding depends_only_def by blast

lemma acts_within_frame: "acts_within V s f \<Longrightarrow> rows_outside s (snd (f db)) = rows_outside s db"
  unfolding acts_within_def by blast

lemma acts_within_result: "acts_within V s f \<Longrightarrow> V db1 = V db2 \<Longrightarrow> fst (f db1) = fst (f db2)"
  unfolding acts_within_def by blast

lemma acts_within_view:
  "acts_within V s f \<Longrightarrow> V db1 = V db2 \<Longrightarrow> V (snd (f db1)) = V (snd (f db2))"
  unfolding acts_within_def by blast

lemma depends_only_insert_view:
  assumes "depends_only (rows_of s) q"
  shows "depends_only (insert_view s) q"
  unfolding depends_only_def
proof (intro allI impI)
  fix db1 db2 assume "insert_view s db1 = insert_view s db2"
  then have "rows_of s db1 = rows_of s db2" by (simp add: insert_view_def)
  then show "q db1 = q db2" by (rule depends_onlyD[OF assms])
qed

lemma acts_within_return: "acts_within V s (\<lambda>db. (c, db))"
  unfolding acts_within_def fst_conv snd_conv by blast

lemma acts_within_read:
  assumes "depends_only V q"
  shows "acts_within V s (\<lambda>db. (q db, db))"
  unfolding acts_within_def fst_conv snd_conv
proof (intro conjI allI impI)
  fix db1 db2 assume v: "V db1 = V db2"
  then show "q db1 = q db2" by (rule depends_onlyD[OF assms])
  from v show "V db1 = V db2" .
qed (rule refl)

lemma acts_within_bind:
  assumes f: "acts_within V s f" and g: "\<And>x. acts_within V s (g x)"
  shows "acts_within V s (\<lambda>db. case f db of (x, db') \<Rightarrow> g x db')"
  unfolding acts_within_def split_def
proof (intro conjI allI impI)
  fix db
  have "rows_outside s (snd (g (fst (f db)) (snd (f db)))) = rows_outside s (snd (f db))"
    by (rule acts_within_frame[OF g])
  also have "\<dots> = rows_outside s db" by (rule acts_within_frame[OF f])
  finally show "rows_outside s (snd (g (fst (f db)) (snd (f db)))) = rows_outside s db" .
next
  fix db1 db2 assume v: "V db1 = V db2"
  have r: "fst (f db1) = fst (f db2)" by (rule acts_within_result[OF f v])
  have v': "V (snd (f db1)) = V (snd (f db2))" by (rule acts_within_view[OF f v])
  have "fst (g (fst (f db2)) (snd (f db1))) = fst (g (fst (f db2)) (snd (f db2)))"
    by (rule acts_within_result[OF g v'])
  then show "fst (g (fst (f db1)) (snd (f db1))) = fst (g (fst (f db2)) (snd (f db2)))"
    by (simp only: r)
  have "V (snd (g (fst (f db2)) (snd (f db1)))) = V (snd (g (fst (f db2)) (snd (f db2))))"
    by (rule acts_within_view[OF g v'])
  then show "V (snd (g (fst (f db1)) (snd (f db1)))) = V (snd (g (fst (f db2)) (snd (f db2))))"
    by (simp only: r)
qed

lemma acts_within_with_read:
  assumes "depends_only V q" "\<And>x. acts_within V s (h x)"
  shows "acts_within V s (\<lambda>db. h (q db) db)"
proof -
  have "acts_within V s (\<lambda>db. case (q db, db) of (x, db') \<Rightarrow> h x db')"
    using acts_within_read[OF assms(1)] assms(2) by (rule acts_within_bind)
  then show ?thesis by simp
qed

lemma acts_within_case_option:
  assumes "depends_only V q" "acts_within V s f" "\<And>x. acts_within V s (g x)"
  shows "acts_within V s (\<lambda>db. case q db of None \<Rightarrow> f db | Some x \<Rightarrow> g x db)"
proof -
  have "acts_within V s (case r of None \<Rightarrow> f | Some x \<Rightarrow> g x)" for r
    using assms(2,3) by (cases r) simp_all
  from acts_within_with_read[OF assms(1), of s "\<lambda>r. case r of None \<Rightarrow> f | Some x \<Rightarrow> g x", OF this]
  have "acts_within V s (\<lambda>db. (case q db of None \<Rightarrow> f | Some x \<Rightarrow> g x) db)" .
  moreover have "(\<lambda>db. (case q db of None \<Rightarrow> f | Some x \<Rightarrow> g x) db)
      = (\<lambda>db. case q db of None \<Rightarrow> f db | Some x \<Rightarrow> g x db)"
    by (rule ext) (simp split: option.split)
  ultimately show ?thesis by simp
qed

lemma acts_within_if:
  assumes "depends_only V c" "acts_within V s f" "acts_within V s g"
  shows "acts_within V s (\<lambda>db. if c db then f db else g db)"
proof -
  have "acts_within V s (if b then f else g)" for b using assms(2,3) by simp
  from acts_within_with_read[OF assms(1), of s "\<lambda>b. if b then f else g", OF this]
  have "acts_within V s (\<lambda>db. (if c db then f else g) db)" .
  moreover have "(\<lambda>db. (if c db then f else g) db) = (\<lambda>db. if c db then f db else g db)"
    by (rule ext) simp
  ultimately show ?thesis by simp
qed

lemma commutes_rows_of: "commutes s u \<Longrightarrow> rows_of s (u db) = u (rows_of s db)"
  unfolding commutes_def by blast

lemma commutes_rows_outside: "commutes s u \<Longrightarrow> rows_outside s (u db) = rows_outside s db"
  unfolding commutes_def by blast

lemma commutes_next_ids: "commutes s u \<Longrightarrow> next_ids (u db) = next_ids db"
  unfolding commutes_def by blast

lemma acts_within_update:
  assumes "commutes s u"
  shows "acts_within (rows_of s) s (\<lambda>db. (c, u db))"
  unfolding acts_within_def fst_conv snd_conv
proof (intro conjI allI impI)
  fix db show "rows_outside s (u db) = rows_outside s db"
    by (rule commutes_rows_outside[OF assms])
next
  fix db1 db2 assume "rows_of s db1 = rows_of s db2"
  then have "u (rows_of s db1) = u (rows_of s db2)" by simp
  then show "rows_of s (u db1) = rows_of s (u db2)"
    by (simp only: commutes_rows_of[OF assms])
qed (rule refl)

lemma acts_within_update_insert_view:
  assumes "commutes s u"
  shows "acts_within (insert_view s) s (\<lambda>db. (c, u db))"
  unfolding acts_within_def fst_conv snd_conv
proof (intro conjI allI impI)
  fix db show "rows_outside s (u db) = rows_outside s db"
    by (rule commutes_rows_outside[OF assms])
next
  fix db1 db2 assume "insert_view s db1 = insert_view s db2"
  then have "u (rows_of s db1) = u (rows_of s db2)" "next_ids db1 = next_ids db2"
    by (simp_all add: insert_view_def)
  then show "insert_view s (u db1) = insert_view s (u db2)"
    by (simp only: insert_view_def commutes_rows_of[OF assms] commutes_next_ids[OF assms])
qed (rule refl)

lemma acts_within_after:
  assumes "acts_within V s (\<lambda>db. ((), u db))" "acts_within V s f"
  shows "acts_within V s (\<lambda>db. f (u db))"
proof -
  have "acts_within V s (\<lambda>db. case ((), u db) of (x, db') \<Rightarrow> f db')"
    using assms by (rule acts_within_bind)
  then show ?thesis by simp
qed

lemma acts_within_snd:
  assumes "acts_within V s f"
  shows "acts_within V s (\<lambda>db. (c, snd (f db)))"
  unfolding acts_within_def fst_conv snd_conv
proof (intro conjI allI impI)
  fix db show "rows_outside s (snd (f db)) = rows_outside s db"
    by (rule acts_within_frame[OF assms])
next
  fix db1 db2 assume v: "V db1 = V db2"
  show "V (snd (f db1)) = V (snd (f db2))" by (rule acts_within_view[OF assms v])
qed (rule refl)

lemma acts_within_case_sum:
  assumes "\<And>e. acts_within V s (f e)" "\<And>x. acts_within V s (g x)"
  shows "acts_within V s (\<lambda>db. case r of Inl e \<Rightarrow> f e db | Inr x \<Rightarrow> g x db)"
  using assms by (cases r) simp_all

lemma acts_within_guarded:
  assumes c: "depends_only (rows_of s) c" and u: "commutes s u"
  shows "acts_within (rows_of s) s (\<lambda>db. if c db then (a, db) else (b, u db))"
    and "acts_within (insert_view s) s (\<lambda>db. if c db then (a, db) else (b, u db))"
proof -
  show "acts_within (rows_of s) s (\<lambda>db. if c db then (a, db) else (b, u db))"
    by (rule acts_within_if[OF c acts_within_return acts_within_update[OF u]])
  show "acts_within (insert_view s) s (\<lambda>db. if c db then (a, db) else (b, u db))"
    by (rule acts_within_if[OF depends_only_insert_view[OF c] acts_within_return
          acts_within_update_insert_view[OF u]])
qed

subsection \<open>Tables under a scope\<close>

lemma find_filter: "find P (filter Q xs) = find (\<lambda>x. P x \<and> Q x) xs"
  by (induction xs) auto

lemma filter_filter_right: "filter P (filter Q xs) = filter (\<lambda>x. P x \<and> Q x) xs"
  by (induction xs) auto

lemma filter_map_if_inside:
  "(\<And>x. Q (g x) = Q x) \<Longrightarrow>
   filter Q (map (\<lambda>x. if P x then g x else x) xs) = map (\<lambda>x. if P x then g x else x) (filter Q xs)"
  by (induction xs) auto

lemma filter_map_if_outside:
  "(\<And>x. P x \<Longrightarrow> \<not> Q x) \<Longrightarrow> (\<And>x. Q (g x) = Q x) \<Longrightarrow>
   filter Q (map (\<lambda>x. if P x then g x else x) xs) = filter Q xs"
  by (induction xs) auto

lemma map_key_map_if:
  "(\<And>x. k (g x) = k x) \<Longrightarrow> map k (map (\<lambda>x. if P x then g x else x) xs) = map k xs"
  by (induction xs) auto

lemma fold_max_append: "fold max (xs @ [x]) (a::int) = max x (fold max xs a)"
  by simp

lemma next_id_append: "next_id (ids @ [next_id ids]) = next_id ids + 1"
proof -
  have "0 \<le> fold max ids 0" using fold_max_ge[of 0 ids] by simp
  then show ?thesis by (simp add: next_id_def)
qed

subsection \<open>The queries and updates of the repositories\<close>

lemmas scope_defs = rows_of_def rows_outside_def next_ids_def entity_scope_def project_scope_def
  version_scope_def context_scope_def

lemmas table_scope = find_filter filter_filter_right

lemma findPrompts_scope: "depends_only (rows_of (project_scope pj)) (findPrompts pj a)"
  by (rule depends_onlyI) (simp add: findPrompts_def scope_defs table_scope cong: conj_cong del: filter_filter)

lemma findPromptById_scope: "depends_only (rows_of (entity_scope e)) (findPromptById e)"
  by (rule depends_onlyI) (simp add: findPromptById_def scope_defs table_scope cong: conj_cong del: filter_filter)

lemma findPromptBySlug_scope: "depends_only (rows_of (project_scope pj)) (findPromptBySlug pj slug)"
  by (rule depends_onlyI) (simp add: findPromptBySlug_def scope_defs table_scope cong: conj_cong del: filter_filter)

lemma findPromptVersions_scope: "depends_only (rows_of (entity_scope e)) (findPromptVersions e)"
  by (rule depends_onlyI) (simp add: findPromptVersions_def scope_defs table_scope cong: conj_cong del: filter_filter)

lemma findPromptVersion_scope: "depends_only (rows_of (entity_scope e)) (findPromptVersion e v)"
  by (rule depends_onlyI) (simp add: findPromptVersion_def scope_defs table_scope cong: conj_cong del: filter_filter)

lemma findPromptVersion_versionId_scope:
  "depends_only (rows_of (version_scope vi)) (findPromptVersion_versionId vi)"
  by (rule depends_onlyI) (simp add: findPromptVersion_versionId_def scope_defs table_scope cong: conj_cong del: filter_filter)

lemma findPromptVersionById_scope:
  "depends_only (rows_of (project_scope pj)) (findPromptVersionById pj v)"
  by (rule depends_onlyI) (simp add: findPromptVersionById_def scope_defs table_scope cong: conj_cong del: filter_filter)

lemma findPromptRouter_scope: "depends_only (rows_of (entity_scope e)) (findPromptRouter e)"
  by (rule depends_onlyI) (simp add: findPromptRouter_def scope_defs table_scope cong: conj_cong del: filter_filter)

lemma dataSets_findById_scope: "depends_only (rows_of (entity_scope e)) (dataSets_findById e)"
  by (rule depends_onlyI) (simp add: dataSets_findById_def scope_defs table_scope cong: conj_cong del: filter_filter)

lemma dataSets_findBySlug_scope:
  "depends_only (rows_of (context_scope ctx)) (dataSets_findBySlug ctx slug)"
  by (rule depends_onlyI) (simp add: dataSets_findBySlug_def scope_defs table_scope cong: conj_cong del: filter_filter)

lemma records_findById_scope: "depends_only (rows_of (entity_scope e)) (records_findById e)"
  by (rule depends_onlyI) (simp add: records_findById_def scope_defs table_scope cong: conj_cong del: filter_filter)

lemma live_records_scope:
  "filter (live_record_of e) (dataSetRecords (rows_of (entity_scope e) db))
   = filter (live_record_of e) (dataSetRecords db)"
  by (simp add: scope_defs live_record_of_def [abs_def] table_scope cong: conj_cong del: filter_filter)

lemma listByDataSet_scope: "depends_only (rows_of (entity_scope e)) (listByDataSet e)"
  by (rule depends_onlyI) (simp add: listByDataSet_def live_records_scope)

lemma listByDataSetPaginated_scope:
  "depends_only (rows_of (entity_scope e)) (listByDataSetPaginated e pg)"
  by (rule depends_onlyI) (simp add: listByDataSetPaginated_def live_records_scope)

lemma listBatchByDataSet_scope:
  "depends_only (rows_of (entity_scope e)) (listBatchByDataSet e lmt afterId)"
  by (rule depends_onlyI)
    (simp add: listBatchByDataSet_def scope_defs live_record_of_def table_scope cong: conj_cong del: filter_filter)

lemma commutes_id: "commutes s (\<lambda>db. db)"
  by (simp add: commutes_def)

lemma commutes_prompts:
  assumes "\<And>p. P p \<Longrightarrow> (p_tenantId p, p_projectId p) = s"
    and "\<And>p. p_tenantId (g p) = p_tenantId p" "\<And>p. p_projectId (g p) = p_projectId p"
    and "\<And>p. p_id (g p) = p_id p"
  shows "commutes s (\<lambda>db. db\<lparr>prompts := map (\<lambda>p. if P p then g p else p) (prompts db)\<rparr>)"
proof -
  have 1: "filter (\<lambda>p. (p_tenantId p, p_projectId p) = s) (map (\<lambda>p. if P p then g p else p) xs)
      = map (\<lambda>p. if P p then g p else p) (filter (\<lambda>p. (p_tenantId p, p_projectId p) = s) xs)" for xs
    by (rule filter_map_if_inside) (simp add: assms)
  have 2: "filter (\<lambda>p. (p_tenantId p, p_projectId p) \<noteq> s) (map (\<lambda>p. if P p then g p else p) xs)
      = filter (\<lambda>p. (p_tenantId p, p_projectId p) \<noteq> s) xs" for xs
    by (rule filter_map_if_outside) (simp_all add: assms)
  have 3: "map p_id (map (\<lambda>p. if P p then g p else p) xs) = map p_id xs" for xs
    by (rule map_key_map_if) (simp add: assms)
  show ?thesis
    unfolding commutes_def by (simp add: rows_of_def rows_outside_def next_ids_def 1 2 3 del: map_map)
qed

lemma commutes_promptRouters:
  assumes "\<And>r. P r \<Longrightarrow> (pr_tenantId r, pr_projectId r) = s"
    and "\<And>r. pr_tenantId (g r) = pr_tenantId r" "\<And>r. pr_projectId (g r) = pr_projectId r"
    and "\<And>r. pr_id (g r) = pr_id r"
  shows "commutes s
           (\<lambda>db. db\<lparr>promptRouters := map (\<lambda>r. if P r then g r else r) (promptRouters db)\<rparr>)"
proof -
  have 1: "filter (\<lambda>r. (pr_tenantId r, pr_projectId r) = s) (map (\<lambda>r. if P r then g r else r) xs)
      = map (\<lambda>r. if P r then g r else r) (filter (\<lambda>r. (pr_tenantId r, pr_projectId r) = s) xs)" for xs
    by (rule filter_map_if_inside) (simp add: assms)
  have 2: "filter (\<lambda>r. (pr_tenantId r, pr_projectId r) \<noteq> s) (map (\<lambda>r. if P r then g r else r) xs)
      = filter (\<lambda>r. (pr_tenantId r, pr_projectId r) \<noteq> s) xs" for xs
    by (rule filter_map_if_outside) (simp_all add: assms)
  have 3: "map pr_id (map (\<lambda>r. if P r then g r else r) xs) = map pr_id xs" for xs
    by (rule map_key_map_if) (simp add: assms)
  show ?thesis
    unfolding commutes_def by (simp add: rows_of_def rows_outside_def next_ids_def 1 2 3 del: map_map)
qed

lemma commutes_dataSets:
  assumes "\<And>d. P d \<Longrightarrow> (ds_tenantId d, ds_projectId d) = s"
    and "\<And>d. ds_tenantId (g d) = ds_tenantId d" "\<And>d. ds_projectId (g d) = ds_projectId d"
    and "\<And>d. ds_id (g d) = ds_id d"
  shows "commutes s (\<lambda>db. db\<lparr>dataSets := map (\<lambda>d. if P d then g d else d) (dataSets db)\<rparr>)"
proof -
  have 1: "filter (\<lambda>d. (ds_tenantId d, ds_projectId d) = s) (map (\<lambda>d. if P d then g d else d) xs)
      = map (\<lambda>d. if P d then g d else d) (filter (\<lambda>d. (ds_tenantId d, ds_projectId d) = s) xs)" for xs
    by (rule filter_map_if_inside) (simp add: assms)
  have 2: "filter (\<lambda>d. (ds_tenantId d, ds_projectId d) \<noteq> s) (map (\<lambda>d. if P d then g d else d) xs)
      = filter (\<lambda>d. (ds_tenantId d, ds_projectId d) \<noteq> s) xs" for xs
    by (rule filter_map_if_outside) (simp_all add: assms)
  have 3: "map ds_id (map (\<lambda>d. if P d then g d else d) xs) = map ds_id xs" for xs
    by (rule map_key_map_if) (simp add: assms)
  show ?thesis
    unfolding commutes_def by (simp add: rows_of_def rows_outside_def next_ids_def 1 2 3 del: map_map)
qed

lemma commutes_dataSetRecords:
  assumes "\<And>r. P r \<Longrightarrow> (r_tenantId r, r_projectId r) = s"
    and "\<And>r. r_tenantId (g r) = r_tenantId r" "\<And>r. r_projectId (g r) = r_projectId r"
    and "\<And>r. r_id (g r) = r_id r"
  shows "commutes s
           (\<lambda>db. db\<lparr>dataSetRecords := map (\<lambda>r. if P r then g r else r) (dataSetRecords db)\<rparr>)"
proof -
  have 1: "filter (\<lambda>r. (r_tenantId r, r_projectId r) = s) (map (\<lambda>r. if P r then g r else r) xs)
      = map (\<lambda>r. if P r then g r else r) (filter (\<lambda>r. (r_tenantId r, r_projectId r) = s) xs)" for xs
    by (rule filter_map_if_inside) (simp add: assms)
  have 2: "filter (\<lambda>r. (r_tenantId r, r_projectId r) \<noteq> s) (map (\<lambda>r. if P r then g r else r) xs)
      = filter (\<lambda>r. (r_tenantId r, r_projectId r) \<noteq> s) xs" for xs
    by (rule filter_map_if_outside) (simp_all add: assms)
  have 3: "map r_id (map (\<lambda>r. if P r then g r else r) xs) = map r_id xs" for xs
    by (rule map_key_map_if) (simp add: assms)
  show ?thesis
    unfolding commutes_def by (simp add: rows_of_def rows_outside_def next_ids_def 1 2 3 del: map_map)
qed

lemma repository_updatePrompt_scope:
  "acts_within (rows_of (entity_scope e)) (entity_scope e) (repository_updatePrompt now e data)"
  "acts_within (insert_view (entity_scope e)) (entity_scope e) (repository_updatePrompt now e data)"
proof -
  let ?matched = "\<lambda>p. p_tenantId p = e_tenantId e \<and> p_projectId p = e_projectId e
                       \<and> p_id p = e_id e"
  let ?c = "\<lambda>db. list_ex ?matched (prompts db)
            \<and> name_in_use (e_tenantId e) (e_projectId e) (d_name data)
                  (filter (\<lambda>p. \<not> ?matched p) (prompts db))"
  let ?u = "\<lambda>db. db\<lparr>prompts :=
                 map (\<lambda>p. if ?matched p
                           then p\<lparr>p_name := d_name data, p_provider := d_provider data,
                                  p_model := d_model data, p_body := d_body data,
                                  p_latestVersion := d_latestVersion data, p_updatedAt := now\<rparr>
                           else p)
                   (prompts db)\<rparr>"
  have eq: "repository_updatePrompt now e data
      = (\<lambda>db. if ?c db then (Inl UniqueConstraintFailed, db) else (Inr (), ?u db))"
    by (rule ext) (simp add: repository_updatePrompt_def Let_def)
  have c: "depends_only (rows_of (entity_scope e)) ?c"
    by (rule depends_onlyI)
      (auto simp add: rows_of_def entity_scope_def name_in_use_def slug_in_use_def list_ex_iff)
  have u: "commutes (entity_scope e) ?u"
    by (rule commutes_prompts) (simp_all add: entity_scope_def)
  show "acts_within (rows_of (entity_scope e)) (entity_scope e) (repository_updatePrompt now e data)"
    unfolding eq by (rule acts_within_guarded(1)[OF c u])
  show "acts_within (insert_view (entity_scope e)) (entity_scope e)
      (repository_updatePrompt now e data)"
    unfolding eq by (rule acts_within_guarded(2)[OF c u])
qed

lemma repository_deactivatePrompt_scope:
  "commutes (entity_scope e) (repository_deactivatePrompt now e)"
  unfolding repository_deactivatePrompt_def [abs_def]
  by (rule commutes_prompts) (simp_all add: entity_scope_def)

lemma repository_renamePrompt_scope:
  "acts_within (rows_of (entity_scope e)) (entity_scope e)
     (repository_renamePrompt now e name slug)"
proof -
  let ?matched = "\<lambda>p. p_tenantId p = e_tenantId e \<and> p_projectId p = e_projectId e
                       \<and> p_id p = e_id e"
  let ?c = "\<lambda>db. list_ex ?matched (prompts db)
            \<and> (name_in_use (e_tenantId e) (e_projectId e) name
                   (filter (\<lambda>p. \<not> ?matched p) (prompts db))
                 \<or> slug_in_use (e_tenantId e) (e_projectId e) slug
                   (filter (\<lambda>p. \<not> ?matched p) (prompts db)))"
  let ?u = "\<lambda>db. db\<lparr>prompts :=
                 map (\<lambda>p. if ?matched p
                           then p\<lparr>p_name := name, p_slug := slug, p_updatedAt := now\<rparr>
                           else p)
                   (prompts db)\<rparr>"
  have eq: "repository_renamePrompt now e name slug
      = (\<lambda>db. if ?c db then (Inl UniqueConstraintFailed, db) else (Inr (), ?u db))"
    by (rule ext) (simp add: repository_renamePrompt_def Let_def)
  have c: "depends_only (rows_of (entity_scope e)) ?c"
    by (rule depends_onlyI)
      (auto simp add: rows_of_def entity_scope_def name_in_use_def slug_in_use_def list_ex_iff)
  have u: "commutes (entity_scope e) ?u"
    by (rule commutes_prompts) (simp_all add: entity_scope_def)
  show ?thesis
    unfolding eq by (rule acts_within_guarded(1)[OF c u])
qed

lemma updatePromptRouterVersion_scope:
  "commutes (entity_scope e) (updatePromptRouterVersion now e routerId version)"
  unfolding updatePromptRouterVersion_def [abs_def]
  by (rule commutes_promptRouters) (simp_all add: entity_scope_def)

lemma incrementRecordCount_scope: "commutes (entity_scope e) (incrementRecordCount now e)"
  unfolding incrementRecordCount_def [abs_def]
  by (rule commutes_dataSets) (simp_all add: entity_scope_def)

lemma incrementRecordCountBy_scope:
  "commutes (entity_scope e) (incrementRecordCountBy now e amount)"
proof (cases "amount = 0")
  case True
  then have "incrementRecordCountBy now e amount = (\<lambda>db. db)"
    by (simp add: incrementRecordCountBy_def [abs_def])
  then show ?thesis by (simp only: commutes_id)
next
  case False
  then have "incrementRecordCountBy now e amount =
    (\<lambda>db. db\<lparr>dataSets :=
             map (\<lambda>d. if ds_tenantId d = e_tenantId e
                          \<and> ds_projectId d = e_projectId e \<and> ds_id d = e_id e
                       then d\<lparr>ds_countOfRecords := ds_countOfRecords d + amount,
                              ds_updatedAt := now\<rparr>
                       else d)
               (dataSets db)\<rparr>)"
    by (simp add: incrementRecordCountBy_def [abs_def])
  moreover have "commutes (entity_scope e) \<dots>"
    by (rule commutes_dataSets) (simp_all add: entity_scope_def)
  ultimately show ?thesis by (simp only:)
qed

lemma decrementRecordCount_scope: "commutes (entity_scope e) (decrementRecordCount now e)"
  unfolding decrementRecordCount_def [abs_def]
  by (rule commutes_dataSets) (simp_all add: entity_scope_def)

lemma softDelete_scope: "commutes (entity_scope e) (softDelete now e)"
  unfolding softDelete_def [abs_def]
  by (rule commutes_dataSets) (simp_all add: entity_scope_def)

lemma updateSchema_scope: "commutes (entity_scope e) (updateSchema now e schema)"
  unfolding updateSchema_def [abs_def]
  by (rule commutes_dataSets) (simp_all add: entity_scope_def)

subsection \<open>The inserts of the repositories\<close>

lemma acts_within_insertI:
  assumes frame: "\<And>db. rows_outside s (snd (f db)) = rows_outside s db"
    and result: "\<And>db1 db2. next_ids db1 = next_ids db2 \<Longrightarrow> fst (f db1) = fst (f db2)"
    and rows: "\<And>db. rows_of s (snd (f db)) = R (rows_of s db) (fst (f db))"
    and ids: "\<And>db. next_ids (snd (f db)) = N (next_ids db)"
  shows "acts_within (insert_view s) s f"
  unfolding acts_within_def
proof (intro conjI allI impI)
  fix db show "rows_outside s (snd (f db)) = rows_outside s db" by (rule frame)
next
  fix db1 db2 assume "insert_view s db1 = insert_view s db2"
  then have v: "rows_of s db1 = rows_of s db2" and n: "next_ids db1 = next_ids db2"
    by (simp_all add: insert_view_def)
  show r: "fst (f db1) = fst (f db2)" by (rule result[OF n])
  show "insert_view s (snd (f db1)) = insert_view s (snd (f db2))"
    by (simp only: insert_view_def rows ids v n r)
qed

lemma repository_createPrompt_scope:
  assumes "(np_tenantId data, np_projectId data) = s"
  shows "acts_within (insert_view s) s (repository_createPrompt now data)"
proof -
  let ?c = "\<lambda>db. name_in_use (np_tenantId data) (np_projectId data) (np_name data) (prompts db)
            \<or> slug_in_use (np_tenantId data) (np_projectId data) (np_slug data) (prompts db)"
  let ?row = "\<lambda>db. \<lparr>p_id = next_id (map p_id (prompts db)),
            p_tenantId = np_tenantId data, p_projectId = np_projectId data,
            p_name = np_name data, p_slug = np_slug data, p_provider = np_provider data,
            p_model = np_model data, p_body = np_body data,
            p_latestVersion = np_latestVersion data, p_isActive = np_isActive data,
            p_createdAt = now, p_updatedAt = now\<rparr>"
  let ?ins = "\<lambda>db. (Inr (?row db) :: error + Prompt, db\<lparr>prompts := prompts db @ [?row db]\<rparr>)"
  have eq: "repository_createPrompt now data
      = (\<lambda>db. if ?c db then (Inl UniqueConstraintFailed, db) else ?ins db)"
    by (rule ext) (simp add: repository_createPrompt_def Let_def)
  have "depends_only (rows_of s) ?c"
    using assms
    by (intro depends_onlyI)
      (auto simp add: rows_of_def name_in_use_def slug_in_use_def list_ex_iff)
  then have c: "depends_only (insert_view s) ?c" by (rule depends_only_insert_view)
  have ins: "acts_within (insert_view s) s ?ins"
  proof (rule acts_within_insertI[where
        R = "\<lambda>rows res. rows\<lparr>prompts := prompts rows @ [projr res]\<rparr>"
        and N = "\<lambda>(a, b, c, d, e). (a + 1, b, c, d, e)"])
    fix db
    show "rows_outside s (snd (?ins db)) = rows_outside s db"
      using assms by (simp add: rows_outside_def)
    show "rows_of s (snd (?ins db))
        = (rows_of s db)\<lparr>prompts := prompts (rows_of s db) @ [projr (fst (?ins db))]\<rparr>"
      using assms by (simp add: rows_of_def)
    show "next_ids (snd (?ins db)) = (case next_ids db of (a, b, c, d, e) \<Rightarrow> (a + 1, b, c, d, e))"
      by (simp add: next_ids_def next_id_append)
  next
    fix db1 db2 assume "next_ids db1 = next_ids db2"
    then show "fst (?ins db1) = fst (?ins db2)"
      by (simp add: next_ids_def)
  qed
  show ?thesis
    unfolding eq by (rule acts_within_if[OF c acts_within_return ins])
qed

lemma createPromptVersion_scope:
  assumes "(npv_tenantId data, npv_projectId data) = s"
  shows "acts_within (insert_view s) s (createPromptVersion now data)"
proof (rule acts_within_insertI[where
      R = "\<lambda>rows row. rows\<lparr>promptVersions := promptVersions rows @ [row]\<rparr>"
      and N = "\<lambda>(a, b, c, d, e). (a, b + 1, c, d, e)"])
  fix db
  show "rows_outside s (snd (createPromptVersion now data db)) = rows_outside s db"
    using assms by (simp add: createPromptVersion_def Let_def rows_outside_def)
  show "rows_of s (snd (createPromptVersion now data db))
      = (rows_of s db)\<lparr>promptVersions :=
           promptVersions (rows_of s db) @ [fst (createPromptVersion now data db)]\<rparr>"
    using assms by (simp add: createPromptVersion_def Let_def rows_of_def)
  show "next_ids (snd (createPromptVersion now data db))
      = (case next_ids db of (a, b, c, d, e) \<Rightarrow> (a, b + 1, c, d, e))"
    by (simp add: createPromptVersion_def Let_def next_ids_def next_id_append)
next
  fix db1 db2 assume "next_ids db1 = next_ids db2"
  then show "fst (createPromptVersion now data db1) = fst (createPromptVersion now data db2)"
    by (simp add: createPromptVersion_def Let_def next_ids_def)
qed

lemma createPromptRouter_scope:
  assumes "(npr_tenantId data, npr_projectId data) = s"
  shows "acts_within (insert_view s) s (createPromptRouter now data)"
proof (rule acts_within_insertI[where
      R = "\<lambda>rows row. rows\<lparr>promptRouters := promptRouters rows @ [row]\<rparr>"
      and N = "\<lambda>(a, b, c, d, e). (a, b, c + 1, d, e)"])
  fix db
  show "rows_outside s (snd (createPromptRouter now data db)) = rows_outside s db"
    using assms by (simp add: createPromptRouter_def Let_def rows_outside_def)
  show "rows_of s (snd (createPromptRouter now data db))
      = (rows_of s db)\<lparr>promptRouters :=
           promptRouters (rows_of s db) @ [fst (createPromptRouter now data db)]\<rparr>"
    using assms by (simp add: createPromptRouter_def Let_def rows_of_def)
  show "next_ids (snd (createPromptRouter now data db))
      = (case next_ids db of (a, b, c, d, e) \<Rightarrow> (a, b, c + 1, d, e))"
    by (simp add: createPromptRouter_def Let_def next_ids_def next_id_append)
next
  fix db1 db2 assume "next_ids db1 = next_ids db2"
  then show "fst (createPromptRouter now data db1) = fst (createPromptRouter now data db2)"
    by (simp add: createPromptRouter_def Let_def next_ids_def)
qed

lemma dataSets_create_scope:
  assumes "(nds_tenantId data, nds_projectId data) = s"
  shows "acts_within (insert_view s) s (dataSets_create now data)"
proof (rule acts_within_insertI[where R = "\<lambda>rows row. rows\<lparr>dataSets := dataSets rows @ [row]\<rparr>"
      and N = "\<lambda>(a, b, c, d, e). (a, b, c, d + 1, e)"])
  fix db
  show "rows_outside s (snd (dataSets_create now data db)) = rows_outside s db"
    using assms by (simp add: dataSets_create_def Let_def rows_outside_def)
  show "rows_of s (snd (dataSets_create now data db))
      = (rows_of s db)\<lparr>dataSets := dataSets (rows_of s db) @ [fst (dataSets_create now data db)]\<rparr>"
    using assms by (simp add: dataSets_create_def Let_def rows_of_def)
  show "next_ids (snd (dataSets_create now data db))
      = (case next_ids db of (a, b, c, d, e) \<Rightarrow> (a, b, c, d + 1, e))"
    by (simp add: dataSets_create_def Let_def next_ids_def next_id_append)
next
  fix db1 db2 assume "next_ids db1 = next_ids db2"
  then show "fst (dataSets_create now data db1) = fst (dataSets_create now data db2)"
    by (simp add: dataSets_create_def Let_def next_ids_def)
qed

lemma createMany_scope:
  assumes "(nr_tenantId nr, nr_projectId nr) = s"
  shows "acts_within (insert_view s) s (createMany now [nr])"
proof (rule acts_within_insertI[where
      R = "\<lambda>rows new. rows\<lparr>dataSetRecords := dataSetRecords rows @ new\<rparr>"
      and N = "\<lambda>(a, b, c, d, e). (a, b, c, d, e + 1)"])
  fix db
  show "rows_outside s (snd (createMany now [nr] db)) = rows_outside s db"
    using assms by (simp add: createMany_def Let_def rows_outside_def)
  show "rows_of s (snd (createMany now [nr] db))
      = (rows_of s db)\<lparr>dataSetRecords :=
           dataSetRecords (rows_of s db) @ fst (createMany now [nr] db)\<rparr>"
    using assms by (simp add: createMany_def Let_def rows_of_def)
  show "next_ids (snd (createMany now [nr] db))
      = (case next_ids db of (a, b, c, d, e) \<Rightarrow> (a, b, c, d, e + 1))"
    by (simp add: createMany_def Let_def next_ids_def next_id_append)
next
  fix db1 db2 assume "next_ids db1 = next_ids db2"
  then show "fst (createMany now [nr] db1) = fst (createMany now [nr] db2)"
    by (simp add: createMany_def Let_def next_ids_def)
qed

lemma softDeleteMany_scope:
  "acts_within (rows_of (entity_scope e)) (entity_scope e) (softDeleteMany e recordIds)"
proof (cases "recordIds = []")
  case True
  then have "softDeleteMany e recordIds = (\<lambda>db. (0, db))"
    by (simp add: softDeleteMany_def [abs_def])
  then show ?thesis by (simp only: acts_within_return)
next
  case False
  let ?hit = "\<lambda>r. r_tenantId r = e_tenantId e \<and> r_projectId r = e_projectId e
                 \<and> r_dataSetId r = e_id e \<and> r_id r \<in> set recordIds \<and> r_isDeleted r = False"
  let ?q = "\<lambda>db. int (length (filter ?hit (dataSetRecords db)))"
  let ?u = "\<lambda>db. db\<lparr>dataSetRecords :=
                     map (\<lambda>r. if ?hit r then r\<lparr>r_isDeleted := True\<rparr> else r) (dataSetRecords db)\<rparr>"
  from False have eq: "softDeleteMany e recordIds = (\<lambda>db. (?q db, ?u db))"
    by (simp add: softDeleteMany_def [abs_def] Let_def)
  have q: "depends_only (rows_of (entity_scope e)) ?q"
    by (rule depends_onlyI)
      (simp add: scope_defs table_scope cong: conj_cong del: filter_filter)
  have "commutes (entity_scope e) ?u"
    by (rule commutes_dataSetRecords) (simp_all add: entity_scope_def)
  then have u: "acts_within (rows_of (entity_scope e)) (entity_scope e) (\<lambda>db. (x, ?u db))" for x
    by (rule acts_within_update)
  have "acts_within (rows_of (entity_scope e)) (entity_scope e) (\<lambda>db. (?q db, ?u db))"
    by (rule acts_within_with_read[OF q, of _ "\<lambda>x db. (x, ?u db)"]) (rule u)
  then show ?thesis by (simp only: eq)
qed

subsection \<open>The probing loops\<close>

lemma rows_of_idem: "rows_of s (rows_of s db) = rows_of s db"
  by (simp add: rows_of_def)

lemma depends_only_rows_of: "depends_only (rows_of s) q \<Longrightarrow> q (rows_of s db) = q db"
  by (rule depends_onlyD[where V = "rows_of s"]) (simp_all add: rows_of_idem)

lemma project_scope_getProjectId: "project_scope (getProjectId e) = entity_scope e"
  by (simp add: project_scope_def getProjectId_def entity_scope_def)

lemmas read_rows =
  depends_only_rows_of[OF findPrompts_scope] depends_only_rows_of[OF findPromptById_scope]
  depends_only_rows_of[OF findPromptBySlug_scope] depends_only_rows_of[OF findPromptVersions_scope]
  depends_only_rows_of[OF findPromptVersion_scope]
  depends_only_rows_of[OF findPromptVersion_versionId_scope]
  depends_only_rows_of[OF findPromptVersionById_scope]
  depends_only_rows_of[OF findPromptRouter_scope] depends_only_rows_of[OF dataSets_findById_scope]
  depends_only_rows_of[OF dataSets_findBySlug_scope] depends_only_rows_of[OF records_findById_scope]
  depends_only_rows_of[OF listByDataSet_scope] depends_only_rows_of[OF listByDataSetPaginated_scope]
  depends_only_rows_of[OF listBatchByDataSet_scope]

lemma copyPrompt_loop_rows:
  "copyPrompt_loop pj src (rows_of (project_scope pj) db) st = copyPrompt_loop pj src db st"
proof (induction pj src db st rule: copyPrompt_loop.induct)
  case (1 projectId sourcePrompt db newName newSlug copyNumber)
  show ?case
  proof (cases "findPromptBySlug projectId newSlug db")
    case None
    then show ?thesis
      by (simp add: copyPrompt_loop.simps[of _ _ _ newName newSlug copyNumber] read_rows)
  next
    case (Some existingPrompt)
    with 1[OF Some] show ?thesis
      by (simp add: copyPrompt_loop.simps[of _ _ _ newName newSlug copyNumber] read_rows)
  qed
qed

lemma copyPrompt_loop_scope:
  "depends_only (rows_of (project_scope pj)) (\<lambda>db. copyPrompt_loop pj src db st)"
  by (rule depends_onlyI) (rule copyPrompt_loop_rows)

lemma createDataSet_loop_rows:
  "createDataSet_loop ctx baseSlug (rows_of (context_scope ctx) db) st
   = createDataSet_loop ctx baseSlug db st"
proof (induction ctx baseSlug db st rule: createDataSet_loop.induct)
  case (1 ctx baseSlug db slug attempt)
  show ?case
  proof (cases "dataSets_findBySlug ctx slug db")
    case None
    then show ?thesis
      by (simp add: createDataSet_loop.simps[of _ _ _ slug attempt] read_rows)
  next
    case (Some found)
    with 1[OF Some] show ?thesis
      by (simp add: createDataSet_loop.simps[of _ _ _ slug attempt] read_rows)
  qed
qed

lemma createDataSet_loop_scope:
  "depends_only (rows_of (context_scope ctx)) (\<lambda>db. createDataSet_loop ctx baseSlug db st)"
  by (rule depends_onlyI) (rule createDataSet_loop_rows)

subsection \<open>The reads of the services\<close>

lemma getPromptById_scope: "depends_only (rows_of (entity_scope e)) (getPromptById e)"
  by (rule depends_onlyI) (simp add: getPromptById_def read_rows split: option.split)

lemma getPromptVersion_scope: "depends_only (rows_of (version_scope vi)) (getPromptVersion vi)"
  by (rule depends_onlyI) (simp add: getPromptVersion_def read_rows)

lemma getPromptVersionById_scope:
  "depends_only (rows_of (project_scope pj)) (getPromptVersionById pj v)"
  by (rule depends_onlyI) (simp add: getPromptVersionById_def read_rows)

lemma listPromptVersions_scope: "depends_only (rows_of (entity_scope e)) (listPromptVersions e)"
  by (rule depends_onlyI) (simp add: listPromptVersions_def read_rows)

lemma listPrompts_scope: "depends_only (rows_of (project_scope pj)) (listPrompts pj)"
  by (rule depends_onlyI) (simp add: listPrompts_def read_rows)

lemma getPromptBySlug_scope: "depends_only (rows_of (project_scope pj)) (getPromptBySlug pj slug)"
  by (rule depends_onlyI) (simp add: getPromptBySlug_def read_rows)

lemma getActivePromptVersion_scope:
  "depends_only (rows_of (entity_scope e)) (getActivePromptVersion e)"
  by (rule depends_onlyI) (simp add: getActivePromptVersion_def read_rows split: option.split)

lemma getActiveRouterVersion_scope:
  "depends_only (rows_of (entity_scope e)) (getActiveRouterVersion e)"
  by (rule depends_onlyI) (simp add: getActiveRouterVersion_def read_rows)

lemma getDataSetById_scope: "depends_only (rows_of (entity_scope e)) (getDataSetById e)"
  by (rule depends_onlyI) (simp add: getDataSetById_def read_rows)

lemma listDataSetRecords_scope: "depends_only (rows_of (entity_scope e)) (listDataSetRecords e)"
  by (rule depends_onlyI) (simp add: listDataSetRecords_def read_rows)

lemma listDataSetRecordsPaginated_scope:
  "depends_only (rows_of (entity_scope e)) (listDataSetRecordsPaginated e pg)"
  by (rule depends_onlyI) (simp add: listDataSetRecordsPaginated_def read_rows)

subsection \<open>The writes of the services\<close>

lemma commutes_comp:
  assumes "commutes s u1" "commutes s u2"
  shows "commutes s (\<lambda>db. u2 (u1 db))"
  unfolding commutes_def
  by (simp add: commutes_rows_of[OF assms(1)] commutes_rows_of[OF assms(2)]
      commutes_rows_outside[OF assms(1)] commutes_rows_outside[OF assms(2)]
      commutes_next_ids[OF assms(1)] commutes_next_ids[OF assms(2)])

lemma createPrompt_scope:
  "acts_within (insert_view (project_scope pj)) (project_scope pj) (createPrompt now pj inp)"
  unfolding createPrompt_def [abs_def] Let_def
  apply (rule acts_within_bind)
   apply (rule repository_createPrompt_scope)
   apply (simp add: project_scope_def)
  apply (rule acts_within_case_sum)
   apply (rule acts_within_return)
  apply (rule acts_within_bind)
   apply (rule createPromptVersion_scope)
   apply (simp add: project_scope_def)
  apply (rule acts_within_bind)
   apply (rule createPromptRouter_scope)
   apply (simp add: project_scope_def)
  apply (rule acts_within_return)
  done

lemma advance_router_scope:
  "acts_within (insert_view (entity_scope e)) (entity_scope e)
     (\<lambda>db. case findPromptRouter e db of
             Some existingRouter \<Rightarrow>
               (c, updatePromptRouterVersion now e (pr_id existingRouter) n db)
           | None \<Rightarrow>
               (c, snd (createPromptRouter now
                          \<lparr>npr_promptId = e_id e, npr_tenantId = e_tenantId e,
                           npr_projectId = e_projectId e, npr_version = n\<rparr> db)))"
  apply (rule acts_within_case_option)
    apply (rule depends_only_insert_view)
    apply (rule findPromptRouter_scope)
   apply (rule acts_within_snd)
   apply (rule createPromptRouter_scope)
   apply (simp add: entity_scope_def)
  apply (rule acts_within_update_insert_view)
  apply (rule updatePromptRouterVersion_scope)
  done

lemma updatePrompt_scope:
  "acts_within (insert_view (entity_scope e)) (entity_scope e) (updatePrompt now e inp)"
  unfolding updatePrompt_def [abs_def] Let_def
  apply (rule acts_within_case_option)
    apply (rule depends_only_insert_view)
    apply (rule findPromptById_scope)
   apply (rule acts_within_return)
  apply (rule acts_within_bind)
   apply (rule repository_updatePrompt_scope)
  apply (rule acts_within_case_sum)
   apply (rule acts_within_return)
  apply (rule acts_within_bind)
   apply (rule createPromptVersion_scope)
   apply (simp add: entity_scope_def)
  apply (rule advance_router_scope)
  done

lemma setRouterVersion_scope:
  "acts_within (insert_view (entity_scope e)) (entity_scope e) (setRouterVersion now e version)"
  unfolding setRouterVersion_def [abs_def]
  apply (rule acts_within_case_option)
    apply (rule depends_only_insert_view)
    apply (rule findPromptVersion_scope)
   apply (rule acts_within_return)
  apply (rule advance_router_scope)
  done

lemma deactivatePrompt_scope:
  "acts_within (rows_of (entity_scope e)) (entity_scope e) (\<lambda>db. ((), deactivatePrompt now e db))"
  unfolding deactivatePrompt_def
  by (rule acts_within_update) (rule repository_deactivatePrompt_scope)

lemma deleteDataSet_scope:
  "acts_within (rows_of (entity_scope e)) (entity_scope e) (\<lambda>db. ((), deleteDataSet now e db))"
  unfolding deleteDataSet_def
  by (rule acts_within_update) (rule softDelete_scope)

lemma insert_copy_scope:
  "acts_within (insert_view (entity_scope e)) (entity_scope e)
     (\<lambda>db. case st of (newName, newSlug, copyNumber) \<Rightarrow>
        (case repository_createPrompt now
                   \<lparr>np_tenantId = e_tenantId e, np_projectId = e_projectId e,
                    np_name = newName, np_slug = newSlug,
                    np_provider = p_provider sourcePrompt, np_model = p_model sourcePrompt,
                    np_body = p_body sourcePrompt, np_latestVersion = 1,
                    np_isActive = True\<rparr> db of
           (Inl refused, db1) \<Rightarrow> (Inl refused, db1)
         | (Inr newPrompt, db1) \<Rightarrow>
             (case createPromptVersion now
                   \<lparr>npv_promptId = p_id newPrompt, npv_tenantId = e_tenantId e,
                    npv_projectId = e_projectId e, npv_version = 1,
                    npv_name = newName, npv_provider = p_provider sourcePrompt,
                    npv_model = p_model sourcePrompt, npv_body = p_body sourcePrompt,
                    npv_slug = newSlug\<rparr> db1 of
                (v, db2) \<Rightarrow>
                  (case createPromptRouter now
                        \<lparr>npr_promptId = p_id newPrompt, npr_tenantId = e_tenantId e,
                         npr_projectId = e_projectId e, npr_version = 1\<rparr> db2 of
                     (r, db3) \<Rightarrow> (Inr newPrompt, db3)))))"
proof -
  obtain newName newSlug copyNumber where st: "st = (newName, newSlug, copyNumber)"
    by (cases st) auto
  show ?thesis
    unfolding st prod.case
    apply (rule acts_within_bind)
     apply (rule repository_createPrompt_scope)
     apply (simp add: entity_scope_def)
    apply (rule acts_within_case_sum)
     apply (rule acts_within_return)
    apply (rule acts_within_bind)
     apply (rule createPromptVersion_scope)
     apply (simp add: entity_scope_def)
    apply (rule acts_within_bind)
     apply (rule createPromptRouter_scope)
     apply (simp add: entity_scope_def)
    apply (rule acts_within_return)
    done
qed

lemma copyPrompt_scope:
  "acts_within (insert_view (entity_scope e)) (entity_scope e) (copyPrompt now e)"
  unfolding copyPrompt_def [abs_def] Let_def
  apply (rule acts_within_case_option)
    apply (rule depends_only_insert_view)
    apply (rule findPromptById_scope)
   apply (rule acts_within_return)
  subgoal for sourcePrompt
    apply (rule acts_within_with_read[where
          q = "\<lambda>db. copyPrompt_loop (getProjectId e) sourcePrompt db
                       (p_name sourcePrompt @ '' Copy'', p_slug sourcePrompt @ ''-copy'', 1)"])
     apply (rule depends_only_insert_view)
     apply (rule copyPrompt_loop_scope[of "getProjectId e", unfolded project_scope_getProjectId])
    apply (rule insert_copy_scope)
    done
  done

lemma renamed_scope:
  "acts_within (rows_of (entity_scope e)) (entity_scope e)
     (\<lambda>db. case repository_renamePrompt now e name slug db of
             (Inl refused, db1) \<Rightarrow> (Inl refused, db1)
           | (Inr renamed, db1) \<Rightarrow>
               (case findPromptById e db1 of
                  None \<Rightarrow> (Inl FailedToRetrieveUpdatedPrompt, db1)
                | Some updatedPrompt \<Rightarrow> (Inr updatedPrompt, db1)))"
  apply (rule acts_within_bind)
   apply (rule repository_renamePrompt_scope)
  apply (rule acts_within_case_sum)
   apply (rule acts_within_return)
  apply (rule acts_within_case_option)
    apply (rule findPromptById_scope)
   apply (rule acts_within_return)
  apply (rule acts_within_return)
  done

lemma findPromptBySlug_own_project:
  "findPromptBySlug (getProjectId e) slug (rows_of (entity_scope e) db)
   = findPromptBySlug (getProjectId e) slug db"
  using depends_only_rows_of[OF findPromptBySlug_scope, of "getProjectId e" slug db]
  by (simp only: project_scope_getProjectId)

lemma renamePrompt_scope:
  "acts_within (rows_of (entity_scope e)) (entity_scope e) (renamePrompt rt now e name)"
  unfolding renamePrompt_def [abs_def] Let_def
  apply (rule acts_within_case_option)
    apply (rule findPromptById_scope)
   apply (rule acts_within_return)
  apply (rule acts_within_if)
    apply (rule depends_onlyI)
    apply (simp add: findPromptBySlug_own_project)
   apply (rule acts_within_return)
  apply (rule renamed_scope)
  done

lemma createDataSet_scope:
  "acts_within (insert_view (context_scope ctx)) (context_scope ctx) (createDataSet rt now ctx inp)"
  unfolding createDataSet_def [abs_def] Let_def
  apply (rule acts_within_with_read[where
        q = "\<lambda>db. createDataSet_loop ctx (generateSlug rt (cdi_name inp)) db
                     (generateSlug rt (cdi_name inp), 1)"])
   apply (rule depends_only_insert_view)
   apply (rule createDataSet_loop_scope)
  subgoal for st
    apply (cases st)
    apply (simp only: prod.case)
    apply (rule dataSets_create_scope)
    apply (simp add: context_scope_def)
    done
  done

lemma fold_record_scope:
  "commutes (entity_scope e)
     (\<lambda>db. updateSchema now e schema (incrementRecordCountBy now e amount db))"
  by (rule commutes_comp[of _ "incrementRecordCountBy now e amount" "updateSchema now e schema"])
    (rule incrementRecordCountBy_scope updateSchema_scope)+

lemma createDataSetRecord_scope:
  "acts_within (insert_view (entity_scope e)) (entity_scope e) (createDataSetRecord rt now e variables)"
  unfolding createDataSetRecord_def [abs_def] Let_def
  apply (rule acts_within_case_option)
    apply (rule depends_only_insert_view)
    apply (rule dataSets_findById_scope)
   apply (rule acts_within_return)
  apply (rule acts_within_bind)
   apply (rule createMany_scope)
   apply (simp add: entity_scope_def)
  subgoal for dataset rows
    apply (cases rows)
     apply (simp only: list.case)
     apply (rule acts_within_return)
    apply (simp only: list.case)
    apply (rule acts_within_update_insert_view)
    apply (rule fold_record_scope)
    done
  done

lemma deleteDataSetRecords_scope:
  "acts_within (rows_of (entity_scope e)) (entity_scope e) (deleteDataSetRecords now e recordIds)"
  unfolding deleteDataSetRecords_def [abs_def] Let_def
  apply (rule acts_within_bind)
   apply (rule softDeleteMany_scope)
  subgoal for deleted
    apply (cases "0 < deleted")
     apply (simp only: if_True)
     apply (rule acts_within_update)
     apply (rule incrementRecordCountBy_scope)
    apply (simp only: if_False)
    apply (rule acts_within_return)
    done
  done

subsection \<open>Claims about tenant isolation\<close>

text \<open>
  Claim C9. Every operation is confined to the scope \<open>(tenantId, projectId)\<close> of the
  identifier it is called with. The writes (copy, update, setRouterVersion, create,
  rename, deactivate, the creation of a dataset and of a record, the deletion of
  records and of a dataset) leave every row of every other scope unchanged. Their results
  and the rows of the scope after them, and the results of the reads (a prompt by id or
  by slug, its versions, its active version and Router, the lists, a dataset, its records
  and their pages) and of the two slug-collision probes, are the same on any two
  databases that hold the same rows of the scope, whatever rows of other scopes they
  hold; for the operations that insert a row the two databases also agree on the next
  primary key of each table, which is the id the new row gets.
\<close>

theorem tenant_isolation:
  "acts_within (insert_view (entity_scope promptId)) (entity_scope promptId)
     (copyPrompt now promptId)
   \<and> depends_only (rows_of (project_scope projectId)) (getPromptBySlug projectId slug)
   \<and> acts_within (insert_view (entity_scope promptId)) (entity_scope promptId)
         (updatePrompt now promptId updated)
   \<and> acts_within (insert_view (entity_scope promptId)) (entity_scope promptId)
         (setRouterVersion now promptId version)
   \<and> acts_within (insert_view (project_scope projectId)) (project_scope projectId)
         (createPrompt now projectId created)
   \<and> acts_within (insert_view (context_scope ctx)) (context_scope ctx)
         (createDataSet rt now ctx dataset)
   \<and> acts_within (insert_view (entity_scope dataSetId)) (entity_scope dataSetId)
         (createDataSetRecord rt now dataSetId variables)
   \<and> acts_within (rows_of (entity_scope promptId)) (entity_scope promptId)
         (renamePrompt rt now promptId name)
   \<and> acts_within (rows_of (entity_scope promptId)) (entity_scope promptId)
         (\<lambda>db. ((), deactivatePrompt now promptId db))
   \<and> acts_within (rows_of (entity_scope dataSetId)) (entity_scope dataSetId)
         (deleteDataSetRecords now dataSetId recordIds)
   \<and> acts_within (rows_of (entity_scope dataSetId)) (entity_scope dataSetId)
         (\<lambda>db. ((), deleteDataSet now dataSetId db))
   \<and> depends_only (rows_of (entity_scope promptId)) (getPromptById promptId)
   \<and> depends_only (rows_of (version_scope versionId)) (getPromptVersion versionId)
   \<and> depends_only (rows_of (project_scope projectId)) (getPromptVersionById projectId rowId)
   \<and> depends_only (rows_of (entity_scope promptId)) (listPromptVersions promptId)
   \<and> depends_only (rows_of (project_scope projectId)) (listPrompts projectId)
   \<and> depends_only (rows_of (entity_scope promptId)) (getActivePromptVersion promptId)
   \<and> depends_only (rows_of (entity_scope promptId)) (getActiveRouterVersion promptId)
   \<and> depends_only (rows_of (project_scope projectId))
         (\<lambda>db. copyPrompt_loop projectId sourcePrompt db candidate)
   \<and> depends_only (rows_of (context_scope ctx)) (dataSets_findBySlug ctx slug)
   \<and> depends_only (rows_of (context_scope ctx))
         (\<lambda>db. createDataSet_loop ctx baseSlug db attempt)
   \<and> depends_only (rows_of (entity_scope dataSetId)) (getDataSetById dataSetId)
   \<and> depends_only (rows_of (entity_scope dataSetId)) (listDataSetRecords dataSetId)
   \<and> depends_only (rows_of (entity_scope dataSetId))
         (listDataSetRecordsPaginated dataSetId pagination)
   \<and> depends_only (rows_of (entity_scope dataSetId)) (listBatchByDataSet dataSetId lmt afterId)
   \<and> depends_only (rows_of (entity_scope recordId)) (records_findById recordId)"
  by (intro conjI)
    (rule getPromptById_scope getPromptVersion_scope getPromptVersionById_scope
      listPromptVersions_scope listPrompts_scope getPromptBySlug_scope
      getActivePromptVersion_scope getActiveRouterVersion_scope copyPrompt_loop_scope
      dataSets_findBySlug_scope createDataSet_loop_scope getDataSetById_scope
      listDataSetRecords_scope listDataSetRecordsPaginated_scope listBatchByDataSet_scope
      records_findById_scope deactivatePrompt_scope renamePrompt_scope deleteDataSet_scope
      deleteDataSetRecords_scope createPrompt_scope updatePrompt_scope setRouterVersion_scope
      copyPrompt_scope createDataSet_scope createDataSetRecord_scope)+

text \<open>
  On the example: a copy of \<open>X\<close> neither collides with the slug \<open>x-copy\<close> of tenant 2 nor
  touches that row.
\<close>

theorem tenant_isolation_witness:
  "insert_view (entity_scope demo_entity) shared_db = insert_view (entity_scope demo_entity) sibling_db
   \<and> prompts (rows_outside (entity_scope demo_entity) shared_db) = [foreign_prompt]
   \<and> p_slug foreign_prompt = ''x-copy''
   \<and> getPromptBySlug demo_project ''x-copy'' shared_db
       = getPromptBySlug demo_project ''x-copy'' sibling_db
   \<and> getPromptBySlug demo_project ''x-copy'' sibling_db = None
   \<and> fst (copyPrompt 5 demo_entity shared_db) = fst (copyPrompt 5 demo_entity sibling_db)
   \<and> rows_outside (entity_scope demo_entity) (snd (copyPrompt 5 demo_entity shared_db))
       = rows_outside (entity_scope demo_entity) shared_db"
proof -
  have v: "insert_view (entity_scope demo_entity) shared_db
      = insert_view (entity_scope demo_entity) sibling_db"
    by (simp add: insert_view_def rows_of_def next_ids_def entity_scope_def demo_entity_def
        shared_db_def sibling_db_def demo_db_def empty_database_def demo_prompt_def
        foreign_prompt_def sibling_prompt_def next_id_def)
  have r: "rows_of (project_scope demo_project) shared_db
      = rows_of (project_scope demo_project) sibling_db"
    by (simp add: rows_of_def project_scope_def demo_project_def
        shared_db_def sibling_db_def demo_db_def empty_database_def demo_prompt_def
        foreign_prompt_def sibling_prompt_def)
  have o: "prompts (rows_outside (entity_scope demo_entity) shared_db) = [foreign_prompt]"
    by (simp add: rows_outside_def entity_scope_def demo_entity_def shared_db_def demo_db_def
        empty_database_def demo_prompt_def foreign_prompt_def)
  have f: "p_slug foreign_prompt = ''x-copy''"
    by (simp add: foreign_prompt_def)
  have n: "getPromptBySlug demo_project ''x-copy'' sibling_db = None"
    by (simp add: getPromptBySlug_def findPromptBySlug_def demo_project_def sibling_db_def
        demo_db_def empty_database_def demo_prompt_def sibling_prompt_def)
  have "acts_within (insert_view (entity_scope demo_entity)) (entity_scope demo_entity)
      (copyPrompt 5 demo_entity)"
    and "depends_only (rows_of (project_scope demo_project)) (getPromptBySlug demo_project ''x-copy'')"
    using tenant_isolation[where promptId = demo_entity and now = 5
        and projectId = demo_project and slug = "''x-copy''"]
    by (rule conjunct1, rule conjunct2[THEN conjunct1])
  then have
    "rows_outside (entity_scope demo_entity) (snd (copyPrompt 5 demo_entity shared_db))
      = rows_outside (entity_scope demo_entity) shared_db"
    "insert_view (entity_scope demo_entity) shared_db = insert_view (entity_scope demo_entity) sibling_db
      \<longrightarrow> fst (copyPrompt 5 demo_entity shared_db) = fst (copyPrompt 5 demo_entity sibling_db)"
    "rows_of (project_scope demo_project) shared_db = rows_of (project_scope demo_project) sibling_db
      \<longrightarrow> getPromptBySlug demo_project ''x-copy'' shared_db
          = getPromptBySlug demo_project ''x-copy'' sibling_db"
    unfolding acts_within_def depends_only_def by blast+
  with v r o f n show ?thesis by simp
qed

end
